(* ===== verification/Go_Prelude.thy ===== *)
theory Go_Prelude
  imports Main "HOL-Library.Code_Target_Nat"
begin

text \<open>
  The shared base of the development: how Go values and results are written in HOL, the
  collections of rewrite rules the component theories use, and generic facts on lists and
  sums.

  \<^item> A Go \<open>[]byte\<close> or \<open>string\<close> is a list of bytes; a byte is a \<^typ>\<open>char\<close> (HOL's
    characters are exactly the 256 byte values), so literals can be written as in the
    source.
  \<^item> A function that returns \<open>(T, error)\<close> returns \<open>'e + 'a\<close>: \<^const>\<open>Inl\<close> is a non-nil
    error, \<^const>\<open>Inr\<close> the value. Where an operation can panic the panic is \<^const>\<open>None\<close>.
\<close>

type_synonym bytes = "char list"

type_synonym ('e, 'a) result = "'e + 'a"

named_theorems go_simps \<open>rewrite rules for the model of the Go standard library\<close>
named_theorems scan_simps \<open>unfolding rules of the JSON scanners\<close>
named_theorems ctx_simps \<open>field equations of the gateway context operations\<close>

abbreviation byte :: "char \<Rightarrow> nat" where
  "byte c \<equiv> of_char c"

text \<open>Chaining of fallible calls: \<open>if err != nil { return ..., err }\<close>.\<close>

definition andThen :: "('e, 'a) result \<Rightarrow> ('a \<Rightarrow> ('e, 'b) result) \<Rightarrow> ('e, 'b) result" where
  "andThen r f = (case r of Inl e \<Rightarrow> Inl e | Inr x \<Rightarrow> f x)"

lemma andThen_simps [simp]:
  "andThen (Inl e) f = Inl e"
  "andThen (Inr x) f = f x"
  by (simp_all add: andThen_def)

lemma andThen_Inr_iff: "andThen r f = Inr y \<longleftrightarrow> (\<exists>x. r = Inr x \<and> f x = Inr y)"
  by (cases r) auto

text \<open>A Go slice expression \<open>xs[lo:hi]\<close>: out of range panics.\<close>

definition slice :: "'a list \<Rightarrow> nat \<Rightarrow> nat \<Rightarrow> 'a list option" where
  "slice xs lo hi =
     (if lo \<le> hi \<and> hi \<le> length xs then Some (take (hi - lo) (drop lo xs)) else None)"

text \<open>The text between two in-range positions, for slices the code has already guarded.\<close>

definition segment :: "'a list \<Rightarrow> nat \<Rightarrow> nat \<Rightarrow> 'a list" where
  "segment xs lo hi = take (hi - lo) (drop lo xs)"

lemma slice_segment: "lo \<le> hi \<Longrightarrow> hi \<le> length xs \<Longrightarrow> slice xs lo hi = Some (segment xs lo hi)"
  by (simp add: slice_def segment_def)

lemma segment_append:
  "a \<le> b \<Longrightarrow> b \<le> c \<Longrightarrow> c \<le> length xs \<Longrightarrow> segment xs a b @ segment xs b c = segment xs a c"
proof -
  assume "a \<le> b" "b \<le> c" "c \<le> length xs"
  then have "drop (b - a) (take (c - a) (drop a xs)) = segment xs b c"
    by (simp add: segment_def drop_take)
  moreover have "take (b - a) (take (c - a) (drop a xs)) = segment xs a b"
    using \<open>b \<le> c\<close> by (simp add: segment_def min_def)
  ultimately show ?thesis
    by (metis append_take_drop_id segment_def)
qed

lemma segment_single: "i < length xs \<Longrightarrow> segment xs i (Suc i) = [xs ! i]"
  by (simp add: segment_def take_Suc hd_drop_conv_nth Cons_nth_drop_Suc [symmetric])

lemma segment_Cons:
  "i < j \<Longrightarrow> i < length xs \<Longrightarrow> segment xs i j = xs ! i # segment xs (Suc i) j"
  by (simp add: segment_def take_Cons' Cons_nth_drop_Suc [symmetric])

lemma segment_snoc:
  "i \<le> j \<Longrightarrow> j < length xs \<Longrightarrow> segment xs i (Suc j) = segment xs i j @ [xs ! j]"
  using segment_append [of i j "Suc j" xs] by (simp add: segment_single)

lemma segment_at:
  "i \<le> j \<Longrightarrow> j < k \<Longrightarrow> k \<le> length xs \<Longrightarrow> segment xs i k = segment xs i j @ xs ! j # segment xs (Suc j) k"
  using segment_append [of i j k xs] by (simp add: segment_Cons)

lemma segment_empty [simp]: "segment xs i i = []"
  by (simp add: segment_def)

lemma length_segment: "i \<le> j \<Longrightarrow> j \<le> length xs \<Longrightarrow> length (segment xs i j) = j - i"
  by (simp add: segment_def)

lemma segment_middle: "segment (p @ m @ s) (length p) (length p + length m) = m"
  by (simp add: segment_def)

end
