(* ===== verification/Go_Strings.thy ===== *)
theory Go_Strings
  imports Go_Prelude
begin

text \<open>
  The parts of Go's \<open>strings\<close>, \<open>bytes\<close>, \<open>unicode/utf8\<close> and \<open>strconv\<close> packages that the
  gateway calls, on byte lists. They are the language's library, not code of the
  repository, so no definition here is mapped to a source line.

  \<^item> \<open>TrimSpace\<close> removes the UTF-8 encodings of every Unicode white-space character, as
    \<open>unicode.IsSpace\<close> lists them, not only the ASCII ones.
  \<^item> \<open>Unquote\<close> follows \<open>strconv.Unquote\<close> on double-quoted text: Go escapes, hexadecimal and
    octal escapes, no surrogate code points, invalid UTF-8 replaced by U+FFFD.
  \<^item> \<open>Quote\<close> follows \<open>strconv.AppendQuote\<close>; which code points above U+007F are printable is
    a table of the Go release and a parameter.
\<close>

section \<open>Prefixes, suffixes, search\<close>

definition hasPrefix :: "bytes \<Rightarrow> bytes \<Rightarrow> bool" where
  "hasPrefix s p \<longleftrightarrow> take (length p) s = p"

definition trimPrefix :: "bytes \<Rightarrow> bytes \<Rightarrow> bytes" where
  "trimPrefix s p = (if hasPrefix s p then drop (length p) s else s)"

definition hasSuffix :: "bytes \<Rightarrow> bytes \<Rightarrow> bool" where
  "hasSuffix s p \<longleftrightarrow> length p \<le> length s \<and> drop (length s - length p) s = p"

fun contains :: "bytes \<Rightarrow> bytes \<Rightarrow> bool" where
  "contains [] p = (p = [])"
| "contains (c # s) p = (hasPrefix (c # s) p \<or> contains s p)"

lemma hasPrefix_iff: "hasPrefix s p \<longleftrightarrow> (\<exists>t. s = p @ t)"
  unfolding hasPrefix_def by (metis append_take_drop_id append_eq_conv_conj)

lemma contains_iff: "contains s p \<longleftrightarrow> (\<exists>u v. s = u @ p @ v)"
proof (induction s p rule: contains.induct)
  case (2 c s p)
  show ?case
  proof
    assume "contains (c # s) p"
    then consider "hasPrefix (c # s) p" | "contains s p" by auto
    then show "\<exists>u v. c # s = u @ p @ v"
    proof cases
      case 1
      then show ?thesis by (metis append_Nil hasPrefix_iff)
    next
      case 2
      then show ?thesis using "2.IH" by (metis append_Cons)
    qed
  next
    assume "\<exists>u v. c # s = u @ p @ v"
    then obtain u v where uv: "c # s = u @ p @ v" by blast
    show "contains (c # s) p"
    proof (cases u)
      case Nil
      then have "hasPrefix (c # s) p" using uv by (auto simp: hasPrefix_iff)
      then show ?thesis by simp
    next
      case (Cons d u')
      then have "contains s p" using uv "2.IH" by auto
      then show ?thesis by simp
    qed
  qed
qed simp

text \<open>\<open>TrimLeft\<close> and \<open>TrimRight\<close> with an ASCII cut set.\<close>

definition trimLeft :: "bytes \<Rightarrow> char set \<Rightarrow> bytes" where
  "trimLeft s cutset = dropWhile (\<lambda>c. c \<in> cutset) s"

definition trimRight :: "bytes \<Rightarrow> char set \<Rightarrow> bytes" where
  "trimRight s cutset = rev (dropWhile (\<lambda>c. c \<in> cutset) (rev s))"

lemma trimRight_decomp: "\<exists>t. s = trimRight s cutset @ t \<and> set t \<subseteq> cutset"
proof -
  have "s = rev (dropWhile (\<lambda>c. c \<in> cutset) (rev s)) @ rev (takeWhile (\<lambda>c. c \<in> cutset) (rev s))"
    by (metis rev_append rev_rev_ident takeWhile_dropWhile_id)
  then show ?thesis
    unfolding trimRight_def by (metis set_rev set_takeWhileD subsetI)
qed

lemma trimRight_last: "trimRight s cutset \<noteq> [] \<Longrightarrow> last (trimRight s cutset) \<notin> cutset"
  unfolding trimRight_def using hd_dropWhile [of "\<lambda>c. c \<in> cutset" "rev s"]
  by (simp add: last_rev)

text \<open>\<open>strings.Split\<close> on a one-byte separator.\<close>

fun split_on :: "char \<Rightarrow> bytes \<Rightarrow> bytes list" where
  "split_on d [] = [[]]"
| "split_on d (c # s) =
     (if c = d then [] # split_on d s
      else (case split_on d s of [] \<Rightarrow> [[c]] | p # ps \<Rightarrow> (c # p) # ps))"

lemma split_on_nonempty [simp]: "split_on d s \<noteq> []"
  by (induction s) (auto split: list.split)

lemma split_on_no_sep: "p \<in> set (split_on d s) \<Longrightarrow> d \<notin> set p"
proof (induction s arbitrary: p)
  case (Cons c s)
  then show ?case
    by (cases "split_on d s") (auto split: if_splits)
qed simp

fun join_with :: "char \<Rightarrow> bytes list \<Rightarrow> bytes" where
  "join_with d [] = []"
| "join_with d [p] = p"
| "join_with d (p # q # ps) = p @ d # join_with d (q # ps)"

lemma join_with_Cons_Cons: "join_with d ((c # p) # ps) = c # join_with d (p # ps)"
  by (cases ps) auto

lemma join_split_on: "join_with d (split_on d s) = s"
proof (induction s)
  case (Cons c s)
  obtain p ps where p: "split_on d s = p # ps"
    by (cases "split_on d s") (auto dest: arg_cong [of _ _ "\<lambda>x. x = []"])
  then show ?case
    using Cons by (auto simp: join_with_Cons_Cons)
qed simp

section \<open>White space\<close>

text \<open>
  The UTF-8 encodings of the code points for which \<open>unicode.IsSpace\<close> holds: tab, line
  feed, vertical tab, form feed, carriage return, space, U+0085, U+00A0, U+1680, U+2000 to
  U+200A, U+2028, U+2029, U+202F, U+205F and U+3000.
\<close>

definition space_encodings :: "bytes list" where
  "space_encodings =
     [[CHR 0x09], [CHR 0x0A], [CHR 0x0B], [CHR 0x0C], [CHR 0x0D], [CHR 0x20],
      [CHR 0xC2, CHR 0x85], [CHR 0xC2, CHR 0xA0], [CHR 0xE1, CHR 0x9A, CHR 0x80],
      [CHR 0xE2, CHR 0x80, CHR 0x80], [CHR 0xE2, CHR 0x80, CHR 0x81], [CHR 0xE2, CHR 0x80, CHR 0x82],
      [CHR 0xE2, CHR 0x80, CHR 0x83], [CHR 0xE2, CHR 0x80, CHR 0x84], [CHR 0xE2, CHR 0x80, CHR 0x85],
      [CHR 0xE2, CHR 0x80, CHR 0x86], [CHR 0xE2, CHR 0x80, CHR 0x87], [CHR 0xE2, CHR 0x80, CHR 0x88],
      [CHR 0xE2, CHR 0x80, CHR 0x89], [CHR 0xE2, CHR 0x80, CHR 0x8A], [CHR 0xE2, CHR 0x80, CHR 0xA8],
      [CHR 0xE2, CHR 0x80, CHR 0xA9], [CHR 0xE2, CHR 0x80, CHR 0xAF], [CHR 0xE2, CHR 0x81, CHR 0x9F],
      [CHR 0xE3, CHR 0x80, CHR 0x80]]"

text \<open>Strip the listed encodings from the front of a byte list, as often as one fits.\<close>

function strip_front :: "bytes list \<Rightarrow> bytes \<Rightarrow> bytes" where
  "strip_front es s =
     (case find (\<lambda>e. e \<noteq> [] \<and> hasPrefix s e) es of
        None \<Rightarrow> s
      | Some e \<Rightarrow> strip_front es (drop (length e) s))"
  by pat_completeness auto
termination
proof (relation "measure (\<lambda>(es, s). length s)")
  fix es :: "bytes list" and s e :: bytes
  assume "find (\<lambda>e. e \<noteq> [] \<and> hasPrefix s e) es = Some e"
  then have "e \<noteq> []" "hasPrefix s e" by (auto simp: find_Some_iff)
  then show "((es, drop (length e) s), es, s) \<in> measure (\<lambda>(es, s). length s)"
    by (auto simp: hasPrefix_iff)
qed simp

declare strip_front.simps [simp del]

definition trimSpaceLeft :: "bytes \<Rightarrow> bytes" where
  "trimSpaceLeft s = strip_front space_encodings s"

definition trimSpaceRight :: "bytes \<Rightarrow> bytes" where
  "trimSpaceRight s = rev (strip_front (map rev space_encodings) (rev s))"

definition trimSpace :: "bytes \<Rightarrow> bytes" where
  "trimSpace s = trimSpaceRight (trimSpaceLeft s)"

text \<open>A byte list that neither starts nor ends with a white-space character.\<close>

definition no_front :: "bytes list \<Rightarrow> bytes \<Rightarrow> bool" where
  "no_front es s \<longleftrightarrow> find (\<lambda>e. e \<noteq> [] \<and> hasPrefix s e) es = None"

lemma strip_front_no_front: "no_front es (strip_front es s)"
proof (induction es s rule: strip_front.induct)
  case (1 es s)
  show ?case
  proof (cases "find (\<lambda>e. e \<noteq> [] \<and> hasPrefix s e) es")
    case None
    then show ?thesis by (simp add: no_front_def strip_front.simps [of es s])
  next
    case (Some e)
    with 1 show ?thesis by (simp add: strip_front.simps [of es s])
  qed
qed

lemma strip_front_id: "no_front es s \<Longrightarrow> strip_front es s = s"
  by (simp add: no_front_def strip_front.simps [of es s])

lemma strip_front_suffix: "\<exists>p. s = p @ strip_front es s"
proof (induction es s rule: strip_front.induct)
  case (1 es s)
  show ?case
  proof (cases "find (\<lambda>e. e \<noteq> [] \<and> hasPrefix s e) es")
    case None
    then show ?thesis by (simp add: strip_front.simps [of es s])
  next
    case (Some e)
    with 1 obtain p where "drop (length e) s = p @ strip_front es s"
      by (auto simp: strip_front.simps [of es s])
    then show ?thesis by (metis append_assoc append_take_drop_id)
  qed
qed

lemma no_front_Nil [simp]: "no_front es []"
  by (auto simp: no_front_def hasPrefix_def find_None_iff)

lemma strip_front_Nil [simp]: "strip_front es [] = []"
  by (simp add: strip_front_id)

lemma no_front_prefix: "no_front es (s @ t) \<Longrightarrow> no_front es s"
  by (auto simp: no_front_def find_None_iff hasPrefix_iff)

lemma trimSpace_Nil [simp]: "trimSpace [] = []"
  by (simp add: trimSpace_def trimSpaceLeft_def trimSpaceRight_def)

lemma trimSpaceRight_prefix: "\<exists>t. s = trimSpaceRight s @ t"
proof -
  obtain p where "rev s = p @ strip_front (map rev space_encodings) (rev s)"
    using strip_front_suffix by blast
  then have "s = rev (strip_front (map rev space_encodings) (rev s)) @ rev p"
    by (metis rev_append rev_rev_ident)
  then show ?thesis unfolding trimSpaceRight_def by blast
qed

lemma trimSpace_idem [simp, go_simps]: "trimSpace (trimSpace s) = trimSpace s"
proof -
  let ?l = "trimSpaceLeft s"
  obtain t where t: "?l = trimSpaceRight ?l @ t" using trimSpaceRight_prefix by blast
  have "no_front space_encodings ?l"
    unfolding trimSpaceLeft_def by (rule strip_front_no_front)
  then have "no_front space_encodings (trimSpaceRight ?l)"
    using t no_front_prefix by metis
  then have "trimSpaceLeft (trimSpaceRight ?l) = trimSpaceRight ?l"
    by (simp add: trimSpaceLeft_def strip_front_id)
  moreover have "trimSpaceRight (trimSpaceRight ?l) = trimSpaceRight ?l"
    unfolding trimSpaceRight_def by (simp add: strip_front_id strip_front_no_front)
  ultimately show ?thesis by (simp add: trimSpace_def)
qed

section \<open>UTF-8\<close>

definition runeError :: nat where
  "runeError = 0xFFFD"

definition inRange :: "nat \<Rightarrow> nat \<Rightarrow> char \<Rightarrow> bool" where
  "inRange lo hi c \<longleftrightarrow> lo \<le> byte c \<and> byte c \<le> hi"

abbreviation isCont :: "char \<Rightarrow> bool" where
  "isCont \<equiv> inRange 0x80 0xBF"

text \<open>\<open>utf8.DecodeRune\<close>: the code point at the front and its width; \<open>(RuneError, 1)\<close> where the
  bytes are no valid encoding, \<open>(RuneError, 0)\<close> on the empty list.\<close>

fun decodeRune :: "bytes \<Rightarrow> nat \<times> nat" where
  "decodeRune [] = (runeError, 0)"
| "decodeRune (a # s) =
     (if byte a < 0x80 then (byte a, 1)
      else if inRange 0xC2 0xDF a then
        (case s of b # _ \<Rightarrow>
           if isCont b then ((byte a - 0xC0) * 64 + (byte b - 0x80), 2) else (runeError, 1)
         | _ \<Rightarrow> (runeError, 1))
      else if inRange 0xE0 0xEF a then
        (case s of b # c # _ \<Rightarrow>
           if inRange (if byte a = 0xE0 then 0xA0 else 0x80) (if byte a = 0xED then 0x9F else 0xBF) b
              \<and> isCont c
           then ((byte a - 0xE0) * 4096 + (byte b - 0x80) * 64 + (byte c - 0x80), 3)
           else (runeError, 1)
         | _ \<Rightarrow> (runeError, 1))
      else if inRange 0xF0 0xF4 a then
        (case s of b # c # d # _ \<Rightarrow>
           if inRange (if byte a = 0xF0 then 0x90 else 0x80) (if byte a = 0xF4 then 0x8F else 0xBF) b
              \<and> isCont c \<and> isCont d
           then ((byte a - 0xF0) * 262144 + (byte b - 0x80) * 4096
                 + (byte c - 0x80) * 64 + (byte d - 0x80), 4)
           else (runeError, 1)
         | _ \<Rightarrow> (runeError, 1))
      else (runeError, 1))"

lemma decodeRune_width: "s \<noteq> [] \<Longrightarrow> 1 \<le> snd (decodeRune s)"
  by (cases s) (auto split: list.splits)

text \<open>\<open>utf8.ValidRune\<close> and \<open>utf8.AppendRune\<close>.\<close>

definition validRune :: "nat \<Rightarrow> bool" where
  "validRune r \<longleftrightarrow> r < 0xD800 \<or> (0xDFFF < r \<and> r \<le> 0x10FFFF)"

definition encodeRune :: "nat \<Rightarrow> bytes" where
  "encodeRune r0 =
     (let r = (if validRune r0 then r0 else runeError) in
      if r < 0x80 then [char_of r]
      else if r < 0x800 then [char_of (0xC0 + r div 64), char_of (0x80 + r mod 64)]
      else if r < 0x10000 then
        [char_of (0xE0 + r div 4096), char_of (0x80 + r div 64 mod 64), char_of (0x80 + r mod 64)]
      else
        [char_of (0xF0 + r div 262144), char_of (0x80 + r div 4096 mod 64),
         char_of (0x80 + r div 64 mod 64), char_of (0x80 + r mod 64)])"

section \<open>strconv.Unquote\<close>

definition unhex :: "char \<Rightarrow> nat option" where
  "unhex c =
     (if inRange 48 57 c then Some (byte c - 48)
      else if inRange 97 102 c then Some (byte c - 87)
      else if inRange 65 70 c then Some (byte c - 55)
      else None)"

text \<open>Read \<open>n\<close> digits with the given digit reader and base.\<close>

fun readDigits :: "(char \<Rightarrow> nat option) \<Rightarrow> nat \<Rightarrow> nat \<Rightarrow> nat \<Rightarrow> bytes \<Rightarrow> (nat \<times> bytes) option" where
  "readDigits dig base 0 v s = Some (v, s)"
| "readDigits dig base (Suc n) v [] = None"
| "readDigits dig base (Suc n) v (c # s) =
     (case dig c of None \<Rightarrow> None | Some x \<Rightarrow> readDigits dig base n (v * base + x) s)"

lemma readDigits_code [code]:
  "readDigits dig base n v s =
     (if n = 0 then Some (v, s)
      else (case s of
              [] \<Rightarrow> None
            | c # t \<Rightarrow> (case dig c of None \<Rightarrow> None | Some x \<Rightarrow> readDigits dig base (n - 1) (v * base + x) t)))"
  by (cases n; cases s) (auto cong: option.case_cong)

definition unoct :: "char \<Rightarrow> nat option" where
  "unoct c = (if inRange 48 55 c then Some (byte c - 48) else None)"

text \<open>
  \<open>strconv.UnquoteChar(s, '"')\<close>: the code point, whether it is written back as UTF-8
  (\<open>multibyte\<close>) or as one byte, and the rest.
\<close>

definition unquoteEscape :: "char \<Rightarrow> bytes \<Rightarrow> (nat \<times> bool \<times> bytes) option" where
  "unquoteEscape c s =
     (if c = CHR ''a'' then Some (7, False, s)
      else if c = CHR ''b'' then Some (8, False, s)
      else if c = CHR ''f'' then Some (12, False, s)
      else if c = CHR ''n'' then Some (10, False, s)
      else if c = CHR ''r'' then Some (13, False, s)
      else if c = CHR ''t'' then Some (9, False, s)
      else if c = CHR ''v'' then Some (11, False, s)
      else if c = CHR ''x'' then
        map_option (\<lambda>(v, t). (v, False, t)) (readDigits unhex 16 2 0 s)
      else if c = CHR ''u'' \<or> c = CHR ''U'' then
        (case readDigits unhex 16 (if c = CHR ''u'' then 4 else 8) 0 s of
           None \<Rightarrow> None
         | Some (v, t) \<Rightarrow> if validRune v then Some (v, True, t) else None)
      else if inRange 48 55 c then
        (case readDigits unoct 8 2 (byte c - 48) s of
           None \<Rightarrow> None
         | Some (v, t) \<Rightarrow> if v > 255 then None else Some (v, False, t))
      else if c = CHR 0x5C then Some (0x5C, False, s)
      else if c = CHR 0x22 then Some (0x22, False, s)
      else None)"

fun unquoteChar :: "bytes \<Rightarrow> (nat \<times> bool \<times> bytes) option" where
  "unquoteChar [] = None"
| "unquoteChar (a # s) =
     (if a = CHR 0x22 then None
      else if 0x80 \<le> byte a then
        (let (r, w) = decodeRune (a # s) in Some (r, True, drop w (a # s)))
      else if a \<noteq> CHR 0x5C then Some (byte a, False, s)
      else (case s of [] \<Rightarrow> None | c # t \<Rightarrow> unquoteEscape c t))"

lemma readDigits_length: "readDigits dig base n v s = Some (x, t) \<Longrightarrow> length t \<le> length s"
proof (induction n arbitrary: v s)
  case (Suc n)
  then show ?case
    by (cases s) (fastforce split: option.splits)+
qed simp

lemma unquoteEscape_length: "unquoteEscape c s = Some (r, m, t) \<Longrightarrow> length t \<le> length s"
  by (auto simp: unquoteEscape_def split: if_splits option.splits prod.splits
           dest: readDigits_length)

lemma unquoteChar_length: "unquoteChar s = Some (r, m, t) \<Longrightarrow> length t < length s"
proof (cases s)
  case (Cons a s')
  assume *: "unquoteChar s = Some (r, m, t)"
  have w: "1 \<le> snd (decodeRune (a # s'))" by (rule decodeRune_width) simp
  from * Cons show ?thesis
  proof (cases "0x80 \<le> byte a")
    case True
    then show ?thesis using * Cons w
      by (auto simp del: decodeRune.simps split: if_splits prod.splits)
  next
    case False
    then show ?thesis using * Cons
      by (auto split: if_splits list.splits dest: unquoteEscape_length)
  qed
qed simp

text \<open>The loop of \<open>strconv.unquote\<close> over the text after the opening quote.\<close>

function unquoteLoop :: "bytes \<Rightarrow> bytes \<Rightarrow> (bytes \<times> bytes) option" where
  "unquoteLoop buf s =
     (if s \<noteq> [] \<and> hd s \<noteq> CHR 0x22 then
        (case unquoteChar s of
           None \<Rightarrow> None
         | Some (r, m, t) \<Rightarrow>
             if hd s = CHR 0x0A then None
             else unquoteLoop (buf @ (if r < 0x80 \<or> \<not> m then [char_of r] else encodeRune r)) t)
      else if s \<noteq> [] then Some (buf, tl s)
      else None)"
  by pat_completeness auto
termination
  by (relation "measure (\<lambda>(buf, s). length s)") (auto dest: unquoteChar_length)

declare unquoteLoop.simps [simp del]

text \<open>\<open>strconv.Unquote\<close> on text that starts with a double quote; \<^const>\<open>None\<close> is \<open>ErrSyntax\<close>.
  (The library's shortcut for quoted text without escapes and newlines that is valid UTF-8
  returns what the loop returns.)\<close>

definition unquote :: "bytes \<Rightarrow> bytes option" where
  "unquote s =
     (if length s < 2 \<or> hd s \<noteq> CHR 0x22 then None
      else (case unquoteLoop [] (tl s) of
              Some (out, rem) \<Rightarrow> if rem = [] then Some out else None
            | None \<Rightarrow> None))"

section \<open>Numbers and letter case\<close>

fun nat_digits :: "nat \<Rightarrow> bytes" where
  "nat_digits n =
     (if n < 10 then [char_of (48 + n)] else nat_digits (n div 10) @ [char_of (48 + n mod 10)])"

declare nat_digits.simps [simp del]

definition itoa :: "int \<Rightarrow> bytes" where
  "itoa i = (if i < 0 then CHR ''-'' # nat_digits (nat (- i)) else nat_digits (nat i))"

text \<open>
  \<open>strings.ToLower\<close>. On ASCII text only the letters A to Z change; the mapping of other
  text is the Unicode table of the Go release, a parameter.
\<close>

definition ascii_lower :: "char \<Rightarrow> char" where
  "ascii_lower c = (if inRange 65 90 c then char_of (byte c + 32) else c)"

definition toLower :: "(bytes \<Rightarrow> bytes) \<Rightarrow> bytes \<Rightarrow> bytes" where
  "toLower unicode_lower s =
     (if list_all (\<lambda>c. byte c < 0x80) s then map ascii_lower s else unicode_lower s)"

end
