(* ===== verification/Body_Scan.thy ===== *)
theory Body_Scan
  imports Go_Strings
begin

text \<open>
  The request body scanner, \<open>internal/middleware/body_scan.go\<close>: a hand-written pass over
  the raw request that extracts \<open>model\<close>, \<open>stream\<close> and the position of \<open>stream_options\<close>
  without decoding the body. Positions are indexes into the body, as in the source; every
  read of a byte stands behind the source's own bounds check. The recursive part
  (\<open>skipJSONValue\<close>, \<open>skipJSONObject\<close>, \<open>skipJSONArray\<close>) is nested recursion: a loop goes on
  from the position another call returned. It is proved total here, from the fact that a
  successful call always moves forward.
\<close>

section \<open>Errors and the inspection record\<close>

datatype scan_error =
    BodyMustBeObject
  | TrailingContent
  | ExpectedObject
  | UnexpectedEndOfJSONObject
  | ExpectedColon
  | UnexpectedEndAfterColon
  | ModelMustBeString scan_error
  | StreamMustBeBoolean scan_error
  | MustBeArray bytes
  | ResponseFormatMustBeObject
  | StreamOptionsMustBeObject
  | UnexpectedEndAfterObjectValue
  | ExpectedCommaOrBrace
  | UnexpectedEndOfJSONValue
  | InvalidJSONValue
  | UnexpectedEndOfObject
  | ExpectedArray
  | UnexpectedEndOfArray
  | UnexpectedEndAfterArrayValue
  | ExpectedCommaOrBracket
  | ExpectedString
  | UnquoteSyntax
  | InvalidControlCharacter
  | UnterminatedString
  | ExpectedBoolean
  | UnexpectedEndOfLiteral
  | ExpectedLiteral bytes
  | InvalidNumber
  | InvalidFraction
  | InvalidExponent

record requestBodyInspection =
  Model :: bytes
  Stream :: bool
  HasStreamOptions :: bool
  StreamOptionsHasIncludeUsage :: bool
  StreamOptionsObjectStart :: int
  StreamOptionsObjectEnd :: int

text \<open>The zero value with both positions set to -1, as \<open>inspectRequestBody\<close> starts.\<close>

definition emptyInspection :: requestBodyInspection where
  "emptyInspection =
     \<lparr>Model = [], Stream = False, HasStreamOptions = False, StreamOptionsHasIncludeUsage = False,
      StreamOptionsObjectStart = -1, StreamOptionsObjectEnd = -1\<rparr>"

section \<open>Lexical scanners\<close>

definition isJSONDigit :: "char \<Rightarrow> bool" where
  "isJSONDigit b \<longleftrightarrow> 48 \<le> byte b \<and> byte b \<le> 57"

definition isJSONSpace :: "char \<Rightarrow> bool" where
  "isJSONSpace b \<longleftrightarrow> b = CHR '' '' \<or> b = CHR 0x09 \<or> b = CHR 0x0D \<or> b = CHR 0x0A"

function skipJSONWhitespace :: "bytes \<Rightarrow> nat \<Rightarrow> nat" where
  "skipJSONWhitespace body idx =
     (if idx < length body then
        (if isJSONSpace (body ! idx) then skipJSONWhitespace body (idx + 1) else idx)
      else idx)"
  by pat_completeness auto
termination
  by (relation "measure (\<lambda>(body, idx). length body - idx)") auto

declare skipJSONWhitespace.simps [simp del]

text \<open>The comparison loop of \<open>skipJSONLiteral\<close>.\<close>

fun literalAt :: "bytes \<Rightarrow> nat \<Rightarrow> bytes \<Rightarrow> bool" where
  "literalAt body idx [] = True"
| "literalAt body idx (c # cs) = (body ! idx = c \<and> literalAt body (idx + 1) cs)"

definition skipJSONLiteral :: "bytes \<Rightarrow> nat \<Rightarrow> bytes \<Rightarrow> (scan_error, nat) result" where
  "skipJSONLiteral body idx literal =
     (if idx + length literal > length body then Inl UnexpectedEndOfLiteral
      else if literalAt body idx literal then Inr (idx + length literal)
      else Inl (ExpectedLiteral literal))"

definition scanJSONBool :: "bytes \<Rightarrow> nat \<Rightarrow> (scan_error, bool \<times> nat) result" where
  "scanJSONBool body idx =
     (case skipJSONLiteral body idx ''true'' of
        Inr next \<Rightarrow> Inr (True, next)
      | Inl _ \<Rightarrow>
          (case skipJSONLiteral body idx ''false'' of
             Inr next \<Rightarrow> Inr (False, next)
           | Inl _ \<Rightarrow> Inl ExpectedBoolean))"

text \<open>The loop of \<open>scanJSONString\<close>; \<open>start\<close> is the position of the opening quote.\<close>

function scanStringLoop ::
  "bytes \<Rightarrow> nat \<Rightarrow> nat \<Rightarrow> bool \<Rightarrow> (scan_error, bytes \<times> nat) result" where
  "scanStringLoop body start idx hasEscape =
     (if idx < length body then
        (if body ! idx = CHR 0x22 then
           (if \<not> hasEscape then Inr (segment body (start + 1) idx, idx + 1)
            else (case unquote (segment body start (idx + 1)) of
                    None \<Rightarrow> Inl UnquoteSyntax
                  | Some unquoted \<Rightarrow> Inr (unquoted, idx + 1)))
         else if body ! idx = CHR 0x5C then scanStringLoop body start (idx + 2) True
         else if byte (body ! idx) < 0x20 then Inl InvalidControlCharacter
         else scanStringLoop body start (idx + 1) hasEscape)
      else Inl UnterminatedString)"
  by pat_completeness auto
termination
  by (relation "measure (\<lambda>(body, start, idx, e). length body - idx)") auto

declare scanStringLoop.simps [simp del]

definition scanJSONString :: "bytes \<Rightarrow> nat \<Rightarrow> (scan_error, bytes \<times> nat) result" where
  "scanJSONString body idx =
     (if idx \<ge> length body \<or> body ! idx \<noteq> CHR 0x22 then Inl ExpectedString
      else scanStringLoop body idx (idx + 1) False)"

text \<open>The digit loop that \<open>skipJSONNumber\<close> contains three times.\<close>

function skipDigits :: "bytes \<Rightarrow> nat \<Rightarrow> nat" where
  "skipDigits body idx =
     (if idx < length body \<and> isJSONDigit (body ! idx) then skipDigits body (idx + 1) else idx)"
  by pat_completeness auto
termination
  by (relation "measure (\<lambda>(body, idx). length body - idx)") auto

declare skipDigits.simps [simp del]

text \<open>The three parts of \<open>skipJSONNumber\<close>: integer part, fraction, exponent.\<close>

definition numberInteger :: "bytes \<Rightarrow> nat \<Rightarrow> (scan_error, nat) result" where
  "numberInteger body idx =
     (if body ! idx = CHR ''0'' then Inr (idx + 1)
      else if \<not> isJSONDigit (body ! idx) then Inl InvalidNumber
      else Inr (skipDigits body idx))"

definition numberFraction :: "bytes \<Rightarrow> nat \<Rightarrow> (scan_error, nat) result" where
  "numberFraction body idx =
     (if idx < length body \<and> body ! idx = CHR ''.'' then
        (if idx + 1 \<ge> length body \<or> \<not> isJSONDigit (body ! (idx + 1)) then Inl InvalidFraction
         else Inr (skipDigits body (idx + 1)))
      else Inr idx)"

definition numberExponent :: "bytes \<Rightarrow> nat \<Rightarrow> (scan_error, nat) result" where
  "numberExponent body idx =
     (if idx < length body \<and> (body ! idx = CHR ''e'' \<or> body ! idx = CHR ''E'') then
        (let i = (if idx + 1 < length body \<and> (body ! (idx + 1) = CHR ''+'' \<or> body ! (idx + 1) = CHR ''-'')
                  then idx + 2 else idx + 1)
         in if i \<ge> length body \<or> \<not> isJSONDigit (body ! i) then Inl InvalidExponent
            else Inr (skipDigits body i))
      else Inr idx)"

definition skipJSONNumber :: "bytes \<Rightarrow> nat \<Rightarrow> (scan_error, nat) result" where
  "skipJSONNumber body start =
     andThen
       (if body ! start = CHR ''-'' then
          (if start + 1 \<ge> length body then Inl InvalidNumber else Inr (start + 1))
        else Inr start)
       (\<lambda>idx. andThen (numberInteger body idx)
         (\<lambda>idx. andThen (numberFraction body idx)
           (\<lambda>idx. andThen (numberExponent body idx)
             (\<lambda>idx. if idx = start then Inl InvalidNumber else Inr idx))))"

section \<open>Lexical scanners move forward\<close>

text \<open>These facts come before the termination proof of the recursive scanners, which needs them.\<close>

lemma skipJSONWhitespace_ge: "idx \<le> skipJSONWhitespace body idx"
proof (induction body idx rule: skipJSONWhitespace.induct)
  case (1 body idx)
  then show ?case
    by (cases "idx < length body \<and> isJSONSpace (body ! idx)")
       (auto simp: skipJSONWhitespace.simps [of body idx])
qed

lemma skipJSONWhitespace_le: "idx \<le> length body \<Longrightarrow> skipJSONWhitespace body idx \<le> length body"
proof (induction body idx rule: skipJSONWhitespace.induct)
  case (1 body idx)
  then show ?case
    by (cases "idx < length body \<and> isJSONSpace (body ! idx)")
       (auto simp: skipJSONWhitespace.simps [of body idx])
qed

lemma skipDigits_bounds: "idx \<le> skipDigits body idx \<and> (idx \<le> length body \<longrightarrow> skipDigits body idx \<le> length body)"
proof (induction body idx rule: skipDigits.induct)
  case (1 body idx)
  then show ?case
    by (cases "idx < length body \<and> isJSONDigit (body ! idx)")
       (auto simp: skipDigits.simps [of body idx])
qed

lemmas skipDigits_ge = skipDigits_bounds [THEN conjunct1]
lemmas skipDigits_le = skipDigits_bounds [THEN conjunct2, rule_format]

lemma skipDigits_gt: "idx < length body \<Longrightarrow> isJSONDigit (body ! idx) \<Longrightarrow> idx < skipDigits body idx"
  using skipDigits_ge [of "idx + 1" body] by (simp add: skipDigits.simps [of body idx])

lemma scanStringLoop_progress:
  "scanStringLoop body start idx e = Inr (v, n) \<Longrightarrow> idx < n \<and> n \<le> length body"
proof (induction body start idx e rule: scanStringLoop.induct)
  case (1 body start idx e)
  from "1.prems" show ?case
    by (subst (asm) scanStringLoop.simps)
       (auto split: if_splits option.splits dest: "1.IH")
qed

lemma scanJSONString_progress:
  "scanJSONString body idx = Inr (v, n) \<Longrightarrow> idx + 1 < n \<and> n \<le> length body \<and> body ! idx = CHR 0x22"
  by (auto simp: scanJSONString_def split: if_splits dest: scanStringLoop_progress)

lemma skipJSONLiteral_progress:
  "skipJSONLiteral body idx lit = Inr n \<Longrightarrow> n = idx + length lit \<and> n \<le> length body"
  by (auto simp: skipJSONLiteral_def split: if_splits)

lemma scanJSONBool_progress: "scanJSONBool body idx = Inr (v, n) \<Longrightarrow> idx < n \<and> n \<le> length body"
  by (auto simp: scanJSONBool_def split: sum.splits dest!: skipJSONLiteral_progress)

lemma numberInteger_progress:
  "numberInteger body idx = Inr n \<Longrightarrow> idx < length body \<Longrightarrow> idx < n \<and> n \<le> length body"
  by (auto simp: numberInteger_def skipDigits_gt skipDigits_le split: if_splits)

lemma numberFraction_progress:
  "numberFraction body idx = Inr n \<Longrightarrow> idx \<le> length body \<Longrightarrow> idx \<le> n \<and> n \<le> length body"
  using skipDigits_ge [of "idx + 1" body]
  by (auto simp: numberFraction_def skipDigits_le split: if_splits)

lemma numberExponent_progress:
  "numberExponent body idx = Inr n \<Longrightarrow> idx \<le> length body \<Longrightarrow> idx \<le> n \<and> n \<le> length body"
  using skipDigits_ge [of "idx + 1" body] skipDigits_ge [of "idx + 2" body]
  by (auto simp: numberExponent_def skipDigits_le split: if_splits)

lemma skipJSONNumber_progress:
  assumes "skipJSONNumber body idx = Inr n" "idx < length body"
  shows "idx < n \<and> n \<le> length body"
proof -
  let ?i = "if body ! idx = CHR ''-'' then idx + 1 else idx"
  from assms obtain a b c where
    "numberInteger body ?i = Inr a" "numberFraction body a = Inr b" "numberExponent body b = Inr n"
    "?i < length body"
    by (auto simp: skipJSONNumber_def andThen_Inr_iff split: if_splits)
  then show ?thesis
    using numberInteger_progress [of body ?i a] numberFraction_progress [of body a b]
      numberExponent_progress [of body b n]
    by (auto split: if_splits)
qed

lemmas lexical_progress =
  skipJSONWhitespace_ge skipJSONWhitespace_le scanJSONString_progress
  skipJSONLiteral_progress skipJSONNumber_progress

section \<open>Values, objects, arrays\<close>

function (sequential)
      skipJSONValue :: "bytes \<Rightarrow> nat \<Rightarrow> (scan_error, nat) result"
  and skipJSONObject :: "bytes \<Rightarrow> nat \<Rightarrow> (scan_error, nat) result"
  and skipObjectLoop :: "bytes \<Rightarrow> nat \<Rightarrow> (scan_error, nat) result"
  and skipJSONArray :: "bytes \<Rightarrow> nat \<Rightarrow> (scan_error, nat) result"
  and skipArrayLoop :: "bytes \<Rightarrow> nat \<Rightarrow> (scan_error, nat) result"
where
  "skipJSONValue body idx0 =
     (let idx = skipJSONWhitespace body idx0 in
      if idx \<ge> length body then Inl UnexpectedEndOfJSONValue
      else if body ! idx = CHR ''{'' then skipJSONObject body idx
      else if body ! idx = CHR ''['' then skipJSONArray body idx
      else if body ! idx = CHR 0x22 then
        (case scanJSONString body idx of Inl e \<Rightarrow> Inl e | Inr (_, next) \<Rightarrow> Inr next)
      else if body ! idx = CHR ''t'' then skipJSONLiteral body idx ''true''
      else if body ! idx = CHR ''f'' then skipJSONLiteral body idx ''false''
      else if body ! idx = CHR ''n'' then skipJSONLiteral body idx ''null''
      else if body ! idx = CHR ''-'' \<or> isJSONDigit (body ! idx) then skipJSONNumber body idx
      else Inl InvalidJSONValue)"
| "skipJSONObject body idx =
     (if idx \<ge> length body \<or> body ! idx \<noteq> CHR ''{'' then Inl ExpectedObject
      else skipObjectLoop body (idx + 1))"
| "skipObjectLoop body idx0 =
     (let idx = skipJSONWhitespace body idx0 in
      if idx \<ge> length body then Inl UnexpectedEndOfObject
      else if body ! idx = CHR ''}'' then Inr (idx + 1)
      else (case scanJSONString body idx of
        Inl e \<Rightarrow> Inl e
      | Inr (_, next) \<Rightarrow>
          (let idx = skipJSONWhitespace body next in
           if idx \<ge> length body \<or> body ! idx \<noteq> CHR '':'' then Inl ExpectedColon
           else (case skipJSONValue body (skipJSONWhitespace body (idx + 1)) of
             Inl e \<Rightarrow> Inl e
           | Inr next \<Rightarrow>
               (let idx = skipJSONWhitespace body next in
                if idx \<ge> length body then Inl UnexpectedEndAfterObjectValue
                else if body ! idx = CHR '','' then skipObjectLoop body (idx + 1)
                else if body ! idx = CHR ''}'' then Inr (idx + 1)
                else Inl ExpectedCommaOrBrace)))))"
| "skipJSONArray body idx =
     (if idx \<ge> length body \<or> body ! idx \<noteq> CHR ''['' then Inl ExpectedArray
      else skipArrayLoop body (idx + 1))"
| "skipArrayLoop body idx0 =
     (let idx = skipJSONWhitespace body idx0 in
      if idx \<ge> length body then Inl UnexpectedEndOfArray
      else if body ! idx = CHR '']'' then Inr (idx + 1)
      else (case skipJSONValue body idx of
        Inl e \<Rightarrow> Inl e
      | Inr next \<Rightarrow>
          (let idx = skipJSONWhitespace body next in
           if idx \<ge> length body then Inl UnexpectedEndAfterArrayValue
           else if body ! idx = CHR '','' then skipArrayLoop body (idx + 1)
           else if body ! idx = CHR '']'' then Inr (idx + 1)
           else Inl ExpectedCommaOrBracket)))"
  by pat_completeness auto


text \<open>
  How a successful run of each loop starts. The equations are stated on the domain of the
  recursion, so that they serve the termination proof too.
\<close>

abbreviation skip_dom :: "(bytes \<times> nat + bytes \<times> nat) + bytes \<times> nat + bytes \<times> nat + bytes \<times> nat \<Rightarrow> bool" where
  "skip_dom \<equiv> skipJSONValue_skipJSONObject_skipObjectLoop_skipJSONArray_skipArrayLoop_dom"

lemma skipObjectLoop_step:
  assumes "skip_dom (Inr (Inl (body, idx)))"
  shows "skipObjectLoop body idx = Inr n \<longleftrightarrow>
    (let i = skipJSONWhitespace body idx in i < length body \<and>
     (body ! i = CHR ''}'' \<and> n = i + 1 \<or> body ! i \<noteq> CHR ''}'' \<and>
      (\<exists>key a b. scanJSONString body i = Inr (key, a) \<and>
        (let c = skipJSONWhitespace body a; d = skipJSONWhitespace body b in
         c < length body \<and> body ! c = CHR '':'' \<and>
         skipJSONValue body (skipJSONWhitespace body (c + 1)) = Inr b \<and>
         d < length body \<and>
         (body ! d = CHR '','' \<and> skipObjectLoop body (d + 1) = Inr n \<or>
          body ! d = CHR ''}'' \<and> n = d + 1)))))"
  by (auto simp: skipObjectLoop.psimps [OF assms] Let_def not_le split: if_splits sum.splits)

lemma skipArrayLoop_step:
  assumes "skip_dom (Inr (Inr (Inr (body, idx))))"
  shows "skipArrayLoop body idx = Inr n \<longleftrightarrow>
    (let i = skipJSONWhitespace body idx in i < length body \<and>
     (body ! i = CHR '']'' \<and> n = i + 1 \<or> body ! i \<noteq> CHR '']'' \<and>
      (\<exists>b. skipJSONValue body i = Inr b \<and>
        (let d = skipJSONWhitespace body b in
         d < length body \<and>
         (body ! d = CHR '','' \<and> skipArrayLoop body (d + 1) = Inr n \<or>
          body ! d = CHR '']'' \<and> n = d + 1)))))"
  by (auto simp: skipArrayLoop.psimps [OF assms] Let_def not_le split: if_splits sum.splits)

text \<open>The partial form of progress, on the calls for which the recursion is known to end.\<close>

abbreviation moves_forward :: "bytes \<Rightarrow> nat \<Rightarrow> (scan_error, nat) result \<Rightarrow> bool" where
  "moves_forward body idx r \<equiv> (\<forall>n. r = Inr n \<longrightarrow> idx < n \<and> n \<le> length body)"

lemma object_value_start:
  assumes "scanJSONString body (skipJSONWhitespace body idx) = Inr (key, a)"
  shows "idx < skipJSONWhitespace body (skipJSONWhitespace body a + 1)"
  using scanJSONString_progress [OF assms] skipJSONWhitespace_ge [of idx body]
    skipJSONWhitespace_ge [of a body] skipJSONWhitespace_ge [of "skipJSONWhitespace body a + 1" body]
  by simp

text \<open>The two loops: what the induction gives for the nested value and for the rest of the
  loop is enough.\<close>

lemma object_loop_forward:
  assumes dom: "skip_dom (Inr (Inl (body, idx)))"
    and val: "\<And>i x key a c. i = skipJSONWhitespace body idx \<Longrightarrow> \<not> length body \<le> i \<Longrightarrow>
      body ! i \<noteq> CHR ''}'' \<Longrightarrow> scanJSONString body i = Inr x \<Longrightarrow> (key, a) = x \<Longrightarrow>
      c = skipJSONWhitespace body a \<Longrightarrow> \<not> (length body \<le> c \<or> body ! c \<noteq> CHR '':'') \<Longrightarrow>
      moves_forward body (skipJSONWhitespace body (c + 1)) (skipJSONValue body (skipJSONWhitespace body (c + 1)))"
    and rest: "\<And>i x key a c b d. i = skipJSONWhitespace body idx \<Longrightarrow> \<not> length body \<le> i \<Longrightarrow>
      body ! i \<noteq> CHR ''}'' \<Longrightarrow> scanJSONString body i = Inr x \<Longrightarrow> (key, a) = x \<Longrightarrow>
      c = skipJSONWhitespace body a \<Longrightarrow> \<not> (length body \<le> c \<or> body ! c \<noteq> CHR '':'') \<Longrightarrow>
      skipJSONValue body (skipJSONWhitespace body (c + 1)) = Inr b \<Longrightarrow> d = skipJSONWhitespace body b \<Longrightarrow>
      \<not> length body \<le> d \<Longrightarrow> body ! d = CHR '','' \<Longrightarrow>
      moves_forward body (d + 1) (skipObjectLoop body (d + 1))"
  shows "moves_forward body idx (skipObjectLoop body idx)"
proof (intro allI impI)
  fix n assume run: "skipObjectLoop body idx = Inr n"
  show "idx < n \<and> n \<le> length body"
  proof (cases "body ! skipJSONWhitespace body idx = CHR ''}''")
    case True
    then show ?thesis
      using run skipJSONWhitespace_ge [of idx body] by (auto simp: skipObjectLoop_step [OF dom] Let_def)
  next
    case False
    with run obtain key a b where
      a: "scanJSONString body (skipJSONWhitespace body idx) = Inr (key, a)"
        "\<not> length body \<le> skipJSONWhitespace body idx"
      and c: "\<not> (length body \<le> skipJSONWhitespace body a \<or> body ! skipJSONWhitespace body a \<noteq> CHR '':'')"
      and b: "skipJSONValue body (skipJSONWhitespace body (skipJSONWhitespace body a + 1)) = Inr b"
      and d: "\<not> length body \<le> skipJSONWhitespace body b"
        "body ! skipJSONWhitespace body b = CHR '','' \<and> skipObjectLoop body (skipJSONWhitespace body b + 1) = Inr n
         \<or> n = skipJSONWhitespace body b + 1"
      unfolding skipObjectLoop_step [OF dom] Let_def by auto
    have "idx < b"
      using val [OF refl a(2) False a(1) refl refl c] b object_value_start [OF a(1)] by auto
    then have "idx < skipJSONWhitespace body b + 1"
      using skipJSONWhitespace_ge [of b body] by linarith
    with d rest [OF refl a(2) False a(1) refl refl c b refl d(1)] show ?thesis by force
  qed
qed

lemma array_loop_forward:
  assumes dom: "skip_dom (Inr (Inr (Inr (body, idx))))"
    and val: "\<And>i. i = skipJSONWhitespace body idx \<Longrightarrow> \<not> length body \<le> i \<Longrightarrow> body ! i \<noteq> CHR '']'' \<Longrightarrow>
      moves_forward body i (skipJSONValue body i)"
    and rest: "\<And>i b d. i = skipJSONWhitespace body idx \<Longrightarrow> \<not> length body \<le> i \<Longrightarrow> body ! i \<noteq> CHR '']'' \<Longrightarrow>
      skipJSONValue body i = Inr b \<Longrightarrow> d = skipJSONWhitespace body b \<Longrightarrow>
      \<not> length body \<le> d \<Longrightarrow> body ! d = CHR '','' \<Longrightarrow>
      moves_forward body (d + 1) (skipArrayLoop body (d + 1))"
  shows "moves_forward body idx (skipArrayLoop body idx)"
proof (intro allI impI)
  fix n assume run: "skipArrayLoop body idx = Inr n"
  show "idx < n \<and> n \<le> length body"
  proof (cases "body ! skipJSONWhitespace body idx = CHR '']''")
    case True
    then show ?thesis
      using run skipJSONWhitespace_ge [of idx body] by (auto simp: skipArrayLoop_step [OF dom] Let_def)
  next
    case False
    with run obtain b where
      i: "\<not> length body \<le> skipJSONWhitespace body idx"
      and b: "skipJSONValue body (skipJSONWhitespace body idx) = Inr b"
      and d: "\<not> length body \<le> skipJSONWhitespace body b"
        "body ! skipJSONWhitespace body b = CHR '','' \<and> skipArrayLoop body (skipJSONWhitespace body b + 1) = Inr n
         \<or> n = skipJSONWhitespace body b + 1"
      unfolding skipArrayLoop_step [OF dom] Let_def by auto
    have "idx < skipJSONWhitespace body b + 1"
      using val [OF refl i False] b skipJSONWhitespace_ge [of idx body] skipJSONWhitespace_ge [of b body]
      by auto
    with d rest [OF refl i False b refl d(1)] show ?thesis by force
  qed
qed

lemma skip_partial_progress:
  assumes "skip_dom (Inl (Inl (body, idx)))"
  shows "moves_forward body idx (skipJSONValue body idx)"
  using assms
proof (induct rule:
    skipJSONValue_skipJSONObject_skipObjectLoop_skipJSONArray_skipArrayLoop.pinduct(1)
      [where ?P1.0 = "\<lambda>b i. moves_forward b i (skipJSONValue b i)"
         and ?P2.0 = "\<lambda>b i. moves_forward b i (skipJSONObject b i)"
         and ?P3.0 = "\<lambda>b i. moves_forward b i (skipObjectLoop b i)"
         and ?P4.0 = "\<lambda>b i. moves_forward b i (skipJSONArray b i)"
         and ?P5.0 = "\<lambda>b i. moves_forward b i (skipArrayLoop b i)"])
  case (1 body idx)
  have "idx \<le> skipJSONWhitespace body idx" by (rule skipJSONWhitespace_ge)
  with 1 show ?case
    by (fastforce simp: skipJSONValue.psimps Let_def split: if_splits sum.splits
        dest: scanJSONString_progress skipJSONLiteral_progress skipJSONNumber_progress)
next
  case (2 body idx)
  then show ?case by (auto simp: skipJSONObject.psimps not_le dest!: spec Suc_lessD)
next
  case (3 body idx)
  then show ?case by (rule object_loop_forward)
next
  case (4 body idx)
  then show ?case by (auto simp: skipJSONArray.psimps not_le dest!: spec Suc_lessD)
next
  case (5 body idx)
  then show ?case by (rule array_loop_forward)
qed

lemma nested_call_bounds:
  assumes "skip_dom (Inl (Inl (body, i)))" and "skipJSONValue body i = Inr b" and "idx \<le> i"
  shows "idx < skipJSONWhitespace body b"
  using skip_partial_progress [OF assms(1)] assms(2,3) skipJSONWhitespace_ge [of b body] by auto

lemma skip_total_all: "All skip_dom"
proof (relation "measure (\<lambda>x. case x of
      Inl (Inl (body, idx)) \<Rightarrow> 3 * (length body - idx) + 2
    | Inl (Inr (body, idx)) \<Rightarrow> 3 * (length body - idx) + 1
    | Inr (Inl (body, idx)) \<Rightarrow> 3 * (length body - idx) + 3
    | Inr (Inr (Inl (body, idx))) \<Rightarrow> 3 * (length body - idx) + 1
    | Inr (Inr (Inr (body, idx))) \<Rightarrow> 3 * (length body - idx) + 3)", goal_cases)
  case (2 body idx x)
  then show ?case using skipJSONWhitespace_ge [of idx body] by auto
next
  case (3 body idx x)
  then show ?case using skipJSONWhitespace_ge [of idx body] by auto
next
  case (5 body idx x b key y xb)
  then show ?case using object_value_start [of body idx key y] by auto
next
  case (6 body idx x b key y xb ba xc)
  then have "idx < skipJSONWhitespace body ba"
    using nested_call_bounds [of body _ ba idx] object_value_start [of body idx key y] by fastforce
  with 6 show ?case by auto
next
  case (8 body idx x)
  then show ?case using skipJSONWhitespace_ge [of idx body] by auto
next
  case (9 body idx x b xa)
  then have "idx < skipJSONWhitespace body b"
    using nested_call_bounds [of body x b idx] skipJSONWhitespace_ge [of idx body] by auto
  with 9 show ?case by auto
qed auto

lemma skip_total: "skip_dom x"
  using skip_total_all by blast

termination skipJSONValue
  by (rule skip_total_all)

declare skipJSONValue.simps [simp del] skipJSONObject.simps [simp del] skipObjectLoop.simps [simp del]
  skipJSONArray.simps [simp del] skipArrayLoop.simps [simp del]

lemmas skip_induct =
  skipJSONValue_skipJSONObject_skipObjectLoop_skipJSONArray_skipArrayLoop.induct
lemmas skipObjectLoop_Inr = skipObjectLoop_step [OF skip_total]
lemmas skipArrayLoop_Inr = skipArrayLoop_step [OF skip_total]

lemma skipJSONValue_progress: "skipJSONValue body idx = Inr n \<Longrightarrow> idx < n \<and> n \<le> length body"
  using skip_partial_progress [OF skip_total] by auto

lemma loop_advances:
  assumes "scanJSONString body (skipJSONWhitespace body idx) = Inr (key, a)"
    and "skipJSONValue body (skipJSONWhitespace body (skipJSONWhitespace body a + 1)) = Inr b"
  shows "idx < skipJSONWhitespace body b"
  using object_value_start [OF assms(1)] skipJSONValue_progress [OF assms(2)]
    skipJSONWhitespace_ge [of b body] by linarith

lemma skipObjectLoop_progress: "skipObjectLoop body idx = Inr n \<Longrightarrow> idx < n \<and> n \<le> length body"
proof (induction "length body - idx" arbitrary: idx n rule: less_induct)
  case less
  have step: "moves_forward body (d + 1) (skipObjectLoop body (d + 1))"
    if "idx < d" "\<not> length body \<le> d" for d
    using less.hyps [of "d + 1"] that by auto
  have "moves_forward body idx (skipObjectLoop body idx)"
  proof (rule object_loop_forward [OF skip_total], goal_cases)
    case 1
    show ?case using skipJSONValue_progress by blast
  next
    case (2 i x key a c b d)
    then have "idx < d" using loop_advances [of body idx key a b] by simp
    with 2 show ?case using step by simp
  qed
  with less.prems show ?case by blast
qed

lemma skipArrayLoop_progress: "skipArrayLoop body idx = Inr n \<Longrightarrow> idx < n \<and> n \<le> length body"
proof (induction "length body - idx" arbitrary: idx n rule: less_induct)
  case less
  have step: "moves_forward body (d + 1) (skipArrayLoop body (d + 1))"
    if "idx \<le> d" "\<not> length body \<le> d" for d
    using less.hyps [of "d + 1"] that by auto
  have "moves_forward body idx (skipArrayLoop body idx)"
  proof (rule array_loop_forward [OF skip_total], goal_cases)
    case 1
    show ?case using skipJSONValue_progress by blast
  next
    case (2 i b d)
    then have "idx \<le> d"
      using skipJSONValue_progress [of body i b] skipJSONWhitespace_ge [of idx body]
        skipJSONWhitespace_ge [of b body] by simp
    with 2 show ?case using step by simp
  qed
  with less.prems show ?case by blast
qed

section \<open>Inspecting the request\<close>

text \<open>The loop of \<open>inspectObjectForKey\<close>.\<close>

function objectForKeyLoop ::
  "bytes \<Rightarrow> bytes \<Rightarrow> bool \<Rightarrow> nat \<Rightarrow> (scan_error, bool \<times> nat) result" where
  "objectForKeyLoop body targetKey found idx0 =
     (let idx = skipJSONWhitespace body idx0 in
      if idx \<ge> length body then Inl UnexpectedEndOfJSONObject
      else if body ! idx = CHR ''}'' then Inr (found, idx + 1)
      else (case scanJSONString body idx of
        Inl e \<Rightarrow> Inl e
      | Inr (key, next) \<Rightarrow>
          (let found = (if key = targetKey then True else found);
               idx = skipJSONWhitespace body next in
           if idx \<ge> length body \<or> body ! idx \<noteq> CHR '':'' then Inl ExpectedColon
           else (case skipJSONValue body (skipJSONWhitespace body (idx + 1)) of
             Inl e \<Rightarrow> Inl e
           | Inr next \<Rightarrow>
               (let idx = skipJSONWhitespace body next in
                if idx \<ge> length body then Inl UnexpectedEndAfterObjectValue
                else if body ! idx = CHR '','' then objectForKeyLoop body targetKey found (idx + 1)
                else if body ! idx = CHR ''}'' then Inr (found, idx + 1)
                else Inl ExpectedCommaOrBrace)))))"
  by pat_completeness auto

termination objectForKeyLoop
  by (relation "measure (\<lambda>(body, k, f, idx). length body - idx)")
     (use loop_advances in \<open>fastforce+\<close>)

declare objectForKeyLoop.simps [simp del]

definition inspectObjectForKey ::
  "bytes \<Rightarrow> nat \<Rightarrow> bytes \<Rightarrow> (scan_error, bool \<times> nat) result" where
  "inspectObjectForKey body idx targetKey =
     (if idx \<ge> length body \<or> body ! idx \<noteq> CHR ''{'' then Inl ExpectedObject
      else objectForKeyLoop body targetKey False (idx + 1))"

text \<open>The \<open>switch key\<close> of \<open>inspectTopLevelObject\<close>: the field's value starts at \<open>idx\<close>, which is in
  range; the result is the updated inspection and the position after the value.\<close>

definition inspectField ::
  "bytes \<Rightarrow> nat \<Rightarrow> bytes \<Rightarrow> requestBodyInspection \<Rightarrow> (scan_error, requestBodyInspection \<times> nat) result" where
  "inspectField body idx key info =
     (if key = ''model'' then
        (case scanJSONString body idx of
           Inl e \<Rightarrow> Inl (ModelMustBeString e)
         | Inr (model, next) \<Rightarrow> Inr (info\<lparr>Model := trimSpace model\<rparr>, next))
      else if key = ''stream'' then
        (case scanJSONBool body idx of
           Inl e \<Rightarrow> Inl (StreamMustBeBoolean e)
         | Inr (stream, next) \<Rightarrow> Inr (info\<lparr>Stream := stream\<rparr>, next))
      else if key = ''messages'' \<or> key = ''tools'' then
        (if body ! idx \<noteq> CHR ''['' then Inl (MustBeArray key)
         else (case skipJSONValue body idx of Inl e \<Rightarrow> Inl e | Inr next \<Rightarrow> Inr (info, next)))
      else if key = ''response_format'' then
        (if body ! idx \<noteq> CHR ''{'' then Inl ResponseFormatMustBeObject
         else (case skipJSONValue body idx of Inl e \<Rightarrow> Inl e | Inr next \<Rightarrow> Inr (info, next)))
      else if key = ''stream_options'' then
        (if body ! idx \<noteq> CHR ''{'' then Inl StreamOptionsMustBeObject
         else (case inspectObjectForKey body idx ''include_usage'' of
                 Inl e \<Rightarrow> Inl e
               | Inr (foundIncludeUsage, next) \<Rightarrow>
                   Inr (info\<lparr>HasStreamOptions := True, StreamOptionsObjectStart := int idx,
                             StreamOptionsHasIncludeUsage := foundIncludeUsage,
                             StreamOptionsObjectEnd := int next\<rparr>, next)))
      else (case skipJSONValue body idx of Inl e \<Rightarrow> Inl e | Inr next \<Rightarrow> Inr (info, next)))"

lemma objectForKeyLoop_Inr:
  "objectForKeyLoop body k f idx = Inr (g, n) \<longleftrightarrow>
    (let i = skipJSONWhitespace body idx in i < length body \<and>
     (body ! i = CHR ''}'' \<and> g = f \<and> n = i + 1 \<or> body ! i \<noteq> CHR ''}'' \<and>
      (\<exists>key a b. scanJSONString body i = Inr (key, a) \<and>
        (let c = skipJSONWhitespace body a; d = skipJSONWhitespace body b; f' = (key = k \<or> f) in
         c < length body \<and> body ! c = CHR '':'' \<and>
         skipJSONValue body (skipJSONWhitespace body (c + 1)) = Inr b \<and>
         d < length body \<and>
         (body ! d = CHR '','' \<and> objectForKeyLoop body k f' (d + 1) = Inr (g, n) \<or>
          body ! d = CHR ''}'' \<and> g = f' \<and> n = d + 1)))))"
  by (subst objectForKeyLoop.simps)
     (auto simp: Let_def not_le split: if_splits sum.splits)

text \<open>Looking for a key accepts exactly the objects that skipping accepts, with the same end.\<close>

lemma objectForKeyLoop_skips:
  "objectForKeyLoop body k f idx = Inr (g, n) \<Longrightarrow> skipObjectLoop body idx = Inr n"
proof (induction "length body - idx" arbitrary: f idx rule: less_induct)
  case less
  let ?i = "skipJSONWhitespace body idx"
  show ?case
  proof (cases "body ! ?i = CHR ''}''")
    case True
    with less.prems show ?thesis
      by (simp add: objectForKeyLoop_Inr [of body k f idx] skipObjectLoop_Inr [of body idx] Let_def)
  next
    case False
    with less.prems obtain key a b where i: "?i < length body" "scanJSONString body ?i = Inr (key, a)"
      and c: "skipJSONWhitespace body a < length body" "body ! skipJSONWhitespace body a = CHR '':''"
      and b: "skipJSONValue body (skipJSONWhitespace body (skipJSONWhitespace body a + 1)) = Inr b"
      and d: "skipJSONWhitespace body b < length body"
      and rest: "body ! skipJSONWhitespace body b = CHR '','' \<and>
          objectForKeyLoop body k (key = k \<or> f) (skipJSONWhitespace body b + 1) = Inr (g, n) \<or>
         body ! skipJSONWhitespace body b = CHR ''}'' \<and> n = skipJSONWhitespace body b + 1"
      by (auto simp: objectForKeyLoop_Inr [of body k f idx] Let_def)
    have "length body - (skipJSONWhitespace body b + 1) < length body - idx"
      using loop_advances [OF i(2) b] d by linarith
    with rest less.hyps have "body ! skipJSONWhitespace body b = CHR '','' \<and>
          skipObjectLoop body (skipJSONWhitespace body b + 1) = Inr n \<or>
         body ! skipJSONWhitespace body b = CHR ''}'' \<and> n = skipJSONWhitespace body b + 1"
      by blast
    with False i b c d show ?thesis
      unfolding skipObjectLoop_Inr [of body idx] Let_def by blast
  qed
qed

lemma objectForKeyLoop_progress:
  "objectForKeyLoop body k f idx = Inr (g, n) \<Longrightarrow> idx < n \<and> n \<le> length body"
  by (blast dest: objectForKeyLoop_skips skipObjectLoop_progress)

lemma inspectField_progress:
  "inspectField body idx key info = Inr (info', n) \<Longrightarrow> idx < n \<and> n \<le> length body"
  by (auto simp: inspectField_def inspectObjectForKey_def split: if_splits sum.splits
      dest!: scanJSONString_progress scanJSONBool_progress skipJSONValue_progress objectForKeyLoop_progress)

text \<open>The loop of \<open>inspectTopLevelObject\<close>.\<close>

function topLevelLoop ::
  "bytes \<Rightarrow> requestBodyInspection \<Rightarrow> nat \<Rightarrow> (scan_error, requestBodyInspection \<times> nat) result" where
  "topLevelLoop body info idx0 =
     (let idx = skipJSONWhitespace body idx0 in
      if idx \<ge> length body then Inl UnexpectedEndOfJSONObject
      else if body ! idx = CHR ''}'' then Inr (info, idx + 1)
      else (case scanJSONString body idx of
        Inl e \<Rightarrow> Inl e
      | Inr (key, next) \<Rightarrow>
          (let idx = skipJSONWhitespace body next in
           if idx \<ge> length body \<or> body ! idx \<noteq> CHR '':'' then Inl ExpectedColon
           else (let idx = skipJSONWhitespace body (idx + 1) in
             if idx \<ge> length body then Inl UnexpectedEndAfterColon
             else (case inspectField body idx key info of
               Inl e \<Rightarrow> Inl e
             | Inr (info', next) \<Rightarrow>
                 (let idx = skipJSONWhitespace body next in
                  if idx \<ge> length body then Inl UnexpectedEndAfterObjectValue
                  else if body ! idx = CHR '','' then topLevelLoop body info' (idx + 1)
                  else if body ! idx = CHR ''}'' then Inr (info', idx + 1)
                  else Inl ExpectedCommaOrBrace))))))"
  by pat_completeness auto

lemma top_loop_advances:
  assumes "scanJSONString body (skipJSONWhitespace body idx) = Inr (key, a)"
    and "inspectField body (skipJSONWhitespace body (skipJSONWhitespace body a + 1)) key info = Inr (info', b)"
  shows "idx < skipJSONWhitespace body b"
  using object_value_start [OF assms(1)] inspectField_progress [OF assms(2)]
    skipJSONWhitespace_ge [of b body] by linarith

termination topLevelLoop
  by (relation "measure (\<lambda>(body, info, idx). length body - idx)")
     (use top_loop_advances in \<open>fastforce+\<close>)

declare topLevelLoop.simps [simp del]

definition inspectTopLevelObject ::
  "bytes \<Rightarrow> nat \<Rightarrow> requestBodyInspection \<Rightarrow> (scan_error, requestBodyInspection \<times> nat) result" where
  "inspectTopLevelObject body idx info =
     (if idx \<ge> length body \<or> body ! idx \<noteq> CHR ''{'' then Inl ExpectedObject
      else topLevelLoop body info (idx + 1))"

definition inspectRequestBody :: "bytes \<Rightarrow> (scan_error, requestBodyInspection) result" where
  "inspectRequestBody body =
     (let idx = skipJSONWhitespace body 0 in
      if idx \<ge> length body \<or> body ! idx \<noteq> CHR ''{'' then Inl BodyMustBeObject
      else (case inspectTopLevelObject body idx emptyInspection of
        Inl e \<Rightarrow> Inl e
      | Inr (info, end') \<Rightarrow>
          if skipJSONWhitespace body end' \<noteq> length body then Inl TrailingContent
          else Inr info))"

end
