(* ===== verification/Body_Grammar.thy ===== *)
theory Body_Grammar
  imports Body_Scan
begin

text \<open>
  What the request body scanner accepts, stated without positions: a grammar of byte
  lists. The scanner is sound for it (whatever it skips is a word of the grammar) and
  complete (every word of the grammar is skipped, wherever it stands in a body), so the
  result of a scan depends only on the text scanned. The grammar is that of JSON with two
  deviations, both kept from the code: a comma may stand before the closing bracket of an
  object or array, and string escapes are those of \<open>strconv.Unquote\<close>.
\<close>

section \<open>White space\<close>

definition json_ws :: "bytes \<Rightarrow> bool" where
  "json_ws w \<longleftrightarrow> list_all isJSONSpace w"

definition no_space_ahead :: "bytes \<Rightarrow> bool" where
  "no_space_ahead r \<longleftrightarrow> r = [] \<or> \<not> isJSONSpace (hd r)"

lemma nth_after: "r \<noteq> [] \<Longrightarrow> (p @ r) ! length p = hd r"
  by (simp add: hd_conv_nth nth_append)

lemma skipJSONWhitespace_complete:
  "json_ws w \<Longrightarrow> no_space_ahead r \<Longrightarrow> skipJSONWhitespace (p @ w @ r) (length p) = length p + length w"
proof (induction w arbitrary: p)
  case Nil
  then show ?case
    by (cases r) (auto simp: skipJSONWhitespace.simps no_space_ahead_def nth_append)
next
  case (Cons c w)
  have "skipJSONWhitespace ((p @ [c]) @ w @ r) (length (p @ [c])) = length (p @ [c]) + length w"
    by (rule Cons.IH) (use Cons.prems in \<open>simp_all add: json_ws_def\<close>)
  with Cons.prems show ?case
    by (simp add: skipJSONWhitespace.simps [of _ "length p"] json_ws_def nth_append)
qed

lemma skipJSONWhitespace_sound:
  assumes "idx \<le> length body"
  shows "json_ws (segment body idx (skipJSONWhitespace body idx)) \<and>
    (skipJSONWhitespace body idx < length body \<longrightarrow> \<not> isJSONSpace (body ! skipJSONWhitespace body idx))"
  using assms
proof (induction body idx rule: skipJSONWhitespace.induct)
  case (1 body idx)
  show ?case
  proof (cases "idx < length body \<and> isJSONSpace (body ! idx)")
    case True
    then have "skipJSONWhitespace body idx = skipJSONWhitespace body (idx + 1)"
      by (simp add: skipJSONWhitespace.simps [of body idx])
    with True 1 show ?thesis
      using skipJSONWhitespace_ge [of "idx + 1" body]
      by (simp add: segment_Cons json_ws_def)
  next
    case False
    then have "skipJSONWhitespace body idx = idx"
      by (auto simp: skipJSONWhitespace.simps [of body idx])
    with False show ?thesis by (simp add: json_ws_def)
  qed
qed

lemma skipJSONWhitespace_idem [simp]:
  "skipJSONWhitespace body (skipJSONWhitespace body idx) = skipJSONWhitespace body idx"
proof (induction body idx rule: skipJSONWhitespace.induct)
  case (1 body idx)
  then show ?case
    by (cases "idx < length body \<and> isJSONSpace (body ! idx)")
       (auto simp: skipJSONWhitespace.simps [of body idx])
qed

lemma skipJSONWhitespace_here:
  "r \<noteq> [] \<Longrightarrow> \<not> isJSONSpace (hd r) \<Longrightarrow> skipJSONWhitespace (p @ r) (length p) = length p"
  using skipJSONWhitespace_complete [of "[]" r p] by (simp add: json_ws_def no_space_ahead_def)

section \<open>Strings\<close>

text \<open>The text between the quotes: no bare quote or control character; a backslash takes the
  next byte with it.\<close>

fun string_chars :: "bytes \<Rightarrow> bool" where
  "string_chars [] = True"
| "string_chars (c # cs) =
     (if c = CHR 0x5C then (case cs of [] \<Rightarrow> False | _ # cs' \<Rightarrow> string_chars cs')
      else c \<noteq> CHR 0x22 \<and> 0x20 \<le> byte c \<and> string_chars cs)"

definition string_token :: "bytes \<Rightarrow> bytes \<Rightarrow> bool" where
  "string_token s v \<longleftrightarrow>
     (\<exists>cs. s = CHR 0x22 # cs @ [CHR 0x22] \<and> string_chars cs \<and>
       (if CHR 0x5C \<in> set cs then unquote s = Some v else v = cs))"

lemma string_token_shape:
  "string_token s v \<Longrightarrow> s \<noteq> [] \<and> hd s = CHR 0x22 \<and> 2 \<le> length s"
  by (auto simp: string_token_def)

text \<open>What the string loop does from \<open>idx\<close> on, for any text \<open>done\<close> it has already passed.\<close>

lemma scanStringLoop_complete:
  assumes "string_chars cs"
  shows "scanStringLoop (p @ CHR 0x22 # seen @ cs @ CHR 0x22 # r) (length p) (length p + 1 + length seen) e =
    (if \<not> (e \<or> CHR 0x5C \<in> set cs) then Inr (seen @ cs, length p + 2 + length seen + length cs)
     else case unquote (CHR 0x22 # seen @ cs @ [CHR 0x22]) of
        None \<Rightarrow> Inl UnquoteSyntax
      | Some v \<Rightarrow> Inr (v, length p + 2 + length seen + length cs))"
  using assms
proof (induction cs arbitrary: seen e rule: string_chars.induct)
  case 1
  have "segment (p @ CHR 0x22 # seen @ CHR 0x22 # r) (length p + 1) (length p + 1 + length seen) = seen"
    using segment_middle [of "p @ [CHR 0x22]" seen "CHR 0x22 # r"] by simp
  moreover have "segment (p @ CHR 0x22 # seen @ CHR 0x22 # r) (length p) (length p + 2 + length seen) = CHR 0x22 # seen @ [CHR 0x22]"
    using segment_middle [of p "CHR 0x22 # seen @ [CHR 0x22]" r] by simp
  ultimately show ?case
    by (simp add: scanStringLoop.simps [of _ _ "Suc (length p + length seen)"] nth_append split: option.split)
next
  case (2 c cs)
  let ?body = "\<lambda>cs. p @ CHR 0x22 # seen @ cs @ CHR 0x22 # r"
  show ?case
  proof (cases "c = CHR 0x5C")
    case True
    with "2.prems" obtain d cs' where cs: "cs = d # cs'" and ok: "string_chars cs'"
      by (auto split: list.splits)
    have "scanStringLoop (?body (c # cs)) (length p) (length p + 1 + length seen) e =
        scanStringLoop (?body (c # cs)) (length p) (length p + 1 + length (seen @ [c, d])) True"
      using True by (simp add: scanStringLoop.simps [of _ _ "Suc (length p + length seen)"] nth_append cs)
    then show ?thesis
      using "2.IH"(1) [OF True cs ok, of "seen @ [c, d]" True] True by (simp add: cs split: option.split)
  next
    case False
    with "2.prems" have c: "c \<noteq> CHR 0x22" "0x20 \<le> byte c" "string_chars cs" by auto
    have "scanStringLoop (?body (c # cs)) (length p) (length p + 1 + length seen) e =
        scanStringLoop (?body (c # cs)) (length p) (length p + 1 + length (seen @ [c])) e"
      using False c by (simp add: scanStringLoop.simps [of _ _ "Suc (length p + length seen)"] nth_append)
    then show ?thesis
      using "2.IH"(2) [OF False c(3), of "seen @ [c]" e] False by (simp split: option.split)
  qed
qed

lemma scanJSONString_complete:
  assumes "string_token s v"
  shows "scanJSONString (p @ s @ r) (length p) = Inr (v, length p + length s)"
proof -
  from assms obtain cs where s: "s = CHR 0x22 # cs @ [CHR 0x22]" and cs: "string_chars cs"
    and v: "if CHR 0x5C \<in> set cs then unquote s = Some v else v = cs"
    by (auto simp: string_token_def)
  show ?thesis
    using scanStringLoop_complete [OF cs, of p "[]" r False] v
    by (auto simp: scanJSONString_def s nth_append split: if_splits)
qed

text \<open>Conversely, a successful run has passed a token.\<close>

lemma scanStringLoop_sound:
  assumes "scanStringLoop body start idx e = Inr (v, n)" and "start < idx"
  shows "\<exists>cs. segment body idx n = cs @ [CHR 0x22] \<and> string_chars cs \<and>
    (if e \<or> CHR 0x5C \<in> set cs then unquote (segment body start n) = Some v else v = segment body (start + 1) (n - 1))"
  using assms
proof (induction body start idx e rule: scanStringLoop.induct)
  case (1 body start idx e)
  have n: "idx < n" "n \<le> length body" using scanStringLoop_progress [OF "1.prems"(1)] by auto
  then have i: "idx < length body" by simp
  consider (quote) "body ! idx = CHR 0x22" | (escape) "body ! idx = CHR 0x5C"
    | (plain) "body ! idx \<noteq> CHR 0x22" "body ! idx \<noteq> CHR 0x5C" by blast
  then show ?case
  proof cases
    case quote
    with "1.prems"(1) i have "n = idx + 1" "if e then unquote (segment body start n) = Some v else v = segment body (start + 1) idx"
      by (auto simp: scanStringLoop.simps [of body start idx e] split: if_splits option.splits)
    with quote i show ?thesis by (intro exI [of _ "[]"]) (auto simp: segment_single)
  next
    case escape
    with "1.prems"(1) i have run: "scanStringLoop body start (idx + 2) True = Inr (v, n)"
      by (simp add: scanStringLoop.simps [of body start idx e])
    then obtain cs where cs: "segment body (idx + 2) n = cs @ [CHR 0x22]" "string_chars cs"
      "unquote (segment body start n) = Some v"
      using "1.IH"(1) [OF i] escape "1.prems"(2) by auto
    have "idx + 2 < n" using scanStringLoop_progress [OF run] by simp
    then have "segment body idx n = body ! idx # body ! (idx + 1) # segment body (idx + 2) n"
      using n by (simp add: segment_Cons)
    with cs escape show ?thesis
      by (intro exI [of _ "body ! idx # body ! (idx + 1) # cs"]) auto
  next
    case plain
    with "1.prems"(1) i have run: "scanStringLoop body start (idx + 1) e = Inr (v, n)"
      and ctl: "\<not> byte (body ! idx) < 0x20"
      by (auto simp: scanStringLoop.simps [of body start idx e] split: if_splits)
    then obtain cs where cs: "segment body (idx + 1) n = cs @ [CHR 0x22]" "string_chars cs"
      "if e \<or> CHR 0x5C \<in> set cs then unquote (segment body start n) = Some v else v = segment body (start + 1) (n - 1)"
      using "1.IH"(2) [OF i] plain "1.prems"(2) by auto
    have "segment body idx n = body ! idx # segment body (idx + 1) n"
      using n by (simp add: segment_Cons)
    with cs plain ctl show ?thesis
      by (intro exI [of _ "body ! idx # cs"]) auto
  qed
qed

lemma scanJSONString_sound:
  assumes "scanJSONString body idx = Inr (v, n)"
  shows "string_token (segment body idx n) v"
proof -
  have n: "idx + 1 < n" "n \<le> length body" "body ! idx = CHR 0x22"
    using scanJSONString_progress [OF assms] by auto
  from assms have "scanStringLoop body idx (idx + 1) False = Inr (v, n)"
    by (auto simp: scanJSONString_def split: if_splits)
  from scanStringLoop_sound [OF this] obtain cs where
    cs: "segment body (idx + 1) n = cs @ [CHR 0x22]" "string_chars cs"
      "if CHR 0x5C \<in> set cs then unquote (segment body idx n) = Some v else v = segment body (idx + 1) (n - 1)"
    by auto
  have "segment body (idx + 1) (n - 1) @ [body ! (n - 1)] = cs @ [CHR 0x22]"
    using cs(1) n segment_append [of "idx + 1" "n - 1" n body] segment_single [of "n - 1" body] by simp
  then have "cs = segment body (idx + 1) (n - 1)" by simp
  moreover have "segment body idx n = CHR 0x22 # cs @ [CHR 0x22]"
    using n cs(1) by (simp add: segment_Cons)
  ultimately show ?thesis using cs unfolding string_token_def by auto
qed

section \<open>Literals and numbers\<close>

lemma literalAt_iff:
  "idx + length lit \<le> length body \<Longrightarrow> literalAt body idx lit \<longleftrightarrow> segment body idx (idx + length lit) = lit"
proof (induction lit arbitrary: idx)
  case (Cons c lit)
  then show ?case
    using Cons.IH [of "idx + 1"] by (simp add: segment_Cons)
qed simp

lemma skipJSONLiteral_iff:
  "skipJSONLiteral body idx lit = Inr n \<longleftrightarrow>
     n = idx + length lit \<and> n \<le> length body \<and> segment body idx n = lit"
  by (auto simp: skipJSONLiteral_def literalAt_iff split: if_splits)

lemma skipJSONLiteral_complete:
  "skipJSONLiteral (p @ lit @ r) (length p) lit = Inr (length p + length lit)"
  by (simp add: skipJSONLiteral_iff segment_middle)

definition json_digits :: "bytes \<Rightarrow> bool" where
  "json_digits ds \<longleftrightarrow> ds \<noteq> [] \<and> list_all isJSONDigit ds"

definition json_int :: "bytes \<Rightarrow> bool" where
  "json_int i \<longleftrightarrow> i = ''0'' \<or> (json_digits i \<and> hd i \<noteq> CHR ''0'')"

definition json_frac :: "bytes \<Rightarrow> bool" where
  "json_frac f \<longleftrightarrow> f = [] \<or> (\<exists>ds. f = CHR ''.'' # ds \<and> json_digits ds)"

definition json_exp :: "bytes \<Rightarrow> bool" where
  "json_exp x \<longleftrightarrow> x = [] \<or>
     (\<exists>c s ds. x = c # s @ ds \<and> (c = CHR ''e'' \<or> c = CHR ''E'') \<and>
        (s = [] \<or> s = ''+'' \<or> s = ''-'') \<and> json_digits ds)"

definition json_number :: "bytes \<Rightarrow> bool" where
  "json_number t \<longleftrightarrow> (\<exists>s i f x. t = s @ i @ f @ x \<and> (s = [] \<or> s = ''-'') \<and>
     json_int i \<and> json_frac f \<and> json_exp x)"

text \<open>Bytes that could continue a number; a value is only known to be over before others.\<close>

definition value_end :: "bytes \<Rightarrow> bool" where
  "value_end r \<longleftrightarrow> r = [] \<or> \<not> isJSONDigit (hd r) \<and> hd r \<notin> {CHR ''.'', CHR ''e'', CHR ''E''}"

lemma skipDigits_complete:
  "list_all isJSONDigit ds \<Longrightarrow> r = [] \<or> \<not> isJSONDigit (hd r) \<Longrightarrow>
     skipDigits (p @ ds @ r) (length p) = length p + length ds"
proof (induction ds arbitrary: p)
  case Nil
  then show ?case by (cases r) (auto simp: skipDigits.simps nth_append)
next
  case (Cons c ds)
  have "skipDigits ((p @ [c]) @ ds @ r) (length (p @ [c])) = length (p @ [c]) + length ds"
    by (rule Cons.IH) (use Cons.prems in simp_all)
  with Cons.prems show ?case
    by (simp add: skipDigits.simps [of _ "length p"] nth_append)
qed

lemma skipDigits_sound:
  "list_all isJSONDigit (segment body idx (skipDigits body idx)) \<and>
   (skipDigits body idx < length body \<longrightarrow> \<not> isJSONDigit (body ! skipDigits body idx))"
proof (induction body idx rule: skipDigits.induct)
  case (1 body idx)
  show ?case
  proof (cases "idx < length body \<and> isJSONDigit (body ! idx)")
    case True
    then have "skipDigits body idx = skipDigits body (idx + 1)"
      by (simp add: skipDigits.simps [of body idx])
    with True 1 show ?thesis
      using skipDigits_ge [of "idx + 1" body] by (simp add: segment_Cons)
  next
    case False
    then have "skipDigits body idx = idx" by (auto simp: skipDigits.simps [of body idx])
    with False show ?thesis by simp
  qed
qed

lemma skipDigits_token:
  "idx < length body \<Longrightarrow> isJSONDigit (body ! idx) \<Longrightarrow> json_digits (segment body idx (skipDigits body idx))"
  using skipDigits_sound [of body idx] skipDigits_gt [of idx body]
  by (auto simp: json_digits_def segment_Cons)

lemma digit_not_special:
  "isJSONDigit c \<Longrightarrow> c \<noteq> CHR ''-'' \<and> c \<noteq> CHR ''+'' \<and> c \<noteq> CHR ''.'' \<and> c \<noteq> CHR ''e'' \<and> c \<noteq> CHR ''E''"
  by (auto simp: isJSONDigit_def)

lemma numberInteger_sound:
  "numberInteger body idx = Inr n \<Longrightarrow> idx < length body \<Longrightarrow> json_int (segment body idx n)"
  using skipDigits_token [of idx body] skipDigits_gt [of idx body]
  by (auto simp: numberInteger_def json_int_def segment_single segment_Cons split: if_splits)

lemma numberFraction_sound:
  "numberFraction body idx = Inr n \<Longrightarrow> json_frac (segment body idx n)"
  using skipDigits_token [of "idx + 1" body] skipDigits_gt [of "idx + 1" body]
  by (auto simp: numberFraction_def json_frac_def segment_Cons split: if_splits)

lemma numberExponent_sound:
  assumes "numberExponent body idx = Inr n"
  shows "json_exp (segment body idx n)"
proof (cases "idx < length body \<and> (body ! idx = CHR ''e'' \<or> body ! idx = CHR ''E'')")
  case False
  with assms have "n = idx" by (auto simp: numberExponent_def)
  then show ?thesis by (simp add: json_exp_def)
next
  case True
  let ?i = "if idx + 1 < length body \<and> (body ! (idx + 1) = CHR ''+'' \<or> body ! (idx + 1) = CHR ''-'')
            then idx + 2 else idx + 1"
  from assms True have i: "?i < length body" "isJSONDigit (body ! ?i)" "n = skipDigits body ?i"
    by (auto simp: numberExponent_def Let_def split: if_splits)
  have d: "json_digits (segment body ?i n)" "?i < n"
    using skipDigits_token [OF i(1,2)] skipDigits_gt [OF i(1,2)] i(3) by auto
  have "segment body idx n = body ! idx # segment body (idx + 1) ?i @ segment body ?i n"
    using True d i skipDigits_le [of ?i body] segment_append [of "idx + 1" ?i n body]
    by (auto simp: segment_Cons split: if_splits)
  moreover have "segment body (idx + 1) ?i \<in> {[], ''+'', ''-''}"
    by (auto simp: segment_single)
  ultimately show ?thesis
    using True d unfolding json_exp_def by blast
qed

lemma skipJSONNumber_sound:
  assumes "skipJSONNumber body idx = Inr n" and "idx < length body"
  shows "json_number (segment body idx n)"
proof -
  let ?i = "if body ! idx = CHR ''-'' then idx + 1 else idx"
  from assms obtain a b where
    run: "numberInteger body ?i = Inr a" "numberFraction body a = Inr b" "numberExponent body b = Inr n"
    and i: "?i < length body"
    by (auto simp: skipJSONNumber_def andThen_Inr_iff split: if_splits)
  have ord: "?i < a" "a \<le> b" "b \<le> n" "n \<le> length body"
    using numberInteger_progress [OF run(1) i] numberFraction_progress [OF run(2)]
      numberExponent_progress [OF run(3)] by auto
  have "segment body idx n = segment body idx ?i @ segment body ?i a @ segment body a b @ segment body b n"
    using ord segment_append [of a b n body] segment_append [of ?i a n body] segment_append [of idx ?i n body]
    by (auto simp del: segment_append split: if_splits)
  moreover have "segment body idx ?i = [] \<or> segment body idx ?i = ''-''"
    using assms(2) by (auto simp: segment_single)
  ultimately show ?thesis
    using numberInteger_sound [OF run(1) i] numberFraction_sound [OF run(2)] numberExponent_sound [OF run(3)]
    unfolding json_number_def by metis
qed

lemma numberInteger_complete:
  assumes "json_int i" "r = [] \<or> \<not> isJSONDigit (hd r)"
  shows "numberInteger (p @ i @ r) (length p) = Inr (length p + length i)"
proof (cases "i = ''0''")
  case True
  then show ?thesis by (simp add: numberInteger_def nth_append)
next
  case False
  with assms have i: "json_digits i" "hd i \<noteq> CHR ''0''" by (auto simp: json_int_def)
  then have "(p @ i @ r) ! length p = hd i" "isJSONDigit (hd i)"
    by (cases i; auto simp: json_digits_def nth_append)+
  with i show ?thesis
    using skipDigits_complete [of i r p] assms(2) by (simp add: numberInteger_def json_digits_def)
qed

lemma numberFraction_complete:
  assumes "json_frac f" "r = [] \<or> \<not> isJSONDigit (hd r) \<and> hd r \<noteq> CHR ''.''"
  shows "numberFraction (p @ f @ r) (length p) = Inr (length p + length f)"
proof (cases f)
  case Nil
  with assms show ?thesis by (cases r) (auto simp: numberFraction_def nth_append)
next
  case (Cons c ds)
  with assms have ds: "c = CHR ''.''" "json_digits ds" by (auto simp: json_frac_def)
  then obtain d ds' where d: "ds = d # ds'" "isJSONDigit d"
    by (cases ds) (auto simp: json_digits_def)
  have "skipDigits ((p @ [c]) @ ds @ r) (length (p @ [c])) = length (p @ [c]) + length ds"
    by (rule skipDigits_complete) (use ds assms(2) in \<open>auto simp: json_digits_def\<close>)
  with Cons ds d show ?thesis
    by (simp add: numberFraction_def nth_append)
qed

lemma numberExponent_complete:
  assumes "json_exp x" "value_end r"
  shows "numberExponent (p @ x @ r) (length p) = Inr (length p + length x)"
proof (cases "x = []")
  case True
  with assms show ?thesis
    by (cases r) (auto simp: numberExponent_def nth_append value_end_def)
next
  case False
  with assms obtain c sg ds where x: "x = c # sg @ ds" and c: "c = CHR ''e'' \<or> c = CHR ''E''"
    and sg: "sg = [] \<or> sg = ''+'' \<or> sg = ''-''" and ds: "json_digits ds"
    by (auto simp: json_exp_def)
  obtain d ds' where d: "ds = d # ds'" "isJSONDigit d"
    using ds by (cases ds) (auto simp: json_digits_def)
  have skip: "skipDigits ((p @ c # sg) @ ds @ r) (length (p @ c # sg)) = length (p @ c # sg) + length ds"
    by (rule skipDigits_complete) (use ds assms(2) in \<open>auto simp: json_digits_def value_end_def\<close>)
  show ?thesis
    using c sg skip d digit_not_special [OF d(2)]
    by (auto simp: numberExponent_def x nth_append)
qed

lemma skipJSONNumber_complete:
  assumes "json_number t" "value_end r"
  shows "skipJSONNumber (p @ t @ r) (length p) = Inr (length p + length t)"
proof -
  from assms(1) obtain s i f x where t: "t = s @ i @ f @ x" and s: "s = [] \<or> s = ''-''"
    and parts: "json_int i" "json_frac f" "json_exp x"
    by (auto simp: json_number_def)
  obtain c i' where i: "i = c # i'" "isJSONDigit c"
    using parts(1) by (cases i) (auto simp: json_int_def json_digits_def isJSONDigit_def)
  have xr: "x @ r = [] \<or> \<not> isJSONDigit (hd (x @ r)) \<and> hd (x @ r) \<noteq> CHR ''.''"
    using parts(3) assms(2) by (cases x) (auto simp: json_exp_def value_end_def isJSONDigit_def)
  have fxr: "f @ x @ r = [] \<or> \<not> isJSONDigit (hd (f @ x @ r))"
    using parts(2) xr by (cases f) (auto simp: json_frac_def isJSONDigit_def)
  have int: "numberInteger (p @ t @ r) (length (p @ s)) = Inr (length (p @ s @ i))"
    using numberInteger_complete [OF parts(1) fxr, of "p @ s"] by (simp add: t)
  have frac: "numberFraction (p @ t @ r) (length (p @ s @ i)) = Inr (length (p @ s @ i @ f))"
    using numberFraction_complete [OF parts(2) xr, of "p @ s @ i"] by (simp add: t)
  have exp: "numberExponent (p @ t @ r) (length (p @ s @ i @ f)) = Inr (length (p @ t))"
    using numberExponent_complete [OF parts(3) assms(2), of "p @ s @ i @ f"] by (simp add: t)
  have start: "(if (p @ t @ r) ! length p = CHR ''-'' then
          (if length p + 1 \<ge> length (p @ t @ r) then Inl InvalidNumber else Inr (length p + 1))
        else Inr (length p)) = Inr (length (p @ s))"
    using s i digit_not_special [OF i(2)] by (auto simp: t nth_append)
  have "t \<noteq> []" using i t by auto
  then show ?thesis
    unfolding skipJSONNumber_def start andThen_simps int frac exp by simp
qed

section \<open>Values\<close>

text \<open>A member of an object, from the white space before its key to the white space after its
  value.\<close>

definition member_text :: "bytes \<Rightarrow> bytes \<Rightarrow> bytes \<Rightarrow> bytes \<Rightarrow> bytes \<Rightarrow> bytes \<Rightarrow> bytes" where
  "member_text w1 k w2 w3 v w4 = w1 @ k @ w2 @ CHR '':'' # w3 @ v @ w4"

text \<open>\<open>json_members\<close> and \<open>json_elements\<close> are what follows an opening bracket, up to and with
  the closing one.\<close>

inductive json_value :: "bytes \<Rightarrow> bool"
  and json_members :: "bytes \<Rightarrow> bool"
  and json_elements :: "bytes \<Rightarrow> bool"
where
  value_string: "string_token s v \<Longrightarrow> json_value s"
| value_literal: "t = ''true'' \<or> t = ''false'' \<or> t = ''null'' \<Longrightarrow> json_value t"
| value_number: "json_number t \<Longrightarrow> json_value t"
| value_object: "json_members m \<Longrightarrow> json_value (CHR ''{'' # m)"
| value_array: "json_elements e \<Longrightarrow> json_value (CHR ''['' # e)"
| members_close: "json_ws w \<Longrightarrow> json_members (w @ ''}'')"
| members_last: "json_ws w1 \<Longrightarrow> string_token k key \<Longrightarrow> json_ws w2 \<Longrightarrow> json_ws w3 \<Longrightarrow> json_value v \<Longrightarrow>
    json_ws w4 \<Longrightarrow> json_members (member_text w1 k w2 w3 v w4 @ ''}'')"
| members_more: "json_ws w1 \<Longrightarrow> string_token k key \<Longrightarrow> json_ws w2 \<Longrightarrow> json_ws w3 \<Longrightarrow> json_value v \<Longrightarrow>
    json_ws w4 \<Longrightarrow> json_members m \<Longrightarrow> json_members (member_text w1 k w2 w3 v w4 @ CHR '','' # m)"
| elements_close: "json_ws w \<Longrightarrow> json_elements (w @ '']'')"
| elements_last: "json_ws w1 \<Longrightarrow> json_value v \<Longrightarrow> json_ws w2 \<Longrightarrow> json_elements (w1 @ v @ w2 @ '']'')"
| elements_more: "json_ws w1 \<Longrightarrow> json_value v \<Longrightarrow> json_ws w2 \<Longrightarrow> json_elements e \<Longrightarrow>
    json_elements (w1 @ v @ w2 @ CHR '','' # e)"

definition value_start :: "char \<Rightarrow> bool" where
  "value_start c \<longleftrightarrow> c \<in> {CHR ''{'', CHR ''['', CHR 0x22, CHR ''t'', CHR ''f'', CHR ''n'', CHR ''-''} \<or> isJSONDigit c"

lemma value_start_not:
  "value_start c \<Longrightarrow> \<not> isJSONSpace c \<and> c \<noteq> CHR '']'' \<and> c \<noteq> CHR ''}'' \<and> c \<noteq> CHR '','' \<and> c \<noteq> CHR '':''"
  by (auto simp: value_start_def isJSONSpace_def isJSONDigit_def)

lemma json_number_start: "json_number t \<Longrightarrow> t \<noteq> [] \<and> (hd t = CHR ''-'' \<or> isJSONDigit (hd t))"
  by (auto simp: json_number_def json_int_def json_digits_def isJSONDigit_def hd_append neq_Nil_conv)

lemma json_value_start: "json_value v \<Longrightarrow> v \<noteq> [] \<and> value_start (hd v)"
  by (erule json_value.cases)
     (auto simp: value_start_def dest: string_token_shape json_number_start)

text \<open>Soundness: what each scanner passes is a word of the grammar.\<close>

lemma json_ws_segment:
  "idx \<le> length body \<Longrightarrow> json_ws (segment body idx (skipJSONWhitespace body idx))"
  by (simp add: skipJSONWhitespace_sound)

lemma member_segment:
  assumes i: "scanJSONString body (skipJSONWhitespace body idx) = Inr (key, a)"
    and c: "skipJSONWhitespace body a < length body" "body ! skipJSONWhitespace body a = CHR '':''"
    and b: "skipJSONWhitespace body (skipJSONWhitespace body a + 1) < b" "b \<le> length body"
  shows "segment body idx (skipJSONWhitespace body b) =
    member_text (segment body idx (skipJSONWhitespace body idx)) (segment body (skipJSONWhitespace body idx) a)
      (segment body a (skipJSONWhitespace body a))
      (segment body (skipJSONWhitespace body a + 1) (skipJSONWhitespace body (skipJSONWhitespace body a + 1)))
      (segment body (skipJSONWhitespace body (skipJSONWhitespace body a + 1)) b)
      (segment body b (skipJSONWhitespace body b))"
proof -
  let ?i = "skipJSONWhitespace body idx" and ?c = "skipJSONWhitespace body a"
  let ?v = "skipJSONWhitespace body (?c + 1)" and ?d = "skipJSONWhitespace body b"
  have ord: "idx \<le> ?i" "?i \<le> a" "a \<le> ?c" "?c < ?v" "?v \<le> b" "b \<le> ?d" "?d \<le> length body"
    using scanJSONString_progress [OF i] skipJSONWhitespace_ge [of idx body] skipJSONWhitespace_ge [of a body]
      skipJSONWhitespace_ge [of "?c + 1" body] skipJSONWhitespace_ge [of b body] skipJSONWhitespace_le [of b body] b
    by auto
  have "segment body idx ?d = segment body idx ?i @ segment body ?i a @ segment body a ?c @ segment body ?c ?d"
    using ord by (simp add: segment_append)
  moreover have "segment body ?c ?d = CHR '':'' # segment body (?c + 1) ?d"
    using ord c by (simp add: segment_Cons)
  moreover have "segment body (?c + 1) ?d = segment body (?c + 1) ?v @ segment body ?v b @ segment body b ?d"
    using ord by (simp add: segment_append)
  ultimately show ?thesis by (simp add: member_text_def)
qed

lemma object_loop_sound:
  assumes run: "skipObjectLoop body idx = Inr n"
    and val: "\<And>i x key a c n. i = skipJSONWhitespace body idx \<Longrightarrow> \<not> length body \<le> i \<Longrightarrow>
      body ! i \<noteq> CHR ''}'' \<Longrightarrow> scanJSONString body i = Inr x \<Longrightarrow> (key, a) = x \<Longrightarrow>
      c = skipJSONWhitespace body a \<Longrightarrow> \<not> (length body \<le> c \<or> body ! c \<noteq> CHR '':'') \<Longrightarrow>
      skipJSONValue body (skipJSONWhitespace body (c + 1)) = Inr n \<Longrightarrow>
      json_value (segment body (skipJSONWhitespace body (skipJSONWhitespace body (c + 1))) n)"
    and rest: "\<And>i x key a c b d n. i = skipJSONWhitespace body idx \<Longrightarrow> \<not> length body \<le> i \<Longrightarrow>
      body ! i \<noteq> CHR ''}'' \<Longrightarrow> scanJSONString body i = Inr x \<Longrightarrow> (key, a) = x \<Longrightarrow>
      c = skipJSONWhitespace body a \<Longrightarrow> \<not> (length body \<le> c \<or> body ! c \<noteq> CHR '':'') \<Longrightarrow>
      skipJSONValue body (skipJSONWhitespace body (c + 1)) = Inr b \<Longrightarrow> d = skipJSONWhitespace body b \<Longrightarrow>
      \<not> length body \<le> d \<Longrightarrow> body ! d = CHR '','' \<Longrightarrow> skipObjectLoop body (d + 1) = Inr n \<Longrightarrow>
      json_members (segment body (d + 1) n)"
  shows "json_members (segment body idx n)"
proof (cases "body ! skipJSONWhitespace body idx = CHR ''}''")
  case True
  with run have n: "skipJSONWhitespace body idx < length body" "n = skipJSONWhitespace body idx + 1"
    by (auto simp: skipObjectLoop_Inr [of body idx] Let_def)
  then have "segment body idx n = segment body idx (skipJSONWhitespace body idx) @ ''}''"
    using True skipJSONWhitespace_ge [of idx body]
      segment_append [of idx "skipJSONWhitespace body idx" n body] by (simp add: segment_single)
  then show ?thesis
    using json_ws_segment [of idx body] n skipJSONWhitespace_ge [of idx body] by (simp add: members_close)
next
  case False
  with run obtain key a b where i: "scanJSONString body (skipJSONWhitespace body idx) = Inr (key, a)"
    and i': "\<not> length body \<le> skipJSONWhitespace body idx"
    and c: "skipJSONWhitespace body a < length body" "body ! skipJSONWhitespace body a = CHR '':''"
    and b: "skipJSONValue body (skipJSONWhitespace body (skipJSONWhitespace body a + 1)) = Inr b"
    and d: "skipJSONWhitespace body b < length body"
    and rest': "body ! skipJSONWhitespace body b = CHR '','' \<and> skipObjectLoop body (skipJSONWhitespace body b + 1) = Inr n
       \<or> body ! skipJSONWhitespace body b = CHR ''}'' \<and> n = skipJSONWhitespace body b + 1"
    by (auto simp: skipObjectLoop_Inr [of body idx] Let_def)
  have c': "\<not> (length body \<le> skipJSONWhitespace body a \<or> body ! skipJSONWhitespace body a \<noteq> CHR '':'')"
    using c by simp
  let ?m = "segment body idx (skipJSONWhitespace body b)"
  have bb: "skipJSONWhitespace body (skipJSONWhitespace body a + 1) < b" "b \<le> length body"
    using skipJSONValue_progress [OF b] skipJSONWhitespace_ge [of "skipJSONWhitespace body a + 1" body] by auto
  have adv: "idx < skipJSONWhitespace body b" by (rule loop_advances [OF i b])
  have le: "idx \<le> length body" "a \<le> length body" "skipJSONWhitespace body a + 1 \<le> length body"
    using adv d scanJSONString_progress [OF i] c by auto
  note m = member_segment [OF i c bb]
  note parts = json_ws_segment [OF le(1)] scanJSONString_sound [OF i] json_ws_segment [OF le(2)]
    json_ws_segment [OF le(3)]
    val [OF refl i' False i refl refl c' b, simplified] json_ws_segment [OF bb(2)]
  from rest' show ?thesis
  proof
    assume r: "body ! skipJSONWhitespace body b = CHR '','' \<and> skipObjectLoop body (skipJSONWhitespace body b + 1) = Inr n"
    then have "skipJSONWhitespace body b + 1 < n" "n \<le> length body" using skipObjectLoop_progress by blast+
    then have "segment body idx n = ?m @ CHR '','' # segment body (skipJSONWhitespace body b + 1) n"
      using r d adv segment_append [of idx "skipJSONWhitespace body b" n body] by (simp add: segment_Cons)
    then show ?thesis
      using members_more [OF parts rest [OF refl i' False i refl refl c' b refl _ conjunct1 [OF r] conjunct2 [OF r]]] d m
      by simp
  next
    assume r: "body ! skipJSONWhitespace body b = CHR ''}'' \<and> n = skipJSONWhitespace body b + 1"
    then have "segment body idx n = ?m @ ''}''"
      using d adv segment_append [of idx "skipJSONWhitespace body b" n body] by (simp add: segment_single)
    then show ?thesis using members_last [OF parts] m by simp
  qed
qed

lemma array_loop_sound:
  assumes run: "skipArrayLoop body idx = Inr n"
    and val: "\<And>i n. i = skipJSONWhitespace body idx \<Longrightarrow> \<not> length body \<le> i \<Longrightarrow> body ! i \<noteq> CHR '']'' \<Longrightarrow>
      skipJSONValue body i = Inr n \<Longrightarrow> json_value (segment body (skipJSONWhitespace body i) n)"
    and rest: "\<And>i b d n. i = skipJSONWhitespace body idx \<Longrightarrow> \<not> length body \<le> i \<Longrightarrow> body ! i \<noteq> CHR '']'' \<Longrightarrow>
      skipJSONValue body i = Inr b \<Longrightarrow> d = skipJSONWhitespace body b \<Longrightarrow> \<not> length body \<le> d \<Longrightarrow>
      body ! d = CHR '','' \<Longrightarrow> skipArrayLoop body (d + 1) = Inr n \<Longrightarrow> json_elements (segment body (d + 1) n)"
  shows "json_elements (segment body idx n)"
proof (cases "body ! skipJSONWhitespace body idx = CHR '']''")
  case True
  with run have n: "skipJSONWhitespace body idx < length body" "n = skipJSONWhitespace body idx + 1"
    by (auto simp: skipArrayLoop_Inr [of body idx] Let_def)
  then have "segment body idx n = segment body idx (skipJSONWhitespace body idx) @ '']''"
    using True skipJSONWhitespace_ge [of idx body]
      segment_append [of idx "skipJSONWhitespace body idx" n body] by (simp add: segment_single)
  then show ?thesis
    using json_ws_segment [of idx body] n skipJSONWhitespace_ge [of idx body] by (simp add: elements_close)
next
  case False
  let ?i = "skipJSONWhitespace body idx"
  from False run obtain b where b: "skipJSONValue body ?i = Inr b" and i': "\<not> length body \<le> ?i"
    and d: "skipJSONWhitespace body b < length body"
    and rest': "body ! skipJSONWhitespace body b = CHR '','' \<and> skipArrayLoop body (skipJSONWhitespace body b + 1) = Inr n
       \<or> body ! skipJSONWhitespace body b = CHR '']'' \<and> n = skipJSONWhitespace body b + 1"
    by (auto simp: skipArrayLoop_Inr [of body idx] Let_def)
  let ?d = "skipJSONWhitespace body b"
  have ord: "idx \<le> ?i" "?i < b" "b \<le> length body" "b \<le> ?d"
    using skipJSONValue_progress [OF b] skipJSONWhitespace_ge [of idx body] skipJSONWhitespace_ge [of b body]
    by auto
  then have le: "idx \<le> length body" and adv: "idx < ?d" by auto
  have m: "segment body idx ?d = segment body idx ?i @ segment body ?i b @ segment body b ?d"
    using ord d by (simp add: segment_append)
  note parts = json_ws_segment [OF le] val [OF refl i' False b, simplified] json_ws_segment [OF ord(3)]
  from rest' show ?thesis
  proof
    assume r: "body ! ?d = CHR '','' \<and> skipArrayLoop body (?d + 1) = Inr n"
    then have "?d + 1 < n" "n \<le> length body" using skipArrayLoop_progress by blast+
    then have "segment body idx n = segment body idx ?d @ CHR '','' # segment body (?d + 1) n"
      using r d adv segment_append [of idx ?d n body] by (simp add: segment_Cons)
    then show ?thesis
      using elements_more [OF parts rest [OF refl i' False b refl _ conjunct1 [OF r] conjunct2 [OF r]]] d m
      by simp
  next
    assume r: "body ! ?d = CHR '']'' \<and> n = ?d + 1"
    then have "segment body idx n = segment body idx ?d @ '']''"
      using d adv segment_append [of idx ?d n body] by (simp add: segment_single)
    then show ?thesis using elements_last [OF parts] m by simp
  qed
qed

lemma skipJSONObject_Inr:
  "skipJSONObject body idx = Inr n \<longleftrightarrow>
     idx < length body \<and> body ! idx = CHR ''{'' \<and> skipObjectLoop body (idx + 1) = Inr n"
  by (auto simp: skipJSONObject.simps not_le)

lemma skipJSONArray_Inr:
  "skipJSONArray body idx = Inr n \<longleftrightarrow>
     idx < length body \<and> body ! idx = CHR ''['' \<and> skipArrayLoop body (idx + 1) = Inr n"
  by (auto simp: skipJSONArray.simps not_le)

text \<open>All words that can start at a position: how \<open>skipJSONValue\<close> succeeds.\<close>

lemma skipJSONValue_Inr:
  "skipJSONValue body idx = Inr n \<longleftrightarrow>
    (let i = skipJSONWhitespace body idx in i < length body \<and>
      (skipJSONObject body i = Inr n \<or> skipJSONArray body i = Inr n \<or>
       (\<exists>v. scanJSONString body i = Inr (v, n)) \<or>
       skipJSONLiteral body i ''true'' = Inr n \<or> skipJSONLiteral body i ''false'' = Inr n \<or>
       skipJSONLiteral body i ''null'' = Inr n \<or>
       (body ! i = CHR ''-'' \<or> isJSONDigit (body ! i)) \<and> skipJSONNumber body i = Inr n))"
proof -
  let ?i = "skipJSONWhitespace body idx"
  have lit: "skipJSONLiteral body ?i (c # t) \<noteq> Inr n" if "body ! ?i \<noteq> c" for c t
    using that by (simp add: skipJSONLiteral_def)
  have str: "scanJSONString body ?i = Inl ExpectedString" if "body ! ?i \<noteq> CHR 0x22"
    using that by (simp add: scanJSONString_def)
  have obj: "skipJSONObject body ?i \<noteq> Inr n" if "body ! ?i \<noteq> CHR ''{''"
    using that by (simp add: skipJSONObject.simps)
  have arr: "skipJSONArray body ?i \<noteq> Inr n" if "body ! ?i \<noteq> CHR ''[''"
    using that by (simp add: skipJSONArray.simps)
  have sp: "(case r of Inl e \<Rightarrow> Inl e | Inr (_, next) \<Rightarrow> Inr next) = Inr n \<longleftrightarrow> (\<exists>v. r = Inr (v, n))"
    for r :: "(scan_error, bytes \<times> nat) result"
    by (auto split: sum.splits)
  consider "body ! ?i = CHR ''{''" | "body ! ?i = CHR ''[''" | "body ! ?i = CHR 0x22" | "body ! ?i = CHR ''t''"
    | "body ! ?i = CHR ''f''" | "body ! ?i = CHR ''n''"
    | "body ! ?i \<notin> {CHR ''{'', CHR ''['', CHR 0x22, CHR ''t'', CHR ''f'', CHR ''n''}" by blast
  then show ?thesis
    unfolding skipJSONValue.simps [of body idx] Let_def
    by cases (auto simp: lit str obj arr sp isJSONDigit_def not_le)
qed

lemma skip_sound:
  "skipJSONValue body idx = Inr n \<Longrightarrow> json_value (segment body (skipJSONWhitespace body idx) n)"
  "skipJSONObject body idx = Inr n \<Longrightarrow> json_value (segment body idx n)"
  "skipObjectLoop body idx = Inr n \<Longrightarrow> json_members (segment body idx n)"
  "skipJSONArray body idx = Inr n \<Longrightarrow> json_value (segment body idx n)"
  "skipArrayLoop body idx = Inr n \<Longrightarrow> json_elements (segment body idx n)"
proof (induction body idx and body idx and body idx and body idx and body idx
    arbitrary: n and n and n and n and n rule: skip_induct)
  case (1 body idx)
  let ?i = "skipJSONWhitespace body idx"
  from "1.prems" have i: "?i < length body" by (simp add: skipJSONValue_Inr Let_def)
  have lit: "json_value (segment body ?i n)"
    if "skipJSONLiteral body ?i t = Inr n" "t = ''true'' \<or> t = ''false'' \<or> t = ''null''" for t
    using that value_literal [of t] by (auto simp: skipJSONLiteral_iff)
  from "1.prems" consider "skipJSONObject body ?i = Inr n" | "skipJSONArray body ?i = Inr n"
    | v where "scanJSONString body ?i = Inr (v, n)"
    | t where "skipJSONLiteral body ?i t = Inr n" "t = ''true'' \<or> t = ''false'' \<or> t = ''null''"
    | "skipJSONNumber body ?i = Inr n"
    by (auto simp: skipJSONValue_Inr Let_def)
  then show ?case
  proof cases
    case 1
    with i "1.IH"(1) [OF refl] show ?thesis by (simp add: skipJSONObject_Inr)
  next
    case 2
    with i "1.IH"(2) [OF refl] show ?thesis by (simp add: skipJSONArray_Inr)
  next
    case 3
    then show ?thesis by (blast intro: value_string scanJSONString_sound)
  next
    case 5
    with i show ?thesis by (blast intro: value_number skipJSONNumber_sound)
  qed (use lit in blast)
next
  case (2 body idx)
  then have "json_members (segment body (idx + 1) n)" "idx < n"
    using skipObjectLoop_progress [of body "idx + 1" n] by (auto simp: skipJSONObject_Inr not_le)
  with 2 show ?case by (auto simp: skipJSONObject_Inr segment_Cons intro: value_object)
next
  case (3 body idx)
  from "3.prems" "3.IH" show ?case by (rule object_loop_sound)
next
  case (4 body idx)
  then have "json_elements (segment body (idx + 1) n)" "idx < n"
    using skipArrayLoop_progress [of body "idx + 1" n] by (auto simp: skipJSONArray_Inr not_le)
  with 4 show ?case by (auto simp: skipJSONArray_Inr segment_Cons intro: value_array)
next
  case (5 body idx)
  from "5.prems" "5.IH" show ?case by (rule array_loop_sound)
qed

text \<open>Completeness. First one member, at any place of a body.\<close>

definition delimiter :: "char \<Rightarrow> bool" where
  "delimiter c \<longleftrightarrow> c \<in> {CHR '','', CHR ''}'', CHR '']''}"

lemma delimiter_not: "delimiter c \<Longrightarrow> \<not> isJSONSpace c \<and> \<not> isJSONDigit c \<and> c \<noteq> CHR ''.'' \<and> c \<noteq> CHR ''e'' \<and> c \<noteq> CHR ''E''"
  by (auto simp: delimiter_def isJSONSpace_def isJSONDigit_def)

lemma value_end_after: "json_ws w \<Longrightarrow> delimiter c \<Longrightarrow> value_end (w @ c # r)"
  by (cases w) (auto simp: value_end_def json_ws_def isJSONSpace_def isJSONDigit_def delimiter_def)

lemma no_space_delimiter: "delimiter c \<Longrightarrow> no_space_ahead (c # r)"
  by (simp add: no_space_ahead_def delimiter_not)

lemma member_key_complete:
  fixes p w1 k w2 w3 v w4 r :: bytes
  assumes "json_ws w1" "string_token k key" "json_ws w2" "json_ws w3" "v \<noteq> []" "value_start (hd v)"
  defines "body \<equiv> p @ member_text w1 k w2 w3 v w4 @ r"
  shows "skipJSONWhitespace body (length p) = length (p @ w1)"
    and "scanJSONString body (length (p @ w1)) = Inr (key, length (p @ w1 @ k))"
    and "skipJSONWhitespace body (length (p @ w1 @ k)) = length (p @ w1 @ k @ w2)"
    and "body ! length (p @ w1 @ k @ w2) = CHR '':''"
    and "skipJSONWhitespace body (length (p @ w1 @ k @ w2) + 1) = length (p @ w1 @ k @ w2 @ '':'' @ w3)"
proof -
  have k: "k \<noteq> []" "hd k = CHR 0x22" using string_token_shape [OF assms(2)] by auto
  show "skipJSONWhitespace body (length p) = length (p @ w1)"
    using skipJSONWhitespace_complete [OF assms(1), of "k @ w2 @ CHR '':'' # w3 @ v @ w4 @ r" p] k
    by (simp add: body_def member_text_def no_space_ahead_def isJSONSpace_def)
  show "scanJSONString body (length (p @ w1)) = Inr (key, length (p @ w1 @ k))"
    using scanJSONString_complete [OF assms(2), of "p @ w1"] by (simp add: body_def member_text_def)
  show "skipJSONWhitespace body (length (p @ w1 @ k)) = length (p @ w1 @ k @ w2)"
    using skipJSONWhitespace_complete [OF assms(3), of "CHR '':'' # w3 @ v @ w4 @ r" "p @ w1 @ k"]
    by (simp add: body_def member_text_def no_space_ahead_def isJSONSpace_def)
  show "body ! length (p @ w1 @ k @ w2) = CHR '':''"
    using nth_after [of "CHR '':'' # w3 @ v @ w4 @ r" "p @ w1 @ k @ w2"] by (simp add: body_def member_text_def)
  show "skipJSONWhitespace body (length (p @ w1 @ k @ w2) + 1) = length (p @ w1 @ k @ w2 @ '':'' @ w3)"
    using skipJSONWhitespace_complete [OF assms(4), of "v @ w4 @ r" "p @ w1 @ k @ w2 @ '':''"]
      assms(5) value_start_not [OF assms(6)]
    by (simp add: body_def member_text_def no_space_ahead_def)
qed

lemma member_after_complete:
  assumes "json_ws w4" "delimiter c"
  shows "skipJSONWhitespace (p @ member_text w1 k w2 w3 v w4 @ c # r) (length (p @ w1 @ k @ w2 @ '':'' @ w3 @ v))
      = length (p @ member_text w1 k w2 w3 v w4)"
    and "(p @ member_text w1 k w2 w3 v w4 @ c # r) ! length (p @ member_text w1 k w2 w3 v w4) = c"
  using skipJSONWhitespace_complete [OF assms(1) no_space_delimiter [OF assms(2)], of "p @ w1 @ k @ w2 @ '':'' @ w3 @ v" r]
    nth_after [of "c # r" "p @ member_text w1 k w2 w3 v w4"]
  by (simp_all add: member_text_def)

lemma skipJSONValue_ws: "skipJSONValue body (skipJSONWhitespace body idx) = skipJSONValue body idx"
  by (simp add: skipJSONValue.simps)

lemma skipJSONValue_at:
  "r \<noteq> [] \<Longrightarrow> \<not> isJSONSpace (hd r) \<Longrightarrow> skipJSONValue (p @ r) (length p) = Inr n \<longleftrightarrow>
    (skipJSONObject (p @ r) (length p) = Inr n \<or> skipJSONArray (p @ r) (length p) = Inr n \<or>
       (\<exists>v. scanJSONString (p @ r) (length p) = Inr (v, n)) \<or>
       skipJSONLiteral (p @ r) (length p) ''true'' = Inr n \<or> skipJSONLiteral (p @ r) (length p) ''false'' = Inr n \<or>
       skipJSONLiteral (p @ r) (length p) ''null'' = Inr n \<or>
       (hd r = CHR ''-'' \<or> isJSONDigit (hd r)) \<and> skipJSONNumber (p @ r) (length p) = Inr n)"
  by (simp add: skipJSONValue_Inr Let_def skipJSONWhitespace_here nth_after)

lemma object_member_complete:
  assumes mem: "json_ws w1" "string_token k key" "json_ws w2" "json_ws w3" "json_value v" "json_ws w4"
    and val: "\<And>p r. value_end r \<Longrightarrow> skipJSONValue (p @ v @ r) (length p) = Inr (length p + length v)"
    and c: "c = CHR '','' \<or> c = CHR ''}''"
    and n: "if c = CHR ''}'' then n = length (p @ member_text w1 k w2 w3 v w4) + 1
       else skipObjectLoop (p @ member_text w1 k w2 w3 v w4 @ c # r) (length (p @ member_text w1 k w2 w3 v w4) + 1) = Inr n"
  shows "skipObjectLoop (p @ member_text w1 k w2 w3 v w4 @ c # r) (length p) = Inr n"
proof -
  let ?body = "p @ member_text w1 k w2 w3 v w4 @ c # r"
  have dc: "delimiter c" using c by (auto simp: delimiter_def)
  note key = member_key_complete [OF mem(1-4), of v p w4 "c # r"] and v = json_value_start [OF mem(5)]
  have "skipJSONValue ?body (length (p @ w1 @ k @ w2 @ '':'' @ w3)) = Inr (length (p @ w1 @ k @ w2 @ '':'' @ w3 @ v))"
    using val [OF value_end_after [OF mem(6) dc], of "p @ w1 @ k @ w2 @ '':'' @ w3"] by (simp add: member_text_def)
  moreover have "?body ! length (p @ w1) = CHR 0x22"
    using scanJSONString_progress [OF key(2)] v by blast
  moreover have "length (p @ w1) < length ?body" "length (p @ w1 @ k @ w2) < length ?body"
    "length (p @ member_text w1 k w2 w3 v w4) < length ?body"
    by (simp_all add: member_text_def)
  ultimately show ?thesis
    unfolding skipObjectLoop_Inr [of ?body "length p"] Let_def
    using key v member_after_complete [OF mem(6) dc, of p w1 k w2 w3 v r] c n
    by (auto intro!: exI [of _ key] split: if_splits)
qed

lemma array_element_complete:
  assumes el: "json_ws w1" "json_value v" "json_ws w2"
    and val: "\<And>p r. value_end r \<Longrightarrow> skipJSONValue (p @ v @ r) (length p) = Inr (length p + length v)"
    and c: "c = CHR '','' \<or> c = CHR '']''"
    and n: "if c = CHR '']'' then n = length (p @ w1 @ v @ w2) + 1
       else skipArrayLoop (p @ w1 @ v @ w2 @ c # r) (length (p @ w1 @ v @ w2) + 1) = Inr n"
  shows "skipArrayLoop (p @ w1 @ v @ w2 @ c # r) (length p) = Inr n"
proof -
  let ?body = "p @ w1 @ v @ w2 @ c # r"
  have dc: "delimiter c" using c by (auto simp: delimiter_def)
  note v = json_value_start [OF el(2)]
  have "no_space_ahead (v @ w2 @ c # r)"
    using v value_start_not [of "hd v"] by (simp add: no_space_ahead_def)
  then have "skipJSONWhitespace ?body (length p) = length (p @ w1)"
    using skipJSONWhitespace_complete [OF el(1), of "v @ w2 @ c # r" p] by simp
  moreover have "?body ! length (p @ w1) = hd v"
    using nth_after [of "v @ w2 @ c # r" "p @ w1"] v by simp
  moreover have "skipJSONValue ?body (length (p @ w1)) = Inr (length (p @ w1 @ v))"
    using val [OF value_end_after [OF el(3) dc], of "p @ w1"] by simp
  moreover have "skipJSONWhitespace ?body (length (p @ w1 @ v)) = length (p @ w1 @ v @ w2)"
    using skipJSONWhitespace_complete [OF el(3) no_space_delimiter [OF dc], of "p @ w1 @ v" r] by simp
  moreover have "?body ! length (p @ w1 @ v @ w2) = c"
    using nth_after [of "c # r" "p @ w1 @ v @ w2"] by simp
  moreover have "hd v \<noteq> CHR '']''" using v value_start_not by blast
  moreover have "length (p @ w1) < length ?body" "length (p @ w1 @ v @ w2) < length ?body"
    by simp_all
  ultimately show ?thesis
    unfolding skipArrayLoop_Inr [of ?body "length p"] Let_def
    using c n by (auto split: if_splits)
qed

lemma object_close_complete:
  "json_ws w \<Longrightarrow> skipObjectLoop (p @ w @ CHR ''}'' # r) (length p) = Inr (length (p @ w) + 1)"
  using skipJSONWhitespace_complete [of w "CHR ''}'' # r" p] nth_after [of "CHR ''}'' # r" "p @ w"]
  by (simp add: skipObjectLoop_Inr [of "p @ w @ CHR ''}'' # r" "length p"] Let_def no_space_delimiter delimiter_def)

lemma array_close_complete:
  "json_ws w \<Longrightarrow> skipArrayLoop (p @ w @ CHR '']'' # r) (length p) = Inr (length (p @ w) + 1)"
  using skipJSONWhitespace_complete [of w "CHR '']'' # r" p] nth_after [of "CHR '']'' # r" "p @ w"]
  by (simp add: skipArrayLoop_Inr [of "p @ w @ CHR '']'' # r" "length p"] Let_def no_space_delimiter delimiter_def)

lemma skip_complete:
  shows "json_value v \<Longrightarrow> value_end r \<Longrightarrow> skipJSONValue (p @ v @ r) (length p) = Inr (length p + length v)"
    and "json_members m \<Longrightarrow> skipObjectLoop (p @ m @ r) (length p) = Inr (length p + length m)"
    and "json_elements e \<Longrightarrow> skipArrayLoop (p @ e @ r) (length p) = Inr (length p + length e)"
proof (induction arbitrary: p r and p r and p r rule: json_value_json_members_json_elements.inducts)
  case (value_string s v)
  then show ?case
    using scanJSONString_complete [OF value_string(1), of p r] string_token_shape [OF value_string(1)]
    by (subst skipJSONValue_at) (auto simp: isJSONSpace_def)
next
  case (value_literal t)
  then show ?case
    using skipJSONLiteral_complete [of p t r] by (subst skipJSONValue_at) (auto simp: isJSONSpace_def)
next
  case (value_number t)
  then show ?case
    using skipJSONNumber_complete [of t r p] json_number_start [of t]
    by (subst skipJSONValue_at) (auto simp: isJSONSpace_def isJSONDigit_def)
next
  case (value_object m)
  from value_object(2) [of "p @ ''{''" r] show ?case
    by (subst skipJSONValue_at) (auto simp: isJSONSpace_def skipJSONObject_Inr)
next
  case (value_array e)
  from value_array(2) [of "p @ ''[''" r] show ?case
    by (subst skipJSONValue_at) (auto simp: isJSONSpace_def skipJSONArray_Inr)
next
  case (members_close w)
  then show ?case using object_close_complete [of w p r] by simp
next
  case (members_last w1 k key w2 w3 v w4)
  then show ?case
    using object_member_complete [of w1 k key w2 w3 v w4 "CHR ''}''" _ p r] by simp
next
  case (members_more w1 k key w2 w3 v w4 m)
  then show ?case
    using object_member_complete [of w1 k key w2 w3 v w4 "CHR '',''" _ p "m @ r"]
      members_more.IH(2) [of "p @ member_text w1 k w2 w3 v w4 @ '',''" r] by simp
next
  case (elements_close w)
  then show ?case using array_close_complete [of w p r] by simp
next
  case (elements_last w1 v w2)
  then show ?case using array_element_complete [of w1 v w2 "CHR '']''" _ p r] by simp
next
  case (elements_more w1 v w2 e)
  then show ?case
    using array_element_complete [of w1 v w2 "CHR '',''" _ p "e @ r"]
      elements_more.IH(2) [of "p @ w1 @ v @ w2 @ '',''" r] by simp
qed

end
