(* ===== verification/Body_Inspection.thy ===== *)
theory Body_Inspection
  imports Body_Grammar
begin

text \<open>
  What the inspection of a request returns, stated on the text of the request. The key
  search in \<open>stream_options\<close> and the top-level pass are the same loop over the members of an
  object, with a different state and a different treatment of a member; the locale
  \<open>object_scan\<close> is that loop, and \<open>object_text\<close> the texts it accepts together with the state
  it computes. Both loops of \<open>body_scan.go\<close> are interpretations of it.
\<close>

section \<open>Objects with a state\<close>

text \<open>\<open>effect i key v s t\<close>: a member \<open>key\<close> whose value \<open>v\<close> starts at position \<open>i\<close> takes the
  state \<open>s\<close> to \<open>t\<close>. The text starts after the opening brace, at position \<open>i\<close>.\<close>

inductive object_text :: "(nat \<Rightarrow> bytes \<Rightarrow> bytes \<Rightarrow> 's \<Rightarrow> 's \<Rightarrow> bool) \<Rightarrow> nat \<Rightarrow> 's \<Rightarrow> bytes \<Rightarrow> 's \<Rightarrow> bool"
  for effect where
  otext_close: "json_ws w \<Longrightarrow> object_text effect i s (w @ ''}'') s"
| otext_last: "json_ws w1 \<Longrightarrow> string_token k key \<Longrightarrow> json_ws w2 \<Longrightarrow> json_ws w3 \<Longrightarrow> json_ws w4 \<Longrightarrow>
    effect (i + length (w1 @ k @ w2 @ '':'' @ w3)) key v s t \<Longrightarrow>
    object_text effect i s (member_text w1 k w2 w3 v w4 @ ''}'') t"
| otext_more: "json_ws w1 \<Longrightarrow> string_token k key \<Longrightarrow> json_ws w2 \<Longrightarrow> json_ws w3 \<Longrightarrow> json_ws w4 \<Longrightarrow>
    effect (i + length (w1 @ k @ w2 @ '':'' @ w3)) key v s t \<Longrightarrow>
    object_text effect (i + length (member_text w1 k w2 w3 v w4) + 1) t m u \<Longrightarrow>
    object_text effect i s (member_text w1 k w2 w3 v w4 @ CHR '','' # m) u"

locale object_scan =
  fixes loop :: "bytes \<Rightarrow> 's \<Rightarrow> nat \<Rightarrow> (scan_error, 's \<times> nat) result"
    and field :: "bytes \<Rightarrow> nat \<Rightarrow> bytes \<Rightarrow> 's \<Rightarrow> (scan_error, 's \<times> nat) result"
    and effect :: "nat \<Rightarrow> bytes \<Rightarrow> bytes \<Rightarrow> 's \<Rightarrow> 's \<Rightarrow> bool"
  assumes loop_Inr: "loop body s idx = Inr (u, n) \<longleftrightarrow>
    (let i = skipJSONWhitespace body idx in i < length body \<and>
     (body ! i = CHR ''}'' \<and> u = s \<and> n = i + 1 \<or> body ! i \<noteq> CHR ''}'' \<and>
      (\<exists>key a t b. scanJSONString body i = Inr (key, a) \<and>
        (let c = skipJSONWhitespace body a; d = skipJSONWhitespace body b in
         c < length body \<and> body ! c = CHR '':'' \<and>
         field body (skipJSONWhitespace body (c + 1)) key s = Inr (t, b) \<and>
         d < length body \<and>
         (body ! d = CHR '','' \<and> loop body t (d + 1) = Inr (u, n) \<or>
          body ! d = CHR ''}'' \<and> u = t \<and> n = d + 1)))))"
    and field_progress: "field body idx key s = Inr (t, n) \<Longrightarrow> idx < n \<and> n \<le> length body"
    and field_sound: "field body idx key s = Inr (t, n) \<Longrightarrow> skipJSONWhitespace body idx = idx \<Longrightarrow>
      effect idx key (segment body idx n) s t"
    and field_complete: "effect (length p) key v s t \<Longrightarrow> value_end r \<Longrightarrow>
      field (p @ v @ r) (length p) key s = Inr (t, length p + length v)"
    and effect_value: "effect i key v s t \<Longrightarrow> json_value v"
begin

lemma member_advances:
  assumes "scanJSONString body (skipJSONWhitespace body idx) = Inr (key, a)"
    and "field body (skipJSONWhitespace body (skipJSONWhitespace body a + 1)) key s = Inr (t, b)"
  shows "idx < skipJSONWhitespace body b"
  using object_value_start [OF assms(1)] field_progress [OF assms(2)]
    skipJSONWhitespace_ge [of b body] by linarith

lemma loop_sound:
  "loop body s idx = Inr (u, n) \<Longrightarrow> object_text effect idx s (segment body idx n) u \<and> idx < n \<and> n \<le> length body"
proof (induction "length body - idx" arbitrary: s idx rule: less_induct)
  case less
  let ?i = "skipJSONWhitespace body idx"
  have i: "?i < length body" "idx \<le> ?i"
    using less.prems skipJSONWhitespace_ge by (auto simp: loop_Inr [of body s idx] Let_def)
  show ?case
  proof (cases "body ! ?i = CHR ''}''")
    case True
    with less.prems have "u = s" "n = ?i + 1" by (auto simp: loop_Inr [of body s idx] Let_def)
    moreover have "segment body idx (?i + 1) = segment body idx ?i @ ''}''"
      using True i by (simp add: segment_snoc)
    ultimately show ?thesis
      using i otext_close [OF json_ws_segment [of idx body], of effect idx s] by auto
  next
    case False
    with less.prems obtain key a t b where a: "scanJSONString body ?i = Inr (key, a)"
      and c: "skipJSONWhitespace body a < length body" "body ! skipJSONWhitespace body a = CHR '':''"
      and f: "field body (skipJSONWhitespace body (skipJSONWhitespace body a + 1)) key s = Inr (t, b)"
      and d: "skipJSONWhitespace body b < length body"
      and fin: "body ! skipJSONWhitespace body b = CHR '','' \<and> loop body t (skipJSONWhitespace body b + 1) = Inr (u, n) \<or>
        body ! skipJSONWhitespace body b = CHR ''}'' \<and> u = t \<and> n = skipJSONWhitespace body b + 1"
      by (auto simp: loop_Inr [of body s idx] Let_def)
    let ?c = "skipJSONWhitespace body a" let ?v = "skipJSONWhitespace body (?c + 1)" and ?d = "skipJSONWhitespace body b"
    note fp = field_progress [OF f]
    note seg = member_segment [OF a c, of b]
    have adv: "idx < ?d" by (rule member_advances [OF a f])
    have le: "a \<le> length body" "?i \<le> a" "a \<le> ?c" "?c + 1 \<le> ?v" "b \<le> ?d"
      using scanJSONString_progress [OF a] skipJSONWhitespace_ge by auto
    have parts: "json_ws (segment body idx ?i)" "string_token (segment body ?i a) key"
        "json_ws (segment body a ?c)" "json_ws (segment body (?c + 1) ?v)" "json_ws (segment body b ?d)"
      using i c le fp scanJSONString_sound [OF a] by (auto intro!: json_ws_segment)
    have eff: "effect (idx + length (segment body idx ?i @ segment body ?i a @ segment body a ?c @ '':'' @ segment body (?c + 1) ?v))
        key (segment body ?v b) s t"
      using field_sound [OF f] i c le fp by (simp add: length_segment)
    have sd: "segment body idx ?d = member_text (segment body idx ?i) (segment body ?i a) (segment body a ?c)
        (segment body (?c + 1) ?v) (segment body ?v b) (segment body b ?d)"
      using seg fp by simp
    from fin show ?thesis
    proof
      assume end': "body ! ?d = CHR ''}'' \<and> u = t \<and> n = ?d + 1"
      then have "segment body idx n = segment body idx ?d @ ''}''"
        using adv d by (simp add: segment_snoc)
      with end' adv d otext_last [where effect = effect, OF parts eff] sd show ?thesis by auto
    next
      assume more: "body ! ?d = CHR '','' \<and> loop body t (?d + 1) = Inr (u, n)"
      have "length body - (?d + 1) < length body - idx" using adv d by linarith
      with less.hyps more have IH: "object_text effect (?d + 1) t (segment body (?d + 1) n) u" "?d + 1 < n" "n \<le> length body"
        by blast+
      have "segment body idx n = segment body idx ?d @ CHR '','' # segment body (?d + 1) n"
        using adv d more IH by (simp add: segment_at [of idx ?d n])
      moreover have "idx + length (segment body idx ?d) + 1 = ?d + 1"
        using adv d by (simp add: length_segment)
      ultimately show ?thesis
        using otext_more [where effect = effect, OF parts eff, of "segment body (?d + 1) n" u] IH adv sd by simp
    qed
  qed
qed

lemma member_complete:
  assumes mem: "json_ws w1" "string_token k key" "json_ws w2" "json_ws w3" "json_ws w4"
    and eff: "effect (length p + length (w1 @ k @ w2 @ '':'' @ w3)) key v s t"
    and c: "c = CHR '','' \<or> c = CHR ''}''"
    and n: "if c = CHR ''}'' then n = length (p @ member_text w1 k w2 w3 v w4) + 1 \<and> u = t
       else loop (p @ member_text w1 k w2 w3 v w4 @ c # r) t (length (p @ member_text w1 k w2 w3 v w4) + 1) = Inr (u, n)"
  shows "loop (p @ member_text w1 k w2 w3 v w4 @ c # r) s (length p) = Inr (u, n)"
proof -
  let ?body = "p @ member_text w1 k w2 w3 v w4 @ c # r"
  have dc: "delimiter c" using c by (auto simp: delimiter_def)
  note v = json_value_start [OF effect_value [OF eff]]
  note key = member_key_complete [OF mem(1-4), of v p w4 "c # r"]
  have "field ?body (length (p @ w1 @ k @ w2 @ '':'' @ w3)) key s = Inr (t, length (p @ w1 @ k @ w2 @ '':'' @ w3 @ v))"
    using field_complete [of "p @ w1 @ k @ w2 @ '':'' @ w3" key v s t, OF _ value_end_after [OF mem(5) dc]] eff
    by (simp add: member_text_def)
  moreover have "?body ! length (p @ w1) = CHR 0x22"
    using scanJSONString_progress [OF key(2)] v by blast
  moreover have "length (p @ w1) < length ?body" "length (p @ w1 @ k @ w2) < length ?body"
    "length (p @ member_text w1 k w2 w3 v w4) < length ?body"
    by (simp_all add: member_text_def)
  ultimately show ?thesis
    unfolding loop_Inr [of ?body s "length p"] Let_def
    using key v member_after_complete [OF mem(5) dc, of p w1 k w2 w3 v r] c n
    by (auto intro!: exI [of _ key] split: if_splits)
qed

lemma loop_complete:
  "object_text effect i s m u \<Longrightarrow> i = length p \<Longrightarrow> loop (p @ m @ r) s (length p) = Inr (u, length p + length m)"
proof (induction arbitrary: p r rule: object_text.induct)
  case (otext_close w i s)
  then show ?case
    using skipJSONWhitespace_complete [of w "CHR ''}'' # r" p] nth_after [of "CHR ''}'' # r" "p @ w"]
    by (simp add: loop_Inr [of "p @ w @ CHR ''}'' # r" s "length p"] Let_def no_space_delimiter delimiter_def)
next
  case (otext_last w1 k key w2 w3 w4 i v s t)
  then show ?case
    using member_complete [of w1 k key w2 w3 w4 p v s t "CHR ''}''" _ t r] by simp
next
  case (otext_more w1 k key w2 w3 w4 i v s t m u)
  then show ?case
    using member_complete [of w1 k key w2 w3 w4 p v s t "CHR '',''" _ u "m @ r"]
      otext_more.IH [of "p @ member_text w1 k w2 w3 v w4 @ '',''" r] by simp
qed

end

section \<open>Looking for a key\<close>

definition key_effect :: "bytes \<Rightarrow> nat \<Rightarrow> bytes \<Rightarrow> bytes \<Rightarrow> bool \<Rightarrow> bool \<Rightarrow> bool" where
  "key_effect k i key v s t \<longleftrightarrow> json_value v \<and> t = (key = k \<or> s)"

lemma key_effect_members: "object_text (key_effect k) i s m u \<Longrightarrow> json_members m"
  by (induction rule: object_text.induct)
     (auto simp: key_effect_def intro: members_close members_last members_more)

lemma skipJSONValue_here:
  "skipJSONValue body idx = Inr n \<Longrightarrow> skipJSONWhitespace body idx = idx \<Longrightarrow> json_value (segment body idx n)"
  using skip_sound(1) [of body idx n] by simp

interpretation key_scan: object_scan "\<lambda>body s idx. objectForKeyLoop body k s idx"
  "\<lambda>body idx key s. case skipJSONValue body idx of Inl e \<Rightarrow> Inl e | Inr n \<Rightarrow> Inr (key = k \<or> s, n)"
  "key_effect k" for k
proof (unfold_locales, goal_cases)
  case (1 body s idx u n)
  have field: "(case skipJSONValue body i of Inl e \<Rightarrow> Inl e | Inr n \<Rightarrow> Inr (key = k \<or> s, n)) = Inr (t, b) \<longleftrightarrow>
      skipJSONValue body i = Inr b \<and> t = (key = k \<or> s)" for i key t b
    by (auto split: sum.splits)
  show ?case
    unfolding objectForKeyLoop_Inr [of body k s idx] Let_def field by blast
next
  case (2 body idx key s t n)
  then show ?case by (auto split: sum.splits dest: skipJSONValue_progress)
next
  case (3 body idx key s t n)
  then show ?case by (auto simp: key_effect_def skipJSONValue_here split: sum.splits)
next
  case (4 p key v s t r)
  then show ?case by (auto simp: key_effect_def skip_complete(1))
next
  case (5 i key v s t)
  then show ?case by (simp add: key_effect_def)
qed

section \<open>The top-level object\<close>

definition field_effect ::
  "nat \<Rightarrow> bytes \<Rightarrow> bytes \<Rightarrow> requestBodyInspection \<Rightarrow> requestBodyInspection \<Rightarrow> bool" where
  "field_effect i key v s t \<longleftrightarrow>
     (if key = ''model'' then \<exists>m. string_token v m \<and> t = s\<lparr>Model := trimSpace m\<rparr>
      else if key = ''stream'' then
        v = ''true'' \<and> t = s\<lparr>Stream := True\<rparr> \<or> v = ''false'' \<and> t = s\<lparr>Stream := False\<rparr>
      else if key = ''messages'' \<or> key = ''tools'' then json_value v \<and> hd v = CHR ''['' \<and> t = s
      else if key = ''response_format'' then json_value v \<and> hd v = CHR ''{'' \<and> t = s
      else if key = ''stream_options'' then
        (\<exists>m g. v = CHR ''{'' # m \<and> object_text (key_effect ''include_usage'') (i + 1) False m g \<and>
           t = s\<lparr>HasStreamOptions := True, StreamOptionsObjectStart := int i,
                 StreamOptionsHasIncludeUsage := g, StreamOptionsObjectEnd := int (i + length v)\<rparr>)
      else json_value v \<and> t = s)"

lemma field_effect_value: "field_effect i key v s t \<Longrightarrow> json_value v"
  by (auto simp: field_effect_def split: if_splits
      intro: value_string value_literal value_object key_effect_members)

lemma scanJSONBool_Inr:
  "scanJSONBool body idx = Inr (b, n) \<longleftrightarrow>
    b \<and> skipJSONLiteral body idx ''true'' = Inr n \<or> \<not> b \<and> skipJSONLiteral body idx ''false'' = Inr n"
  by (auto simp: scanJSONBool_def skipJSONLiteral_def literalAt_iff split: sum.splits if_splits)

lemma nth_hd_segment: "i < n \<Longrightarrow> n \<le> length body \<Longrightarrow> hd (segment body i n) = body ! i"
  by (simp add: segment_Cons)

lemma inspectField_sound:
  assumes run: "inspectField body idx key s = Inr (t, n)" and ws: "skipJSONWhitespace body idx = idx"
  shows "field_effect idx key (segment body idx n) s t"
proof -
  have n: "idx < n" "n \<le> length body" using inspectField_progress [OF run] by auto
  note hd = nth_hd_segment [OF n]
  consider "key = ''model''" | "key = ''stream''" | "key = ''stream_options''"
    | "key \<notin> {''model'', ''stream'', ''stream_options''}" by auto
  then show ?thesis
  proof cases
    case 1
    with run show ?thesis
      by (auto simp: inspectField_def field_effect_def split: sum.splits intro: scanJSONString_sound)
  next
    case 2
    with run show ?thesis
      by (auto simp: inspectField_def field_effect_def scanJSONBool_Inr skipJSONLiteral_iff split: sum.splits)
  next
    case 3
    with run obtain g where c: "body ! idx = CHR ''{''" and l: "objectForKeyLoop body ''include_usage'' False (idx + 1) = Inr (g, n)"
      and t: "t = s\<lparr>HasStreamOptions := True, StreamOptionsObjectStart := int idx,
                 StreamOptionsHasIncludeUsage := g, StreamOptionsObjectEnd := int n\<rparr>"
      by (auto simp: inspectField_def inspectObjectForKey_def split: sum.splits if_splits)
    have "segment body idx n = CHR ''{'' # segment body (idx + 1) n" using n c by (simp add: segment_Cons)
    with 3 t n key_scan.loop_sound [OF l] show ?thesis
      by (auto simp: field_effect_def length_segment)
  next
    case 4
    with run hd show ?thesis
      by (auto simp: inspectField_def field_effect_def skipJSONValue_here [OF _ ws] split: sum.splits if_splits)
  qed
qed

lemma inspectField_complete:
  assumes eff: "field_effect (length p) key v s t" and r: "value_end r"
  shows "inspectField (p @ v @ r) (length p) key s = Inr (t, length p + length v)"
proof -
  note v = json_value_start [OF field_effect_value [OF eff]]
  have hd: "(p @ v @ r) ! length p = hd v" using nth_after [of "v @ r" p] v by simp
  consider "key = ''model''" | "key = ''stream''" | "key = ''stream_options''"
    | "key \<notin> {''model'', ''stream'', ''stream_options''}" by auto
  then show ?thesis
  proof cases
    case 1
    with eff show ?thesis
      by (auto simp: inspectField_def field_effect_def scanJSONString_complete)
  next
    case 2
    have "v = ''true'' \<or> v = ''false''" using 2 eff by (auto simp: field_effect_def)
    then have "scanJSONBool (p @ v @ r) (length p) = Inr (v = ''true'', length p + length v)"
      using skipJSONLiteral_complete [of p v r] by (auto simp: scanJSONBool_Inr)
    with 2 eff show ?thesis
      by (auto simp: inspectField_def field_effect_def)
  next
    case 3
    with eff obtain m g where m: "v = CHR ''{'' # m" "object_text (key_effect ''include_usage'') (length p + 1) False m g"
      and t: "t = s\<lparr>HasStreamOptions := True, StreamOptionsObjectStart := int (length p),
                 StreamOptionsHasIncludeUsage := g, StreamOptionsObjectEnd := int (length p + length v)\<rparr>"
      by (auto simp: field_effect_def)
    from key_scan.loop_complete [OF m(2), of "p @ ''{''" r]
    have "objectForKeyLoop (p @ v @ r) ''include_usage'' False (length p + 1) = Inr (g, length p + length v)"
      by (simp add: m(1))
    with 3 t hd m(1) show ?thesis
      by (auto simp: inspectField_def inspectObjectForKey_def)
  next
    case 4
    with eff have "json_value v" by (auto dest: field_effect_value)
    from skip_complete(1) [OF this r, of p] 4 eff hd show ?thesis
      by (auto simp: inspectField_def field_effect_def)
  qed
qed

interpretation top_scan: object_scan topLevelLoop inspectField field_effect
proof (unfold_locales, goal_cases)
  case (1 body s idx u n)
  show ?case
    by (subst topLevelLoop.simps)
       (auto simp: Let_def not_le split: if_splits sum.splits dest: inspectField_progress)
next
  case (2 body idx key s t n)
  then show ?case by (rule inspectField_progress)
next
  case (3 body idx key s t n)
  then show ?case by (rule inspectField_sound)
next
  case (4 p key v s t r)
  then show ?case by (rule inspectField_complete)
next
  case (5 i key v s t)
  then show ?case by (rule field_effect_value)
qed

text \<open>A request: white space, an object, white space.\<close>

definition request_text :: "bytes \<Rightarrow> requestBodyInspection \<Rightarrow> bool" where
  "request_text body info \<longleftrightarrow> (\<exists>w m w'. body = w @ CHR ''{'' # m @ w' \<and> json_ws w \<and> json_ws w' \<and>
     object_text field_effect (length w + 1) emptyInspection m info)"

lemma inspectRequestBody_sound:
  assumes "inspectRequestBody body = Inr info"
  shows "request_text body info"
proof -
  let ?i = "skipJSONWhitespace body 0"
  from assms obtain n where i: "?i < length body" "body ! ?i = CHR ''{''"
    and l: "topLevelLoop body emptyInspection (?i + 1) = Inr (info, n)"
    and e: "skipJSONWhitespace body n = length body"
    by (auto simp: inspectRequestBody_def inspectTopLevelObject_def Let_def not_le split: if_splits sum.splits)
  note s = top_scan.loop_sound [OF l]
  have "body = segment body 0 (length body)" by (simp add: segment_def)
  also have "\<dots> = segment body 0 ?i @ CHR ''{'' # segment body (?i + 1) (length body)"
    using i by (simp add: segment_at [of 0 ?i])
  also have "segment body (?i + 1) (length body) = segment body (?i + 1) n @ segment body n (length body)"
    using s by (simp add: segment_append)
  finally have "body = segment body 0 ?i @ CHR ''{'' # segment body (?i + 1) n @ segment body n (length body)" .
  moreover have "json_ws (segment body 0 ?i)" "json_ws (segment body n (length body))"
    using json_ws_segment [of 0 body] json_ws_segment [of n body] s e by auto
  ultimately show ?thesis
    using s i unfolding request_text_def
    by (intro exI [of _ "segment body 0 ?i"] exI [of _ "segment body (?i + 1) n"] exI [of _ "segment body n (length body)"])
       (simp add: length_segment)
qed

lemma inspectRequestBody_complete:
  assumes "request_text body info"
  shows "inspectRequestBody body = Inr info"
proof -
  from assms obtain w m w' where b: "body = w @ CHR ''{'' # m @ w'" and ws: "json_ws w" "json_ws w'"
    and m: "object_text field_effect (length w + 1) emptyInspection m info"
    by (auto simp: request_text_def)
  have "skipJSONWhitespace body 0 = length w"
    using skipJSONWhitespace_complete [OF ws(1), of "CHR ''{'' # m @ w'" "[]"]
    by (simp add: b no_space_ahead_def isJSONSpace_def)
  moreover have "topLevelLoop body emptyInspection (length w + 1) = Inr (info, length w + 1 + length m)"
    using top_scan.loop_complete [OF m, of "w @ ''{''" w'] by (simp add: b)
  moreover have "skipJSONWhitespace body (length w + 1 + length m) = length body"
    using skipJSONWhitespace_complete [OF ws(2), of "[]" "w @ CHR ''{'' # m"] by (simp add: b no_space_ahead_def)
  ultimately show ?thesis
    by (simp add: inspectRequestBody_def inspectTopLevelObject_def b)
qed

end
