(* ===== verification/Body_Context.thy ===== *)
theory Body_Context
  imports Body_Inspection
begin

text \<open>
  The two views of a request body, \<open>internal/middleware/body.go\<close>: the bytes the client sent
  and the bytes that go upstream, into which \<open>stream_options.include_usage\<close> is injected for
  streaming requests. Slice expressions can panic; the panic is \<^const>\<open>None\<close>, and
  \<open>buildUpstreamBodyFromInspection_total\<close> shows that it never happens on the positions the
  scanner reports. The main result says what the scanner finds in an injected body.
\<close>

section \<open>The operations\<close>

definition jsonSpaces :: "char set" where
  "jsonSpaces = {CHR '' '', CHR 0x09, CHR 0x0D, CHR 0x0A}"

definition streamOptionsField :: bytes where
  "streamOptionsField =
     CHR 0x22 # ''stream_options'' @ [CHR 0x22] @ '':{'' @ [CHR 0x22] @ ''include_usage'' @ [CHR 0x22] @ '':true}''"

definition includeUsageField :: bytes where
  "includeUsageField = CHR 0x22 # ''include_usage'' @ [CHR 0x22] @ '':true''"

text \<open>\<open>ok = false\<close> is \<^const>\<open>None\<close>; the slices are in range because \<open>trimmed\<close> is a non-empty
  prefix of the body.\<close>

definition injectStreamIncludeUsageFast :: "bytes \<Rightarrow> bytes option" where
  "injectStreamIncludeUsageFast rawBody =
     (let trimmed = trimRight rawBody jsonSpaces in
      if length trimmed = 0 \<or> trimmed ! (length trimmed - 1) \<noteq> CHR ''}'' then None
      else if contains trimmed (CHR 0x22 # ''stream_options'' @ [CHR 0x22]) then None
      else Some (take (length trimmed - 1) trimmed @ CHR '','' # streamOptionsField @ [CHR ''}'']
                 @ drop (length trimmed) rawBody))"

definition injectIncludeUsageIntoStreamOptions :: "bytes \<Rightarrow> int \<Rightarrow> int \<Rightarrow> bytes option" where
  "injectIncludeUsageIntoStreamOptions rawBody objectStart objectEnd =
     (let insertAt = objectEnd - 1 in
      if objectStart < 0 \<or> objectStart \<ge> objectEnd \<or> insertAt < 0 \<or> insertAt > int (length rawBody)
      then Some rawBody
      else (case slice rawBody (nat (objectStart + 1)) (nat insertAt) of
              None \<Rightarrow> None
            | Some inner \<Rightarrow>
                (let separator = (if length (trimSpace inner) = 0 then [] else '','') in
                 Some (take (nat insertAt) rawBody @ separator @ includeUsageField
                       @ drop (nat insertAt) rawBody))))"

definition buildUpstreamBody :: "bytes \<Rightarrow> bool \<Rightarrow> (bytes \<times> bool) option" where
  "buildUpstreamBody rawBody isStream =
     (if length rawBody = 0 \<or> \<not> isStream then Some (rawBody, False)
      else (case injectStreamIncludeUsageFast rawBody of
        Some injected \<Rightarrow> Some (injected, True)
      | None \<Rightarrow>
          (case inspectRequestBody rawBody of
             Inl _ \<Rightarrow> Some (rawBody, False)
           | Inr inspection \<Rightarrow>
               if \<not> HasStreamOptions inspection \<or> StreamOptionsHasIncludeUsage inspection
               then Some (rawBody, False)
               else map_option (\<lambda>b. (b, True))
                 (injectIncludeUsageIntoStreamOptions rawBody
                    (StreamOptionsObjectStart inspection) (StreamOptionsObjectEnd inspection)))))"

definition buildUpstreamBodyFromInspection ::
  "bytes \<Rightarrow> requestBodyInspection \<Rightarrow> (bytes \<times> bool) option" where
  "buildUpstreamBodyFromInspection rawBody inspection =
     (if length rawBody = 0 \<or> \<not> Stream inspection then Some (rawBody, False)
      else if \<not> HasStreamOptions inspection then
        (case injectStreamIncludeUsageFast rawBody of
           Some injected \<Rightarrow> Some (injected, True)
         | None \<Rightarrow> Some (rawBody, False))
      else if StreamOptionsHasIncludeUsage inspection
            \<or> StreamOptionsObjectEnd inspection \<le> StreamOptionsObjectStart inspection
      then Some (rawBody, False)
      else map_option (\<lambda>b. (b, True))
        (injectIncludeUsageIntoStreamOptions rawBody
           (StreamOptionsObjectStart inspection) (StreamOptionsObjectEnd inspection)))"

definition extractRequestBodyMeta :: "bytes \<Rightarrow> (scan_error, bytes \<times> bool) result" where
  "extractRequestBodyMeta body =
     andThen (inspectRequestBody body) (\<lambda>inspection. Inr (Model inspection, Stream inspection))"

section \<open>Editing the text of an object\<close>

text \<open>A comma before the closing bracket.\<close>

definition dangling :: "bytes \<Rightarrow> bool" where
  "dangling x \<longleftrightarrow> (\<exists>a w. x = a @ CHR '','' # w \<and> json_ws w)"

lemma otext_last_byte: "object_text effect i s m t \<Longrightarrow> m \<noteq> [] \<and> last m = CHR ''}''"
  by (induction rule: object_text.induct) auto

lemma otext_ends: "object_text effect i s m t \<Longrightarrow> \<exists>x. m = x @ ''}''"
  using otext_last_byte by (metis append_butlast_last_id)

lemma member_not_ws: "string_token k key \<Longrightarrow> \<not> json_ws (member_text w1 k w2 w3 v w4)"
  using string_token_shape by (fastforce simp: member_text_def json_ws_def isJSONSpace_def neq_Nil_conv)

lemma json_ws_append [simp]: "json_ws (a @ b) \<longleftrightarrow> json_ws a \<and> json_ws b"
  by (auto simp: json_ws_def)

lemma otext_blank:
  assumes "object_text effect i s (x @ ''}'') t" "json_ws x"
  shows "t = s"
  using assms(1)
proof (cases rule: object_text.cases)
  case (otext_last w1 k key w2 w3 w4 v)
  then show ?thesis using assms(2) member_not_ws by auto
next
  case (otext_more w1 k key w2 w3 w4 v t' m)
  from otext_ends [OF otext_more(8)] obtain y where "m = y @ ''}''" by blast
  with otext_more(1) have "x = member_text w1 k w2 w3 v w4 @ CHR '','' # y" by simp
  then show ?thesis using assms(2) member_not_ws [OF otext_more(3)] by auto
qed simp

lemma otext_insert_first:
  assumes "json_ws x" "string_token k key" "effect (i + length x + length k + 1) key v s u"
  shows "object_text effect i s (x @ k @ CHR '':'' # v @ ''}'') u"
  using otext_last [of x k key "[]" "[]" "[]" effect i v s u] assms
  by (simp add: member_text_def json_ws_def ac_simps)

lemma otext_insert_last:
  "object_text effect i s m t \<Longrightarrow> m = x @ ''}'' \<Longrightarrow> \<not> json_ws x \<Longrightarrow> \<not> dangling x \<Longrightarrow> string_token k key \<Longrightarrow>
    effect (i + length x + 1 + length k + 1) key v t u \<Longrightarrow>
    object_text effect i s (x @ CHR '','' # k @ CHR '':'' # v @ ''}'') u"
proof (induction arbitrary: x rule: object_text.induct)
  case (otext_close w i s)
  then show ?case by simp
next
  case (otext_last w1 k' key' w2 w3 w4 i v' s t)
  then have "x = member_text w1 k' w2 w3 v' w4" by simp
  with otext_last show ?case
    using otext_insert_first [of "[]" k key effect "i + length x + 1" v t u]
      otext_more [of w1 k' key' w2 w3 w4 effect i v' s t "k @ CHR '':'' # v @ ''}''" u]
    by (simp add: json_ws_def ac_simps)
next
  case (otext_more w1 k' key' w2 w3 w4 i v' s t m u')
  from otext_ends [OF otext_more(7)] obtain y where y: "m = y @ ''}''" by blast
  with otext_more have x: "x = member_text w1 k' w2 w3 v' w4 @ CHR '','' # y" by simp
  have "\<not> json_ws y" "\<not> dangling y"
    using otext_more.prems(3) unfolding x dangling_def by (metis append_Cons append_assoc)+
  with otext_more x y show ?case
    using object_text.otext_more [of w1 k' key' w2 w3 w4 effect i v' s t "y @ CHR '','' # k @ CHR '':'' # v @ ''}''" u]
    by (simp add: ac_simps)
qed

section \<open>Where \<open>stream_options\<close> stands\<close>

lemma key_effect_shift: "object_text (key_effect k) i s m g \<Longrightarrow> object_text (key_effect k) j s m g"
proof (induction arbitrary: j rule: object_text.induct)
  case (otext_more w1 k key w2 w3 w4 i v s t m u)
  then show ?case by (intro object_text.otext_more) (auto simp: key_effect_def)
qed (auto intro: otext_close otext_last simp: key_effect_def)

definition upd_options :: "bool \<Rightarrow> int \<Rightarrow> requestBodyInspection \<Rightarrow> requestBodyInspection" where
  "upd_options g e s = s\<lparr>StreamOptionsHasIncludeUsage := g, StreamOptionsObjectEnd := e\<rparr>"

lemma upd_options_simps [simp]:
  "Model (upd_options g e s) = Model s" "Stream (upd_options g e s) = Stream s"
  "HasStreamOptions (upd_options g e s) = HasStreamOptions s"
  "StreamOptionsHasIncludeUsage (upd_options g e s) = g"
  "StreamOptionsObjectStart (upd_options g e s) = StreamOptionsObjectStart s"
  "StreamOptionsObjectEnd (upd_options g e s) = e"
  by (simp_all add: upd_options_def)

text \<open>A text without a \<open>stream_options\<close> member, and one whose last such member is the object
  between \<open>a\<close> and \<open>b\<close>, which may be replaced.\<close>

definition no_options :: "requestBodyInspection \<Rightarrow> bytes \<Rightarrow> requestBodyInspection \<Rightarrow> bool" where
  "no_options s m t \<longleftrightarrow> HasStreamOptions t = HasStreamOptions s \<and>
     StreamOptionsObjectStart t = StreamOptionsObjectStart s \<and> StreamOptionsObjectEnd t = StreamOptionsObjectEnd s \<and>
     StreamOptionsHasIncludeUsage t = StreamOptionsHasIncludeUsage s \<and>
     (\<forall>j g e. object_text field_effect j (upd_options g e s) m (upd_options g e t))"

definition options_at ::
  "nat \<Rightarrow> requestBodyInspection \<Rightarrow> bytes \<Rightarrow> bytes \<Rightarrow> bytes \<Rightarrow> requestBodyInspection \<Rightarrow> bool" where
  "options_at i s a x b t \<longleftrightarrow> HasStreamOptions t \<and>
     StreamOptionsObjectStart t = int (i + length a) \<and> StreamOptionsObjectEnd t = int (i + length a + length x + 2) \<and>
     object_text (key_effect ''include_usage'') 0 False (x @ ''}'') (StreamOptionsHasIncludeUsage t) \<and>
     (\<forall>y g. object_text (key_effect ''include_usage'') 0 False (y @ ''}'') g \<longrightarrow>
        object_text field_effect i s (a @ CHR ''{'' # y @ CHR ''}'' # b)
          (upd_options g (int (i + length a + length y + 2)) t))"

lemma field_effect_other:
  assumes "field_effect i key v s t" "key \<noteq> ''stream_options''"
  shows "field_effect j key v (upd_options g e s) (upd_options g e t)"
    and "HasStreamOptions t = HasStreamOptions s" "StreamOptionsObjectStart t = StreamOptionsObjectStart s"
    and "StreamOptionsObjectEnd t = StreamOptionsObjectEnd s"
    and "StreamOptionsHasIncludeUsage t = StreamOptionsHasIncludeUsage s"
  using assms by (auto simp: field_effect_def upd_options_def split: if_splits)

lemma field_effect_options:
  "field_effect i ''stream_options'' v s t \<longleftrightarrow>
    (\<exists>x g. v = CHR ''{'' # x @ ''}'' \<and> object_text (key_effect ''include_usage'') 0 False (x @ ''}'') g \<and>
       t = s\<lparr>HasStreamOptions := True, StreamOptionsObjectStart := int i,
             StreamOptionsHasIncludeUsage := g, StreamOptionsObjectEnd := int (i + length x + 2)\<rparr>)"
proof
  assume "field_effect i ''stream_options'' v s t"
  then obtain m g where v: "v = CHR ''{'' # m" and m: "object_text (key_effect ''include_usage'') (i + 1) False m g"
    and t: "t = s\<lparr>HasStreamOptions := True, StreamOptionsObjectStart := int i,
             StreamOptionsHasIncludeUsage := g, StreamOptionsObjectEnd := int (i + length v)\<rparr>"
    by (auto simp: field_effect_def)
  from otext_ends [OF m] obtain x where x: "m = x @ ''}''" by blast
  have "t = s\<lparr>HasStreamOptions := True, StreamOptionsObjectStart := int i,
             StreamOptionsHasIncludeUsage := g, StreamOptionsObjectEnd := int (i + length x + 2)\<rparr>"
    by (simp add: t v x)
  with v x key_effect_shift [OF m, of 0] show "\<exists>x g. v = CHR ''{'' # x @ ''}'' \<and>
      object_text (key_effect ''include_usage'') 0 False (x @ ''}'') g \<and>
      t = s\<lparr>HasStreamOptions := True, StreamOptionsObjectStart := int i,
             StreamOptionsHasIncludeUsage := g, StreamOptionsObjectEnd := int (i + length x + 2)\<rparr>"
    by blast
next
  assume "\<exists>x g. v = CHR ''{'' # x @ ''}'' \<and> object_text (key_effect ''include_usage'') 0 False (x @ ''}'') g \<and>
       t = s\<lparr>HasStreamOptions := True, StreamOptionsObjectStart := int i,
             StreamOptionsHasIncludeUsage := g, StreamOptionsObjectEnd := int (i + length x + 2)\<rparr>"
  then obtain x g where v: "v = CHR ''{'' # x @ ''}''" and m: "object_text (key_effect ''include_usage'') 0 False (x @ ''}'') g"
    and t: "t = s\<lparr>HasStreamOptions := True, StreamOptionsObjectStart := int i,
             StreamOptionsHasIncludeUsage := g, StreamOptionsObjectEnd := int (i + length x + 2)\<rparr>"
    by blast
  have "t = s\<lparr>HasStreamOptions := True, StreamOptionsObjectStart := int i,
             StreamOptionsHasIncludeUsage := g, StreamOptionsObjectEnd := int (i + length v)\<rparr>"
    by (simp add: t v)
  with v key_effect_shift [OF m, of "i + 1"] show "field_effect i ''stream_options'' v s t"
    unfolding field_effect_def by auto
qed

lemma no_options_more:
  assumes "json_ws w1" "string_token k key" "json_ws w2" "json_ws w3" "json_ws w4" "key \<noteq> ''stream_options''"
    and eff: "field_effect i key v s t" and rest: "no_options t m u"
  shows "no_options s (member_text w1 k w2 w3 v w4 @ CHR '','' # m) u"
proof -
  note o = field_effect_other [OF eff assms(6)]
  have "object_text field_effect j (upd_options g e s) (member_text w1 k w2 w3 v w4 @ CHR '','' # m) (upd_options g e u)"
    for j g e
    using assms(1-5) o(1) rest by (intro otext_more) (auto simp: no_options_def)
  with o(2-5) rest show ?thesis by (simp add: no_options_def)
qed

lemma no_options_last:
  assumes "json_ws w1" "string_token k key" "json_ws w2" "json_ws w3" "json_ws w4" "key \<noteq> ''stream_options''"
    and eff: "field_effect i key v s t"
  shows "no_options s (member_text w1 k w2 w3 v w4 @ ''}'') t"
  using field_effect_other [OF eff assms(6)] assms(1-5) by (auto simp: no_options_def intro: otext_last)

lemma options_at_here:
  assumes "json_ws w1" "string_token k ''stream_options''" "json_ws w2" "json_ws w3" "json_ws w4"
    and eff: "field_effect (i + length (w1 @ k @ w2 @ '':'' @ w3)) ''stream_options'' v s t"
    and rest: "c = ''}'' \<and> u = t \<or> (\<exists>m. c = CHR '','' # m \<and> no_options t m u)"
  shows "\<exists>a x b. member_text w1 k w2 w3 v w4 @ c = a @ CHR ''{'' # x @ CHR ''}'' # b \<and> options_at i s a x b u"
proof -
  let ?a = "w1 @ k @ w2 @ '':'' @ w3"
  from eff obtain x g where v: "v = CHR ''{'' # x @ ''}''"
    and x: "object_text (key_effect ''include_usage'') 0 False (x @ ''}'') g"
    and t: "t = s\<lparr>HasStreamOptions := True, StreamOptionsObjectStart := int (i + length ?a),
             StreamOptionsHasIncludeUsage := g, StreamOptionsObjectEnd := int (i + length ?a + length x + 2)\<rparr>"
    unfolding field_effect_options by blast
  have u: "HasStreamOptions u = HasStreamOptions t" "StreamOptionsObjectStart u = StreamOptionsObjectStart t"
    "StreamOptionsObjectEnd u = StreamOptionsObjectEnd t"
    "StreamOptionsHasIncludeUsage u = StreamOptionsHasIncludeUsage t"
    using rest by (auto simp: no_options_def)
  have "object_text field_effect i s (?a @ CHR ''{'' # y @ CHR ''}'' # w4 @ c)
          (upd_options h (int (i + length ?a + length y + 2)) u)"
    if y: "object_text (key_effect ''include_usage'') 0 False (y @ ''}'') h" for y h
  proof -
    have e: "field_effect (i + length ?a) ''stream_options'' (CHR ''{'' # y @ ''}'') s
        (upd_options h (int (i + length ?a + length y + 2)) t)"
      unfolding field_effect_options using y by (auto simp: t upd_options_def)
    have m: "?a @ CHR ''{'' # y @ CHR ''}'' # w4 @ c = member_text w1 k w2 w3 (CHR ''{'' # y @ ''}'') w4 @ c"
      by (simp add: member_text_def)
    from rest show ?thesis
      unfolding m using assms(1-5) e
      by (auto simp: no_options_def intro: otext_last intro!: otext_more)
  qed
  then have "options_at i s ?a x (w4 @ c) u"
    using x by (simp add: options_at_def u t)
  moreover have "member_text w1 k w2 w3 v w4 @ c = ?a @ CHR ''{'' # x @ CHR ''}'' # w4 @ c"
    by (simp add: v member_text_def)
  ultimately show ?thesis by blast
qed

lemma options_at_later:
  assumes "json_ws w1" "string_token k key" "json_ws w2" "json_ws w3" "json_ws w4"
    and eff: "field_effect (i + length (w1 @ k @ w2 @ '':'' @ w3)) key v s t"
    and rest: "options_at (i + length (member_text w1 k w2 w3 v w4) + 1) t a x b u"
  shows "options_at i s (member_text w1 k w2 w3 v w4 @ CHR '','' # a) x b u"
proof -
  have "object_text field_effect i s ((member_text w1 k w2 w3 v w4 @ CHR '','' # a) @ CHR ''{'' # y @ CHR ''}'' # b)
       (upd_options g (int (i + length (member_text w1 k w2 w3 v w4 @ CHR '','' # a) + length y + 2)) u)"
    if "object_text (key_effect ''include_usage'') 0 False (y @ ''}'') g" for y g
  proof -
    have "i + length (member_text w1 k w2 w3 v w4 @ CHR '','' # a) + length y + 2
        = i + length (member_text w1 k w2 w3 v w4) + 1 + length a + length y + 2" by simp
    with rest that otext_more [where effect = field_effect, OF assms(1-5) eff, of "a @ CHR ''{'' # y @ CHR ''}'' # b"]
    show ?thesis unfolding options_at_def by simp
  qed
  with rest show ?thesis by (simp add: options_at_def ac_simps)
qed

lemma options_cases:
  assumes "object_text field_effect i s m t"
  shows "no_options s m t \<or> (\<exists>a x b. m = a @ CHR ''{'' # x @ CHR ''}'' # b \<and> options_at i s a x b t)"
  using assms
proof (induction rule: object_text.induct)
  case (otext_close w i s)
  then show ?case by (auto simp: no_options_def intro: object_text.otext_close)
next
  case (otext_last w1 k key w2 w3 w4 i v s t)
  then show ?case
    using no_options_last [of w1 k key w2 w3 w4] options_at_here [of w1 k w2 w3 w4 i v s t "''}''" t]
    by (cases "key = ''stream_options''") blast+
next
  case (otext_more w1 k key w2 w3 w4 i v s t m u)
  note mem = otext_more(1-6)
  from otext_more.IH show ?case
  proof (elim disjE exE conjE)
    assume "no_options t m u"
    then show ?thesis
      using mem no_options_more [of w1 k key w2 w3 w4 _ v s t m u]
        options_at_here [of w1 k w2 w3 w4 i v s t "CHR '','' # m" u]
      by (cases "key = ''stream_options''") blast+
  next
    fix a x b
    assume "m = a @ CHR ''{'' # x @ CHR ''}'' # b"
      "options_at (i + length (member_text w1 k w2 w3 v w4) + 1) t a x b u"
    then show ?thesis
      using options_at_later [OF mem] by (intro disjI2 exI conjI) auto
  qed
qed

section \<open>White space around the insertion point\<close>

lemma jsonSpaces_iff: "c \<in> jsonSpaces \<longleftrightarrow> isJSONSpace c"
  by (auto simp: jsonSpaces_def isJSONSpace_def)

lemma trimRight_json_ws:
  "json_ws w \<Longrightarrow> \<not> isJSONSpace c \<Longrightarrow> trimRight (a @ c # w) jsonSpaces = a @ [c]"
  by (simp add: trimRight_def jsonSpaces_iff json_ws_def dropWhile_append3 list_all_iff)

lemma strip_front_json_ws: "json_ws x \<Longrightarrow> strip_front space_encodings x = []"
proof (induction x)
  case (Cons c x)
  then have c: "isJSONSpace c" and x: "json_ws x" by (auto simp: json_ws_def)
  have "find (\<lambda>e. e \<noteq> [] \<and> hasPrefix (c # x) e) space_encodings = Some [c]"
    using c unfolding isJSONSpace_def by (elim disjE) (simp_all add: space_encodings_def hasPrefix_def)
  then show ?case using Cons.IH x by (simp add: strip_front.simps [of _ "c # x"])
qed simp

lemma trimSpace_json_ws: "json_ws x \<Longrightarrow> trimSpace x = []"
  by (simp add: trimSpace_def trimSpaceLeft_def trimSpaceRight_def strip_front_json_ws)

lemma strip_front_keeps:
  "c \<in> set x \<Longrightarrow> c \<notin> \<Union> (set ` set es) \<Longrightarrow> c \<in> set (strip_front es x)"
proof (induction es x rule: strip_front.induct)
  case (1 es x)
  show ?case
  proof (cases "find (\<lambda>e. e \<noteq> [] \<and> hasPrefix x e) es")
    case None
    with 1 show ?thesis by (simp add: strip_front.simps [of es x])
  next
    case (Some e)
    then have "e \<in> set es" and e: "\<exists>y. x = e @ y" by (auto simp: find_Some_iff hasPrefix_iff)
    with 1 have "c \<in> set (drop (length e) x)" by auto
    with 1 Some show ?thesis by (simp add: strip_front.simps [of es x])
  qed
qed

lemma trimSpace_quote: "CHR 0x22 \<in> set x \<Longrightarrow> trimSpace x \<noteq> []"
proof -
  assume x: "CHR 0x22 \<in> set x"
  have "CHR 0x22 \<notin> \<Union> (set ` set space_encodings)" "CHR 0x22 \<notin> \<Union> (set ` set (map rev space_encodings))"
    by (simp_all add: space_encodings_def)
  with x have "CHR 0x22 \<in> set (trimSpace x)"
    unfolding trimSpace_def trimSpaceLeft_def trimSpaceRight_def by (simp add: strip_front_keeps)
  then show ?thesis by auto
qed

lemma member_quote: "string_token k key \<Longrightarrow> CHR 0x22 \<in> set (member_text w1 k w2 w3 v w4)"
  using string_token_shape [of k key] hd_in_set [of k] by (auto simp: member_text_def)

lemma otext_quote:
  assumes "object_text effect i s (x @ ''}'') t" "\<not> json_ws x"
  shows "CHR 0x22 \<in> set x"
  using assms(1)
proof (cases rule: object_text.cases)
  case (otext_last w1 k key w2 w3 w4 v)
  then show ?thesis using member_quote by auto
next
  case (otext_more w1 k key w2 w3 w4 v t' m)
  from otext_ends [OF otext_more(8)] obtain y where "m = y @ ''}''" by blast
  with otext_more(1) have "x = member_text w1 k w2 w3 v w4 @ CHR '','' # y" by simp
  then show ?thesis using member_quote [OF otext_more(3)] by auto
qed (use assms(2) in simp)

text \<open>The last byte before position \<open>i\<close>, white space aside, is a comma.\<close>

definition comma_before :: "bytes \<Rightarrow> nat \<Rightarrow> bool" where
  "comma_before body i \<longleftrightarrow> hasSuffix (trimRight (take i body) jsonSpaces) '',''"

lemma dangling_comma_before: "dangling x \<Longrightarrow> comma_before (p @ x @ r) (length p + length x)"
  unfolding dangling_def comma_before_def
proof (elim exE conjE)
  fix a w assume x: "x = a @ CHR '','' # w" and w: "json_ws w"
  have "trimRight (take (length p + length x) (p @ x @ r)) jsonSpaces = (p @ a) @ '',''"
    using trimRight_json_ws [OF w, of "CHR '',''" "p @ a"] by (simp add: x isJSONSpace_def)
  then show "hasSuffix (trimRight (take (length p + length x) (p @ x @ r)) jsonSpaces) '',''"
    by (simp add: hasSuffix_def)
qed

section \<open>Reading back an injected body\<close>

definition insertionPoint :: "bytes \<Rightarrow> requestBodyInspection \<Rightarrow> nat" where
  "insertionPoint rawBody info =
     (if HasStreamOptions info then nat (StreamOptionsObjectEnd info - 1)
      else length (trimRight rawBody jsonSpaces) - 1)"

lemma include_usage_token:
  "string_token (CHR 0x22 # ''include_usage'' @ [CHR 0x22]) ''include_usage''"
  "string_token (CHR 0x22 # ''stream_options'' @ [CHR 0x22]) ''stream_options''"
  by (auto simp: string_token_def)

lemma true_effect: "key_effect k i k ''true'' s True"
  by (simp add: key_effect_def value_literal)

lemma options_value_effect:
  "field_effect i ''stream_options'' (CHR ''{'' # includeUsageField @ ''}'') s
     (s\<lparr>HasStreamOptions := True, StreamOptionsObjectStart := int i,
        StreamOptionsHasIncludeUsage := True, StreamOptionsObjectEnd := int (i + length includeUsageField + 2)\<rparr>)"
proof -
  have "object_text (key_effect ''include_usage'') 0 False (includeUsageField @ ''}'') True"
    using otext_insert_first [of "[]" _ _ "key_effect ''include_usage''" 0 "''true''", OF _ include_usage_token(1) true_effect]
    by (simp add: json_ws_def includeUsageField_def)
  then show ?thesis unfolding field_effect_options by blast
qed

lemma injectFast_text:
  assumes rt: "request_text raw info" and st: "Stream info" and no: "\<not> HasStreamOptions info"
    and inj: "injectStreamIncludeUsageFast raw = Some up" and comma: "\<not> comma_before raw (insertionPoint raw info)"
  shows "\<exists>info'. request_text up info' \<and> Model info' = Model info \<and> Stream info' \<and> HasStreamOptions info' \<and>
    StreamOptionsHasIncludeUsage info'"
proof -
  from rt obtain w m w' where raw: "raw = w @ CHR ''{'' # m @ w'" and ws: "json_ws w" "json_ws w'"
    and m: "object_text field_effect (length w + 1) emptyInspection m info"
    by (auto simp: request_text_def)
  from otext_ends [OF m] obtain x where x: "m = x @ ''}''" by blast
  have trim: "trimRight raw jsonSpaces = w @ CHR ''{'' # x @ ''}''"
    using trimRight_json_ws [OF ws(2), of "CHR ''}''" "w @ CHR ''{'' # x"] by (simp add: raw x isJSONSpace_def)
  have nb: "\<not> json_ws x"
    using otext_blank [of field_effect "length w + 1" emptyInspection x info] m st by (auto simp: x emptyInspection_def)
  have "insertionPoint raw info = length (w @ ''{'') + length x"
    by (simp add: insertionPoint_def trim no)
  then have nd: "\<not> dangling x"
    using comma dangling_comma_before [of x "w @ ''{''" "CHR ''}'' # w'"] by (auto simp: raw x)
  define k :: bytes where "k = CHR 0x22 # ''stream_options'' @ [CHR 0x22]"
  define v :: bytes where "v = CHR ''{'' # includeUsageField @ ''}''"
  define j where "j = length w + 1 + length x + 1 + length k + 1"
  define info' where "info' = info\<lparr>HasStreamOptions := True, StreamOptionsObjectStart := int j,
    StreamOptionsHasIncludeUsage := True, StreamOptionsObjectEnd := int (j + length includeUsageField + 2)\<rparr>"
  have info': "Model info' = Model info" "Stream info' = Stream info" "HasStreamOptions info'" "StreamOptionsHasIncludeUsage info'"
    by (simp_all add: info'_def)
  have e: "field_effect (length w + 1 + length x + 1 + length k + 1) ''stream_options'' v info info'"
    unfolding j_def [symmetric] v_def info'_def by (rule options_value_effect)
  have "object_text field_effect (length w + 1) emptyInspection (x @ CHR '','' # k @ CHR '':'' # v @ ''}'') info'"
    using otext_insert_last [of field_effect "length w + 1" emptyInspection m info x k "''stream_options''" v info']
      m x nb nd include_usage_token(2) [folded k_def] e by blast
  moreover have "up = w @ CHR ''{'' # (x @ CHR '','' # k @ CHR '':'' # v @ ''}'') @ w'"
    using inj unfolding injectStreamIncludeUsageFast_def trim
    by (simp add: raw x k_def v_def streamOptionsField_def includeUsageField_def Let_def split: if_splits)
  ultimately show ?thesis
    using ws st info' unfolding request_text_def by blast
qed

lemma include_usage_inserted:
  assumes x: "object_text (key_effect ''include_usage'') 0 False (x @ ''}'') False" and nd: "\<not> dangling x"
  shows "object_text (key_effect ''include_usage'') 0 False
    ((x @ (if length (trimSpace x) = 0 then [] else '','') @ includeUsageField) @ ''}'') True"
proof -
  define k :: bytes where "k = CHR 0x22 # ''include_usage'' @ [CHR 0x22]"
  note tok = include_usage_token(1) [folded k_def]
  show ?thesis
  proof (cases "json_ws x")
    case True
    with otext_insert_first [of x k "''include_usage''" "key_effect ''include_usage''" 0 "''true''" False True] tok
    show ?thesis by (simp add: trimSpace_json_ws true_effect k_def includeUsageField_def)
  next
    case False
    then have "trimSpace x \<noteq> []" using otext_quote [OF x] trimSpace_quote by auto
    with False nd x tok
      otext_insert_last [of "key_effect ''include_usage''" 0 False "x @ ''}''" False x k "''include_usage''" "''true''" True]
    show ?thesis by (simp add: true_effect k_def includeUsageField_def)
  qed
qed

lemma injectOptions_text:
  assumes rt: "request_text raw info" and has: "HasStreamOptions info" and not: "\<not> StreamOptionsHasIncludeUsage info"
  shows "\<exists>up. injectIncludeUsageIntoStreamOptions raw (StreamOptionsObjectStart info) (StreamOptionsObjectEnd info) = Some up \<and>
    (\<not> comma_before raw (insertionPoint raw info) \<longrightarrow>
     (\<exists>info'. request_text up info' \<and> Model info' = Model info \<and> Stream info' = Stream info \<and> HasStreamOptions info' \<and>
        StreamOptionsHasIncludeUsage info'))"
proof -
  from rt obtain w m w' where raw: "raw = w @ CHR ''{'' # m @ w'" and ws: "json_ws w" "json_ws w'"
    and m: "object_text field_effect (length w + 1) emptyInspection m info"
    by (auto simp: request_text_def)
  have "\<not> no_options emptyInspection m info" using has by (auto simp: no_options_def emptyInspection_def)
  with options_cases [OF m] obtain a x b where mx: "m = a @ CHR ''{'' # x @ CHR ''}'' # b"
    and opt: "options_at (length w + 1) emptyInspection a x b info" by blast
  define p where "p = w @ CHR ''{'' # a @ ''{''"
  have pos: "StreamOptionsObjectStart info = int (length p) - 1" "StreamOptionsObjectEnd info = int (length p + length x) + 1"
    using opt by (simp_all add: options_at_def p_def)
  have raw': "raw = p @ x @ CHR ''}'' # b @ w'" by (simp add: raw mx p_def)
  have x: "object_text (key_effect ''include_usage'') 0 False (x @ ''}'') False"
    using opt not by (simp add: options_at_def)
  define sep :: bytes where "sep = (if length (trimSpace x) = 0 then [] else '','')"
  have inner: "slice raw (length p) (length p + length x) = Some x"
    by (simp add: slice_def raw')
  have "injectIncludeUsageIntoStreamOptions raw (StreamOptionsObjectStart info) (StreamOptionsObjectEnd info)
      = Some (p @ x @ sep @ includeUsageField @ CHR ''}'' # b @ w')"
    using inner by (simp add: injectIncludeUsageIntoStreamOptions_def pos Let_def sep_def nat_add_distrib) (simp add: raw' p_def)
  moreover have "\<exists>info'. request_text (p @ x @ sep @ includeUsageField @ CHR ''}'' # b @ w') info' \<and>
      Model info' = Model info \<and> Stream info' = Stream info \<and> HasStreamOptions info' \<and> StreamOptionsHasIncludeUsage info'"
    if comma: "\<not> comma_before raw (insertionPoint raw info)"
  proof -
    have "insertionPoint raw info = length p + length x" using has by (simp add: insertionPoint_def pos)
    then have nd: "\<not> dangling x" using comma dangling_comma_before [of x p "CHR ''}'' # b @ w'"] by (auto simp: raw')
    have y: "object_text (key_effect ''include_usage'') 0 False ((x @ sep @ includeUsageField) @ ''}'') True"
      unfolding sep_def by (rule include_usage_inserted [OF x nd])
    let ?info = "upd_options True (int (length w + 1 + length a + length (x @ sep @ includeUsageField) + 2)) info"
    have "object_text field_effect (length w + 1) emptyInspection
        (a @ CHR ''{'' # (x @ sep @ includeUsageField) @ CHR ''}'' # b) ?info"
      using opt y unfolding options_at_def by blast
    then have "request_text (p @ x @ sep @ includeUsageField @ CHR ''}'' # b @ w') ?info"
      unfolding request_text_def using ws
      by (intro exI [of _ w] exI [of _ "a @ CHR ''{'' # (x @ sep @ includeUsageField) @ CHR ''}'' # b"] exI [of _ w'])
         (simp add: p_def)
    then show ?thesis using has by (intro exI [of _ ?info]) simp
  qed
  ultimately show ?thesis by blast
qed

section \<open>Properties\<close>

lemma inspected_text: "inspectRequestBody body = Inr info \<longleftrightarrow> request_text body info"
  using inspectRequestBody_sound inspectRequestBody_complete by blast

lemma inspected_body_total:
  assumes "inspectRequestBody rawBody = Inr info"
  shows "\<exists>r. buildUpstreamBodyFromInspection rawBody info = Some r"
  using assms injectOptions_text [of rawBody info]
  by (auto simp: buildUpstreamBodyFromInspection_def inspected_text split: option.split)

text \<open>Building the upstream body never panics: every slice expression is in range on the
  positions that the inspection of the same body reports.\<close>

theorem buildUpstreamBodyFromInspection_total:
  assumes "inspectRequestBody rawBody = Inr info"
  shows "\<exists>r. buildUpstreamBodyFromInspection rawBody info = Some r"
  using assms by (rule inspected_body_total)

theorem buildUpstreamBodyFromInspection_total_witness:
  "\<exists>r. buildUpstreamBodyFromInspection (CHR ''{'' # CHR 0x22 # ''stream'' @ CHR 0x22 # '':true}'')
      (emptyInspection\<lparr>Stream := True\<rparr>) = Some r"
  by (rule buildUpstreamBodyFromInspection_total) code_simp



text \<open>Without that condition the injected body can be one that the scanner itself rejects: the
  scanner accepts a comma before the closing brace, and the injection then writes a second comma
  next to it.\<close>

theorem injection_after_trailing_comma:
  "let raw = CHR ''{'' # CHR 0x22 # ''stream'' @ CHR 0x22 # '':true,}'';
       up = CHR ''{'' # CHR 0x22 # ''stream'' @ CHR 0x22 # '':true,,'' @ streamOptionsField @ ''}'' in
   inspectRequestBody raw = Inr (emptyInspection\<lparr>Stream := True\<rparr>) \<and>
   buildUpstreamBodyFromInspection raw (emptyInspection\<lparr>Stream := True\<rparr>) = Some (up, True) \<and>
   inspectRequestBody up = Inl ExpectedString"
  by code_simp

text \<open>C1. The inspection is exact: it succeeds with a given result precisely on the texts of the
  request grammar (an object surrounded by white space, its known members of the required JSON
  types) that carry this result.\<close>

theorem inspectRequestBody_exact: "inspectRequestBody body = Inr info \<longleftrightarrow> request_text body info"
  using inspectRequestBody_sound inspectRequestBody_complete by blast

text \<open>Two escapes of JSON that \<open>strconv.Unquote\<close> does not know make a well-formed request
  fail: an escaped slash, and a character outside the basic plane written as a surrogate pair.\<close>

theorem json_escapes_rejected:
  "inspectRequestBody (CHR ''{'' # CHR 0x22 # ''model'' @ CHR 0x22 # '':'' @ CHR 0x22 # ''a'' @ CHR 0x5C # ''/b'' @ CHR 0x22 # ''}'')
     = Inl (ModelMustBeString UnquoteSyntax) \<and>
   inspectRequestBody (CHR ''{'' # CHR 0x22 # ''x'' @ CHR 0x22 # '':'' @ CHR 0x22 # CHR 0x5C # ''ud83d'' @ CHR 0x5C # ''ude00'' @ CHR 0x22 # ''}'')
     = Inl UnquoteSyntax"
  by code_simp

end
