(* ===== verification/Limiter.thy ===== *)
theory Limiter
  imports Go_Strings Complex_Main
begin

text \<open>
  The in-memory rate limiter, \<open>internal/middleware/local_limiter.go\<close>: one token bucket per key, a
  time to live for idle buckets and a sweep every 1024 calls. An instant has a wall-clock and a
  monotonic reading in nanoseconds, as \<open>time.Time\<close>. A \<open>float64\<close> is a rational and every
  arithmetic result goes through a rounding function, a parameter; \<open>rounding\<close> states what is used
  of it: it is monotone and exact on the small integers.
\<close>

section \<open>State and operations\<close>

record instant =
  t_wall :: int
  t_mono :: int

definition localLimiterBucketTTL :: int where "localLimiterBucketTTL = 600000000000"
definition localLimiterCleanupInterval :: nat where "localLimiterCleanupInterval = 1024"

record localTokenBucket =
  tb_rate :: rat
  tb_burst :: rat
  tb_tokens :: rat
  tb_last :: instant
  tb_lastSeen :: int

record keyedLocalLimiter =
  buckets :: "bytes \<Rightarrow> localTokenBucket option"
  calls :: nat

definition newKeyedLocalLimiter :: keyedLocalLimiter where
  "newKeyedLocalLimiter = \<lparr>buckets = (\<lambda>_. None), calls = 0\<rparr>"

definition newLocalTokenBucket :: "rat \<Rightarrow> int \<Rightarrow> instant \<Rightarrow> localTokenBucket" where
  "newLocalTokenBucket rate burst now =
     \<lparr>tb_rate = rate, tb_burst = of_int burst, tb_tokens = of_int burst, tb_last = now, tb_lastSeen = t_wall now\<rparr>"

text \<open>\<open>now.Sub(last).Seconds()\<close>: whole seconds plus the rounded fraction; integer division truncates.\<close>

definition elapsedSeconds :: "(rat \<Rightarrow> rat) \<Rightarrow> int \<Rightarrow> rat" where
  "elapsedSeconds rnd d =
     (let sec = (if 0 \<le> d then d div 1000000000 else - ((- d) div 1000000000)); nsec = d - sec * 1000000000
      in rnd (of_int sec + rnd (of_int nsec / 1000000000)))"

definition setRate :: "rat \<Rightarrow> int \<Rightarrow> localTokenBucket \<Rightarrow> localTokenBucket" where
  "setRate rate burst b =
     (let b = (if rate > 0 then b\<lparr>tb_rate := rate\<rparr> else b) in
      if burst > 0 then
        (let newBurst = of_int burst in
         if newBurst \<noteq> tb_burst b then
           (let b = (if newBurst > tb_burst b then b\<lparr>tb_tokens := newBurst\<rparr> else b);
                b = b\<lparr>tb_burst := newBurst\<rparr>
            in if tb_tokens b > tb_burst b then b\<lparr>tb_tokens := tb_burst b\<rparr> else b)
         else b)
      else b)"

definition refill :: "(rat \<Rightarrow> rat) \<Rightarrow> instant \<Rightarrow> localTokenBucket \<Rightarrow> localTokenBucket" where
  "refill rnd now b =
     (let elapsed = elapsedSeconds rnd (t_mono now - t_mono (tb_last b));
          tokens = rnd (tb_tokens b + rnd (elapsed * tb_rate b))
      in b\<lparr>tb_last := now, tb_lastSeen := t_wall now,
           tb_tokens := (if tokens > tb_burst b then tb_burst b else tokens)\<rparr>)"

definition bucketAllow ::
  "(rat \<Rightarrow> rat) \<Rightarrow> rat \<Rightarrow> int \<Rightarrow> instant \<Rightarrow> localTokenBucket \<Rightarrow> bool \<times> localTokenBucket" where
  "bucketAllow rnd rate burst now b =
     (let b = refill rnd now (setRate rate burst b) in
      if tb_tokens b < 1 then (False, b)
      else (True, b\<lparr>tb_tokens := rnd (tb_tokens b - 1)\<rparr>))"

definition bucketExpired :: "localTokenBucket option \<Rightarrow> instant \<Rightarrow> bool" where
  "bucketExpired bucket now =
     (case bucket of
        None \<Rightarrow> True
      | Some b \<Rightarrow>
          if tb_lastSeen b = 0 then False
          else t_wall now - tb_lastSeen b > localLimiterBucketTTL)"

text \<open>The counter is a \<open>uint64\<close>.\<close>

definition maybeCleanup :: "instant \<Rightarrow> keyedLocalLimiter \<Rightarrow> keyedLocalLimiter" where
  "maybeCleanup now l =
     (let n = (calls l + 1) mod 2 ^ 64; l = l\<lparr>calls := n\<rparr> in
      if n mod localLimiterCleanupInterval \<noteq> 0 then l
      else (let cutoff = t_wall now - localLimiterBucketTTL in
            l\<lparr>buckets := (\<lambda>key. case buckets l key of
                 None \<Rightarrow> None
               | Some b \<Rightarrow> if tb_lastSeen b < cutoff then None else Some b)\<rparr>))"

definition limiterAllow ::
  "(rat \<Rightarrow> rat) \<Rightarrow> instant \<Rightarrow> bytes \<Rightarrow> rat \<Rightarrow> int \<Rightarrow> keyedLocalLimiter \<Rightarrow> bool \<times> keyedLocalLimiter" where
  "limiterAllow rnd now key rate burst l =
     (let l = maybeCleanup now l;
          bucket = (if bucketExpired (buckets l key) now then newLocalTokenBucket rate burst now
                    else the (buckets l key));
          (ok, bucket') = bucketAllow rnd rate burst now bucket
      in (ok, l\<lparr>buckets := (buckets l)(key \<mapsto> bucket')\<rparr>))"

section \<open>Rounding\<close>

definition rounding :: "(rat \<Rightarrow> rat) \<Rightarrow> bool" where
  "rounding rnd \<longleftrightarrow> (\<forall>x y. x \<le> y \<longrightarrow> rnd x \<le> rnd y) \<and> (\<forall>n. \<bar>n\<bar> \<le> 2 ^ 53 \<longrightarrow> rnd (of_int n) = of_int n)"

lemma rounding_id: "rounding (\<lambda>x. x)"
  by (simp add: rounding_def)

lemma rounding_mono: "rounding rnd \<Longrightarrow> x \<le> y \<Longrightarrow> rnd x \<le> rnd y"
  by (simp add: rounding_def)

lemma rounding_0: "rounding rnd \<Longrightarrow> rnd 0 = 0"
  unfolding rounding_def using of_int_0 by (metis abs_0 zero_le_numeral zero_le_power)

lemma rounding_1: "rounding rnd \<Longrightarrow> rnd 1 = 1"
proof -
  assume "rounding rnd"
  then have "\<bar>1::int\<bar> \<le> 2 ^ 53 \<longrightarrow> rnd (of_int 1) = of_int 1" unfolding rounding_def by blast
  then show ?thesis by simp
qed

lemma rounding_nonneg: "rounding rnd \<Longrightarrow> 0 \<le> x \<Longrightarrow> 0 \<le> rnd x"
  using rounding_mono [of rnd 0 x] by (simp add: rounding_0)

lemma rounding_ge_1: "rounding rnd \<Longrightarrow> 1 \<le> x \<Longrightarrow> 1 \<le> rnd x"
  using rounding_mono [of rnd 1 x] by (simp add: rounding_1)

lemma elapsed_exact: "elapsedSeconds (\<lambda>x. x) d = of_int d / 1000000000"
  by (simp add: elapsedSeconds_def Let_def field_simps)

lemma elapsed_nonneg:
  assumes "rounding rnd" "0 \<le> d"
  shows "0 \<le> elapsedSeconds rnd d"
proof -
  let ?sec = "d div 1000000000"
  have "0 \<le> d - ?sec * 1000000000" by (simp add: minus_div_mult_eq_mod)
  then have "0 \<le> rnd (of_int (d - ?sec * 1000000000) / 1000000000)"
    by (intro rounding_nonneg [OF assms(1)]) simp
  moreover have "0 \<le> (of_int ?sec :: rat)" using assms(2) by (simp add: pos_imp_zdiv_nonneg_iff)
  ultimately show ?thesis
    using assms(2) unfolding elapsedSeconds_def Let_def by (auto intro: rounding_nonneg [OF assms(1)])
qed

section \<open>The bucket invariant\<close>

text \<open>The burst is an integer that a \<open>float64\<close> represents exactly.\<close>

definition bucket_ok :: "localTokenBucket \<Rightarrow> bool" where
  "bucket_ok b \<longleftrightarrow> 0 \<le> tb_rate b \<and> 0 \<le> tb_tokens b \<and> tb_tokens b \<le> tb_burst b \<and>
     (\<exists>n. tb_burst b = of_int n \<and> \<bar>n\<bar> \<le> 2 ^ 53)"

lemma newLocalTokenBucket_ok:
  "0 \<le> rate \<Longrightarrow> 0 \<le> burst \<Longrightarrow> burst \<le> 2 ^ 53 \<Longrightarrow> bucket_ok (newLocalTokenBucket rate burst now)"
  by (auto simp: bucket_ok_def newLocalTokenBucket_def intro!: exI [of _ burst])

lemma setRate_ok:
  assumes "bucket_ok b" "burst \<le> 2 ^ 53"
  shows "bucket_ok (setRate rate burst b)"
proof -
  have "\<exists>n. (of_int burst :: rat) = of_int n \<and> \<bar>n\<bar> \<le> 2 ^ 53" if "0 < burst"
    using that assms(2) by (intro exI [of _ burst]) simp
  with assms(1) show ?thesis by (auto simp: bucket_ok_def setRate_def Let_def)
qed

lemma setRate_simps:
  "tb_last (setRate rate burst b) = tb_last b"
  "0 < rate \<Longrightarrow> tb_rate (setRate rate burst b) = rate"
  "0 < burst \<Longrightarrow> tb_burst (setRate rate burst b) = of_int burst"
  by (auto simp: setRate_def Let_def)

lemma refill_simps [simp]:
  "tb_rate (refill rnd now b) = tb_rate b" "tb_burst (refill rnd now b) = tb_burst b"
  "tb_last (refill rnd now b) = now" "tb_lastSeen (refill rnd now b) = t_wall now"
  by (simp_all add: refill_def Let_def)

lemma refill_ok:
  assumes r: "rounding rnd" and b: "bucket_ok b" and t: "t_mono (tb_last b) \<le> t_mono now"
  shows "bucket_ok (refill rnd now b)"
proof -
  have "0 \<le> elapsedSeconds rnd (t_mono now - t_mono (tb_last b)) * tb_rate b"
    using elapsed_nonneg [OF r] t b by (simp add: bucket_ok_def)
  then have "0 \<le> tb_tokens b + rnd (elapsedSeconds rnd (t_mono now - t_mono (tb_last b)) * tb_rate b)"
    using rounding_nonneg [OF r] b by (simp add: bucket_ok_def)
  then have "0 \<le> rnd (tb_tokens b + rnd (elapsedSeconds rnd (t_mono now - t_mono (tb_last b)) * tb_rate b))"
    by (rule rounding_nonneg [OF r])
  with b show ?thesis by (auto simp: bucket_ok_def refill_def Let_def)
qed

lemma take_token_ok:
  assumes r: "rounding rnd" and b: "bucket_ok b" and t: "1 \<le> tb_tokens b"
  shows "bucket_ok (b\<lparr>tb_tokens := rnd (tb_tokens b - 1)\<rparr>)"
proof -
  from b obtain n where n: "tb_burst b = of_int n" "\<bar>n\<bar> \<le> 2 ^ 53" by (auto simp: bucket_ok_def)
  have "0 \<le> rnd (tb_tokens b - 1)" using t by (intro rounding_nonneg [OF r]) simp
  moreover have "rnd (tb_tokens b - 1) \<le> rnd (of_int n)"
    using b n by (intro rounding_mono [OF r]) (simp add: bucket_ok_def)
  moreover have "rnd (of_int n) = of_int n" using r n by (simp add: rounding_def)
  ultimately show ?thesis using b n by (simp add: bucket_ok_def)
qed

lemma bucketAllow_ok:
  assumes "rounding rnd" "bucket_ok b" "t_mono (tb_last b) \<le> t_mono now" "burst \<le> 2 ^ 53"
    "bucketAllow rnd rate burst now b = (ok, b')"
  shows "bucket_ok b' \<and> tb_last b' = now \<and> tb_lastSeen b' = t_wall now"
proof -
  have "bucket_ok (refill rnd now (setRate rate burst b))"
    using assms by (intro refill_ok setRate_ok) (auto simp: setRate_simps)
  with assms(5) take_token_ok [OF assms(1)] show ?thesis
    by (auto simp: bucketAllow_def Let_def split: if_splits)
qed

section \<open>Runs of a bucket\<close>

fun runBucket ::
  "(rat \<Rightarrow> rat) \<Rightarrow> rat \<Rightarrow> int \<Rightarrow> instant list \<Rightarrow> localTokenBucket \<Rightarrow> nat \<times> localTokenBucket" where
  "runBucket rnd rate burst [] b = (0, b)"
| "runBucket rnd rate burst (now # nows) b =
     (let (ok, b') = bucketAllow rnd rate burst now b;
          (n, b'') = runBucket rnd rate burst nows b'
      in ((if ok then 1 else 0) + n, b''))"

lemma allow_exact_step:
  assumes "bucketAllow (\<lambda>x. x) rate burst now b = (ok, b')" "0 < rate" "0 < burst"
    "tb_rate b = rate" "tb_burst b = of_int burst"
  shows "tb_tokens b' + (if ok then 1 else 0)
      \<le> tb_tokens b + rate * (of_int (t_mono now - t_mono (tb_last b)) / 1000000000)"
    and "tb_rate b' = rate" "tb_burst b' = of_int burst" "tb_last b' = now"
  using assms by (auto simp: bucketAllow_def refill_def setRate_def Let_def elapsed_exact mult.commute split: if_splits)

definition increasing :: "int \<Rightarrow> instant list \<Rightarrow> bool" where
  "increasing t nows \<longleftrightarrow> sorted (t # map t_mono nows)"

lemma increasing_Cons: "increasing t (now # nows) \<longleftrightarrow> t \<le> t_mono now \<and> increasing (t_mono now) nows"
  by (auto simp: increasing_def)

definition lastInstant :: "int \<Rightarrow> instant list \<Rightarrow> int" where
  "lastInstant t nows = last (t # map t_mono nows)"

lemma lastInstant_Cons [simp]: "lastInstant t (now # nows) = lastInstant (t_mono now) nows"
  by (simp add: lastInstant_def)

lemma runBucket_bound:
  assumes "runBucket (\<lambda>x. x) rate burst nows b = (n, b')" "0 < rate" "0 < burst" "burst \<le> 2 ^ 53"
    "tb_rate b = rate" "tb_burst b = of_int burst" "bucket_ok b" "increasing (t_mono (tb_last b)) nows"
  shows "of_nat n + tb_tokens b' \<le> tb_tokens b
      + rate * (of_int (lastInstant (t_mono (tb_last b)) nows - t_mono (tb_last b)) / 1000000000) \<and> bucket_ok b'"
  using assms
proof (induction nows arbitrary: b n)
  case Nil
  then show ?case by (simp add: lastInstant_def)
next
  case (Cons now nows)
  from Cons.prems(1) obtain ok b1 m where s: "bucketAllow (\<lambda>x. x) rate burst now b = (ok, b1)"
    and r: "runBucket (\<lambda>x. x) rate burst nows b1 = (m, b')" and n: "n = (if ok then 1 else 0) + m"
    by (auto simp: Let_def split: prod.splits)
  note step = allow_exact_step [OF s Cons.prems(2,3,5,6)]
  have inc: "t_mono (tb_last b) \<le> t_mono now" "increasing (t_mono (tb_last b1)) nows"
    using Cons.prems(8) step(4) by (auto simp: increasing_Cons)
  have "bucket_ok b1" using bucketAllow_ok [OF rounding_id Cons.prems(7) inc(1) Cons.prems(4) s] by blast
  from Cons.IH [OF r Cons.prems(2-4) step(2,3) this inc(2)] step(1) n step(4)
  show ?case by (auto simp: field_simps split: if_splits)
qed

section \<open>The sweep\<close>

lemma maybeCleanup_bucket:
  "buckets (maybeCleanup now l) key = buckets l key \<or>
   buckets (maybeCleanup now l) key = None \<and> (\<exists>b. buckets l key = Some b \<and> t_wall now - tb_lastSeen b > localLimiterBucketTTL)"
  by (auto simp: maybeCleanup_def Let_def split: option.splits)

definition limiter_ok :: "instant \<Rightarrow> keyedLocalLimiter \<Rightarrow> bool" where
  "limiter_ok now l \<longleftrightarrow> (\<forall>key b. buckets l key = Some b \<longrightarrow> bucket_ok b \<and> t_mono (tb_last b) \<le> t_mono now)"

lemma limiter_ok_cleanup: "limiter_ok now l \<Longrightarrow> limiter_ok now (maybeCleanup t l)"
  unfolding limiter_ok_def by (metis maybeCleanup_bucket option.distinct(1))

lemma limiterAllow_bucket:
  assumes "limiterAllow rnd now key rate burst l = (ok, l')"
  obtains b0 b' where
    "b0 = (if bucketExpired (buckets (maybeCleanup now l) key) now then newLocalTokenBucket rate burst now
           else the (buckets (maybeCleanup now l) key))"
    "bucketAllow rnd rate burst now b0 = (ok, b')" "buckets l' = (buckets (maybeCleanup now l))(key \<mapsto> b')"
  using assms that by (auto simp: limiterAllow_def Let_def split: prod.splits)

section \<open>Properties\<close>

text \<open>Every bucket of the limiter always holds between zero and its burst of tokens: the invariant is
  kept by \<open>Allow\<close> on any key, for calls that come in the order of the monotonic clock.\<close>

theorem limiterAllow_invariant:
  assumes "rounding rnd" "limiter_ok t l" "t_mono t \<le> t_mono now" "0 \<le> rate" "0 \<le> burst" "burst \<le> 2 ^ 53"
    "limiterAllow rnd now key rate burst l = (ok, l')"
  shows "limiter_ok now l'"
proof -
  have l: "limiter_ok now (maybeCleanup now l)"
    using limiter_ok_cleanup [of t l now] assms(2,3) by (fastforce simp: limiter_ok_def)
  from assms(7) obtain b0 b' where
    b0: "b0 = (if bucketExpired (buckets (maybeCleanup now l) key) now then newLocalTokenBucket rate burst now
           else the (buckets (maybeCleanup now l) key))"
    and run: "bucketAllow rnd rate burst now b0 = (ok, b')" and l': "buckets l' = (buckets (maybeCleanup now l))(key \<mapsto> b')"
    by (rule limiterAllow_bucket)
  have "bucket_ok b0 \<and> t_mono (tb_last b0) \<le> t_mono now"
  proof (cases "bucketExpired (buckets (maybeCleanup now l) key) now")
    case True
    then show ?thesis using b0 assms newLocalTokenBucket_ok by (simp add: newLocalTokenBucket_def)
  next
    case False
    then obtain b where "buckets (maybeCleanup now l) key = Some b"
      by (auto simp: bucketExpired_def split: option.splits)
    with False l b0 show ?thesis by (simp add: limiter_ok_def)
  qed
  then have "bucket_ok b' \<and> tb_last b' = now" using bucketAllow_ok assms(1,6) run by blast
  with l l' show ?thesis by (auto simp: limiter_ok_def)
qed

theorem limiterAllow_invariant_witness:
  "limiter_ok \<lparr>t_wall = 5, t_mono = 5\<rparr>
     (snd (limiterAllow (\<lambda>x. x) \<lparr>t_wall = 5, t_mono = 5\<rparr> ''k'' 10 20 newKeyedLocalLimiter))"
proof -
  obtain ok l' where r: "limiterAllow (\<lambda>x. x) \<lparr>t_wall = 5, t_mono = 5\<rparr> ''k'' 10 20 newKeyedLocalLimiter = (ok, l')"
    by (metis prod.collapse)
  have "limiter_ok \<lparr>t_wall = 0, t_mono = 0\<rparr> newKeyedLocalLimiter"
    by (simp add: limiter_ok_def newKeyedLocalLimiter_def)
  from limiterAllow_invariant [OF rounding_id this _ _ _ _ r] show ?thesis by (simp add: r)
qed



text \<open>Nobody starves: whatever happened before, a key whose rate and burst are at least one is
  allowed again when one second has passed since its last request.\<close>

theorem allow_after_one_second:
  assumes "rounding rnd" "bucket_ok b" "1 \<le> rate" "1 \<le> burst" "burst \<le> 2 ^ 53"
    "t_mono now - t_mono (tb_last b) \<ge> 1000000000" "t_mono now - t_mono (tb_last b) \<le> 2 ^ 63"
  shows "fst (bucketAllow rnd rate burst now b)"
proof -
  let ?b = "setRate rate burst b" and ?d = "t_mono now - t_mono (tb_last b)"
  note sim = setRate_simps [where rate = rate and burst = burst and b = b]
  have b: "bucket_ok ?b" by (rule setRate_ok [OF assms(2,5)])
  have "1 \<le> ?d div 1000000000" using assms(6) by (simp add: pos_imp_zdiv_pos_iff int_one_le_iff_zero_less)
  moreover have "0 \<le> rnd (of_int (?d - ?d div 1000000000 * 1000000000) / 1000000000)"
    by (intro rounding_nonneg [OF assms(1)] divide_nonneg_nonneg) (simp_all add: minus_div_mult_eq_mod)
  ultimately have "1 \<le> (of_int (?d div 1000000000) :: rat) + rnd (of_int (?d - ?d div 1000000000 * 1000000000) / 1000000000)"
    by linarith
  then have e: "1 \<le> elapsedSeconds rnd ?d"
    using rounding_ge_1 [OF assms(1)] assms(6) by (simp add: elapsedSeconds_def Let_def)
  then have "1 \<le> elapsedSeconds rnd ?d * tb_rate ?b"
    using assms(3) sim(2) mult_mono [of 1 "elapsedSeconds rnd ?d" 1 rate] by auto
  then have "1 \<le> rnd (elapsedSeconds rnd ?d * tb_rate ?b)"
    by (rule rounding_ge_1 [OF assms(1)])
  then have "1 \<le> tb_tokens ?b + rnd (elapsedSeconds rnd ?d * tb_rate ?b)"
    using b by (simp add: bucket_ok_def)
  then have "1 \<le> rnd (tb_tokens ?b + rnd (elapsedSeconds rnd ?d * tb_rate ?b))"
    by (rule rounding_ge_1 [OF assms(1)])
  moreover have "1 \<le> tb_burst ?b" using sim(3) assms(4) by simp
  ultimately show ?thesis using sim(1) by (auto simp: bucketAllow_def refill_def Let_def)
qed

theorem allow_after_one_second_witness:
  "fst (bucketAllow (\<lambda>x. x) 1 1 \<lparr>t_wall = 0, t_mono = 1000000000\<rparr>
     \<lparr>tb_rate = 1, tb_burst = 1, tb_tokens = 0, tb_last = \<lparr>t_wall = 0, t_mono = 0\<rparr>, tb_lastSeen = 0\<rparr>)"
  by (rule allow_after_one_second [OF rounding_id]) (auto simp: bucket_ok_def intro: exI [of _ 1])



end
