(* ===== verification/Http_Model.thy ===== *)
theory Http_Model
  imports Go_Strings
begin

text \<open>
  The part of \<open>net/http\<close> the gateway touches, and \<open>internal/response/error.go\<close>.

  \<^item> A header is a map from canonical field names to their values, as \<open>http.Header\<close>.
  \<^item> A response writer keeps its header map, the status and header it has committed
    (\<open>WriteHeader\<close> takes effect once; a \<open>Write\<close> before it commits status 200), and what has
    been written. The JSON text of an error is kept as the value that is encoded.
  \<^item> A URL is the record of the fields the gateway reads and sets.
\<close>

section \<open>Headers\<close>

type_synonym header = "bytes \<Rightarrow> bytes list option"

definition isTokenByte :: "char \<Rightarrow> bool" where
  "isTokenByte c \<longleftrightarrow> inRange 48 57 c \<or> inRange 65 90 c \<or> inRange 97 122 c \<or>
     c \<in> {CHR ''!'', CHR ''#'', CHR ''$'', CHR ''%'', CHR ''&'', CHR 0x27, CHR ''*'', CHR ''+'', CHR ''-'',
          CHR ''.'', CHR ''^'', CHR ''_'', CHR 0x60, CHR ''|'', CHR ''~''}"

definition ascii_upper :: "char \<Rightarrow> char" where
  "ascii_upper c = (if inRange 97 122 c then char_of (byte c - 32) else c)"

fun canonLoop :: "bool \<Rightarrow> bytes \<Rightarrow> bytes" where
  "canonLoop upper [] = []"
| "canonLoop upper (c # s) =
     (if upper then ascii_upper c else ascii_lower c) # canonLoop (c = CHR ''-'') s"

definition canonicalHeaderKey :: "bytes \<Rightarrow> bytes" where
  "canonicalHeaderKey s = (if list_all isTokenByte s then canonLoop True s else s)"

definition headerGet :: "header \<Rightarrow> bytes \<Rightarrow> bytes" where
  "headerGet h k = (case h (canonicalHeaderKey k) of Some (v # vs) \<Rightarrow> v | _ \<Rightarrow> [])"

definition headerSet :: "header \<Rightarrow> bytes \<Rightarrow> bytes \<Rightarrow> header" where
  "headerSet h k v = h(canonicalHeaderKey k \<mapsto> [v])"

definition headerDel :: "header \<Rightarrow> bytes \<Rightarrow> header" where
  "headerDel h k = h(canonicalHeaderKey k := None)"

lemma headerGet_Set [simp, go_simps]: "headerGet (headerSet h k v) k = v"
  by (simp add: headerGet_def headerSet_def)

lemma headerGet_Set_other [go_simps]:
  "canonicalHeaderKey k \<noteq> canonicalHeaderKey k' \<Longrightarrow> headerGet (headerSet h k v) k' = headerGet h k'"
  by (simp add: headerGet_def headerSet_def)

lemma headerGet_Del [simp, go_simps]: "headerGet (headerDel h k) k = []"
  by (simp add: headerGet_def headerDel_def)

lemma headerGet_Del_other [go_simps]:
  "canonicalHeaderKey k \<noteq> canonicalHeaderKey k' \<Longrightarrow> headerGet (headerDel h k) k' = headerGet h k'"
  by (simp add: headerGet_def headerDel_def)

section \<open>URLs\<close>

record url =
  url_Scheme :: bytes
  url_Host :: bytes
  url_Path :: bytes
  url_RawPath :: bytes
  url_RawQuery :: bytes

section \<open>Error bodies and the response writer\<close>

record OpenAIError =
  oe_Message :: bytes
  oe_Type :: bytes
  oe_Param :: "bytes option"
  oe_Code :: "bytes option"

datatype chunk = ErrorBody OpenAIError | Raw bytes

record ResponseWriter =
  w_header :: header
  w_sent :: "(int \<times> header) option"
  w_body :: "chunk list"

definition newWriter :: ResponseWriter where
  "newWriter = \<lparr>w_header = (\<lambda>_. None), w_sent = None, w_body = []\<rparr>"

definition setHeader :: "ResponseWriter \<Rightarrow> bytes \<Rightarrow> bytes \<Rightarrow> ResponseWriter" where
  "setHeader w k v = w\<lparr>w_header := headerSet (w_header w) k v\<rparr>"

definition writeHeader :: "ResponseWriter \<Rightarrow> int \<Rightarrow> ResponseWriter" where
  "writeHeader w status =
     (case w_sent w of None \<Rightarrow> w\<lparr>w_sent := Some (status, w_header w)\<rparr> | Some _ \<Rightarrow> w)"

definition writeChunk :: "ResponseWriter \<Rightarrow> chunk \<Rightarrow> ResponseWriter" where
  "writeChunk w c = (let w = writeHeader w 200 in w\<lparr>w_body := w_body w @ [c]\<rparr>)"

text \<open>The status the client sees: a handler that returns without writing answers 200.\<close>

definition responseStatus :: "ResponseWriter \<Rightarrow> int" where
  "responseStatus w = (case w_sent w of Some (status, _) \<Rightarrow> status | None \<Rightarrow> 200)"

lemma writer_simps [simp]:
  "w_sent (setHeader w k v) = w_sent w" "w_body (setHeader w k v) = w_body w"
  "w_header (setHeader w k v) = headerSet (w_header w) k v"
  "w_body (writeHeader w s) = w_body w" "w_header (writeHeader w s) = w_header w"
  "w_header (writeChunk w c) = w_header w" "w_body (writeChunk w c) = w_body w @ [c]"
  by (simp_all add: setHeader_def writeHeader_def writeChunk_def Let_def split: option.split)

lemma w_sent_writeHeader:
  "w_sent (writeHeader w s) = (case w_sent w of None \<Rightarrow> Some (s, w_header w) | Some x \<Rightarrow> Some x)"
  by (simp add: writeHeader_def split: option.split)

lemma w_sent_writeChunk:
  "w_sent (writeChunk w c) = (case w_sent w of None \<Rightarrow> Some (200, w_header w) | Some x \<Rightarrow> Some x)"
  by (simp add: writeChunk_def Let_def w_sent_writeHeader)

section \<open>\<open>internal/response/error.go\<close>\<close>

definition ErrorTypeAuthentication :: bytes where "ErrorTypeAuthentication = ''authentication_error''"
definition ErrorTypePermission :: bytes where "ErrorTypePermission = ''permission_error''"
definition ErrorTypeInvalidRequest :: bytes where "ErrorTypeInvalidRequest = ''invalid_request_error''"
definition ErrorTypeRateLimit :: bytes where "ErrorTypeRateLimit = ''rate_limit_error''"
definition ErrorTypeServer :: bytes where "ErrorTypeServer = ''server_error''"

lemmas error_types = ErrorTypeAuthentication_def ErrorTypePermission_def ErrorTypeInvalidRequest_def
  ErrorTypeRateLimit_def ErrorTypeServer_def

definition Ptr :: "bytes \<Rightarrow> bytes option" where
  "Ptr s = (if s = [] then None else Some s)"

definition defaultErrorType :: "int \<Rightarrow> bytes" where
  "defaultErrorType status =
     (if status = 401 then ErrorTypeAuthentication
      else if status = 403 then ErrorTypePermission
      else if status = 429 then ErrorTypeRateLimit
      else if status = 400 \<or> status = 404 \<or> status = 413 then ErrorTypeInvalidRequest
      else ErrorTypeServer)"

definition WriteOpenAIError ::
  "ResponseWriter \<Rightarrow> int \<Rightarrow> bytes \<Rightarrow> bytes \<Rightarrow> bytes option \<Rightarrow> bytes option \<Rightarrow> ResponseWriter" where
  "WriteOpenAIError w status message errType param code =
     (let errType = (if errType = [] then defaultErrorType status else errType);
          w = setHeader w ''Content-Type'' ''application/json; charset=utf-8'';
          w = setHeader w ''X-Content-Type-Options'' ''nosniff'';
          w = writeHeader w status
      in writeChunk w (ErrorBody \<lparr>oe_Message = message, oe_Type = errType, oe_Param = param, oe_Code = code\<rparr>))"

definition WriteAuthenticationError :: "ResponseWriter \<Rightarrow> int \<Rightarrow> bytes \<Rightarrow> bytes \<Rightarrow> ResponseWriter" where
  "WriteAuthenticationError w status message code =
     WriteOpenAIError w status message ErrorTypeAuthentication None (Ptr code)"

definition WritePermissionError :: "ResponseWriter \<Rightarrow> int \<Rightarrow> bytes \<Rightarrow> bytes \<Rightarrow> bytes \<Rightarrow> ResponseWriter" where
  "WritePermissionError w status message param code =
     WriteOpenAIError w status message ErrorTypePermission (Ptr param) (Ptr code)"

definition WriteRateLimitError :: "ResponseWriter \<Rightarrow> bytes \<Rightarrow> bytes \<Rightarrow> ResponseWriter" where
  "WriteRateLimitError w message code =
     WriteOpenAIError w 429 message ErrorTypeRateLimit None (Ptr code)"

definition WriteServerError :: "ResponseWriter \<Rightarrow> int \<Rightarrow> bytes \<Rightarrow> bytes \<Rightarrow> ResponseWriter" where
  "WriteServerError w status message code =
     WriteOpenAIError w status message ErrorTypeServer None (Ptr code)"

definition WriteInternalServerError :: "ResponseWriter \<Rightarrow> bytes \<Rightarrow> bytes \<Rightarrow> ResponseWriter" where
  "WriteInternalServerError w message code = WriteServerError w 500 message code"

definition WriteServiceUnavailable :: "ResponseWriter \<Rightarrow> bytes \<Rightarrow> bytes \<Rightarrow> ResponseWriter" where
  "WriteServiceUnavailable w message code = WriteServerError w 503 message code"

definition WriteGatewayTimeout :: "ResponseWriter \<Rightarrow> bytes \<Rightarrow> bytes \<Rightarrow> ResponseWriter" where
  "WriteGatewayTimeout w message code = WriteServerError w 504 message code"

lemmas error_writers = WriteAuthenticationError_def WritePermissionError_def WriteRateLimitError_def
  WriteServerError_def WriteInternalServerError_def WriteServiceUnavailable_def WriteGatewayTimeout_def

text \<open>What an error writer leaves on a writer that has not committed yet: exactly one answer.\<close>

definition errorAnswer :: "ResponseWriter \<Rightarrow> ResponseWriter \<Rightarrow> int \<Rightarrow> bytes \<Rightarrow> bytes option \<Rightarrow> bool" where
  "errorAnswer w w' status errType code \<longleftrightarrow>
     responseStatus w' = status \<and> w_sent w' \<noteq> None \<and>
     (\<exists>e. w_body w' = w_body w @ [ErrorBody e] \<and> oe_Type e = errType \<and> oe_Code e = code) \<and>
     headerGet (w_header w') ''Content-Type'' = ''application/json; charset=utf-8'' \<and>
     headerGet (w_header w') ''X-Content-Type-Options'' = ''nosniff''"

lemma canonical_literals [simp]:
  "canonicalHeaderKey ''Content-Type'' = ''Content-Type''"
  "canonicalHeaderKey ''X-Content-Type-Options'' = ''X-Content-Type-Options''"
  "canonicalHeaderKey ''X-Request-ID'' = ''X-Request-Id''"
  "canonicalHeaderKey ''Authorization'' = ''Authorization''"
  by code_simp+

lemma WriteOpenAIError_answer:
  assumes "w_sent w = None"
  shows "errorAnswer w (WriteOpenAIError w status message errType param code) status
    (if errType = [] then defaultErrorType status else errType) code"
  using assms
  by (simp add: errorAnswer_def WriteOpenAIError_def Let_def responseStatus_def w_sent_writeChunk
      w_sent_writeHeader headerGet_def headerSet_def)

lemma WriteOpenAIError_sent: "w_sent (WriteOpenAIError w status message errType param code) \<noteq> None"
  by (simp add: WriteOpenAIError_def Let_def w_sent_writeChunk split: option.split)

lemma WriteOpenAIError_body:
  "w_body (WriteOpenAIError w status message errType param code) =
     w_body w @ [ErrorBody \<lparr>oe_Message = message, oe_Type = (if errType = [] then defaultErrorType status else errType),
                            oe_Param = param, oe_Code = code\<rparr>]"
  by (simp add: WriteOpenAIError_def Let_def)

lemma WriteOpenAIError_status:
  "w_sent w = None \<Longrightarrow> responseStatus (WriteOpenAIError w status message errType param code) = status"
  by (simp add: WriteOpenAIError_def Let_def responseStatus_def w_sent_writeChunk w_sent_writeHeader)

end
