(* ===== verification/Config_Model.thy ===== *)
theory Config_Model
  imports Http_Model Complex_Main
begin

text \<open>
  The configuration, \<open>internal/config/config.go\<close>: the structures, the defaults, the resolution of
  secrets from the environment, normalisation and validation. A \<open>float64\<close> of the configuration
  is a rational. The functions of Go's library and of the YAML package that the loader calls
  (\<open>os.LookupEnv\<close>, \<open>time.ParseDuration\<close>, \<open>url.Parse\<close>, \<open>net.ParseIP\<close>, \<open>net.ParseCIDR\<close>, the
  decoder, reading a file) are the fields of a record \<open>runtime\<close> that the operations take as an argument: nothing is
  assumed of them.
\<close>

section \<open>Structures\<close>

record ServerConfig =
  sc_Host :: bytes
  sc_Port :: int
  sc_ReadTimeout :: bytes
  sc_ReadHeaderTimeout :: bytes
  sc_WriteTimeout :: bytes
  sc_IdleTimeout :: bytes
  sc_ShutdownTimeout :: bytes
  sc_TrustedProxyCIDRs :: "bytes list"

record MetricsConfig =
  mc_BearerTokenEnv :: bytes
  mc_BearerToken :: bytes
  mc_AllowedCIDRs :: "bytes list"

record ClientTokenConfig =
  ct_Name :: bytes
  ct_ValueEnv :: bytes
  ct_Value :: bytes
  ct_RateLimitQPS :: rat
  ct_RateLimitBurst :: int
  ct_Disabled :: bool
  ct_AllowedModels :: "bytes list"

record AuthConfig =
  ac_RateLimitQPS :: rat
  ac_RateLimitBurst :: int
  ac_Tokens :: "ClientTokenConfig list"

record UpstreamConfig =
  uc_RetryableStatusCodes :: "int list"
  uc_RetryBackoff :: bytes
  uc_DefaultMaxRetries :: int
  uc_HealthCheckInterval :: bytes
  uc_HealthCheckTimeout :: bytes
  uc_BreakerInterval :: bytes
  uc_BreakerTimeout :: bytes
  uc_BreakerFailureRatio :: rat
  uc_BreakerMinimumRequests :: nat
  uc_BreakerHalfOpenRequests :: nat
  uc_DefaultTimeoutNonStream :: bytes
  uc_DefaultTimeoutStream :: bytes

record ProviderConfig =
  pc_Name :: bytes
  pc_BaseURL :: bytes
  pc_APIKeyEnv :: bytes
  pc_APIKey :: bytes
  pc_Models :: "bytes list"
  pc_MaxRetries :: int
  pc_HealthCheckPath :: bytes
  pc_TimeoutNonStream :: bytes
  pc_TimeoutStream :: bytes

record Config =
  cfg_Server :: ServerConfig
  cfg_Metrics :: MetricsConfig
  cfg_Auth :: AuthConfig
  cfg_Upstream :: UpstreamConfig
  cfg_Providers :: "ProviderConfig list"

text \<open>What the process environment and the libraries answer. \<open>rt_Duration\<close> is \<open>time.ParseDuration\<close>
  in nanoseconds, \<open>rt_PrivateIP\<close> tells for the text of an IP address whether it is private or
  loopback and is \<^const>\<open>None\<close> for other text, \<open>rt_Decode\<close> is the decoder applied to a structure
  that already holds the defaults.\<close>

record runtime =
  rt_LookupEnv :: "bytes \<Rightarrow> bytes option"
  rt_Duration :: "bytes \<Rightarrow> int option"
  rt_ParseURL :: "bytes \<Rightarrow> url option"
  rt_Hostname :: "url \<Rightarrow> bytes"
  rt_PrivateIP :: "bytes \<Rightarrow> bool option"
  rt_ParseCIDR :: "bytes \<Rightarrow> bool"
  rt_ReadFile :: "bytes \<Rightarrow> bytes option"
  rt_Decode :: "bytes \<Rightarrow> Config \<Rightarrow> Config option"

datatype config_error =
    OpenFailed
  | DecodeFailed
  | InlineTokenValue nat
  | MissingValueEnv nat
  | TokenEnvUnset nat
  | InlineAPIKey bytes
  | ProviderEnvUnset bytes
  | InlineMetricsToken
  | BadPort
  | BadDuration bytes
  | NonPositiveDuration bytes
  | BadRateLimitQPS
  | BadRateLimitBurst
  | NoTokens
  | BadTrustedCIDR bytes
  | BadMetricsCIDR bytes
  | NoProviders
  | EmptyProviderName
  | DuplicateProvider bytes
  | BadBaseURL bytes
  | BaseURLIncomplete bytes
  | BaseURLInsecure bytes
  | BaseURLScheme bytes
  | NoModels bytes
  | NegativeMaxRetries bytes
  | EmptyTokenName nat
  | DuplicateTokenName bytes
  | EmptyTokenValue nat
  | DuplicateTokenValue nat
  | NegativeTokenQPS nat
  | NegativeTokenBurst nat

section \<open>Defaults\<close>

definition zeroConfig :: Config where
  "zeroConfig =
     \<lparr>cfg_Server = \<lparr>sc_Host = [], sc_Port = 0, sc_ReadTimeout = [], sc_ReadHeaderTimeout = [],
        sc_WriteTimeout = [], sc_IdleTimeout = [], sc_ShutdownTimeout = [], sc_TrustedProxyCIDRs = []\<rparr>,
      cfg_Metrics = \<lparr>mc_BearerTokenEnv = [], mc_BearerToken = [], mc_AllowedCIDRs = []\<rparr>,
      cfg_Auth = \<lparr>ac_RateLimitQPS = 0, ac_RateLimitBurst = 0, ac_Tokens = []\<rparr>,
      cfg_Upstream = \<lparr>uc_RetryableStatusCodes = [], uc_RetryBackoff = [], uc_DefaultMaxRetries = 0,
        uc_HealthCheckInterval = [], uc_HealthCheckTimeout = [], uc_BreakerInterval = [], uc_BreakerTimeout = [],
        uc_BreakerFailureRatio = 0, uc_BreakerMinimumRequests = 0, uc_BreakerHalfOpenRequests = 0,
        uc_DefaultTimeoutNonStream = [], uc_DefaultTimeoutStream = []\<rparr>,
      cfg_Providers = []\<rparr>"

definition setDefaults :: "Config \<Rightarrow> Config" where
  "setDefaults cfg =
     cfg\<lparr>cfg_Server := (cfg_Server cfg)\<lparr>sc_Port := 8080, sc_ReadTimeout := ''300s'', sc_ReadHeaderTimeout := ''10s'',
           sc_WriteTimeout := ''300s'', sc_IdleTimeout := ''120s'', sc_ShutdownTimeout := ''300s''\<rparr>,
         cfg_Auth := (cfg_Auth cfg)\<lparr>ac_RateLimitQPS := 10, ac_RateLimitBurst := 20\<rparr>,
         cfg_Upstream := (cfg_Upstream cfg)\<lparr>uc_RetryableStatusCodes := [429, 500, 502, 503, 504],
           uc_RetryBackoff := ''200ms'', uc_DefaultMaxRetries := 1, uc_HealthCheckInterval := ''15s'',
           uc_HealthCheckTimeout := ''2s'', uc_BreakerInterval := ''10s'', uc_BreakerTimeout := ''15s'',
           uc_BreakerFailureRatio := 1 / 2, uc_BreakerMinimumRequests := 5, uc_BreakerHalfOpenRequests := 3,
           uc_DefaultTimeoutNonStream := ''120s'', uc_DefaultTimeoutStream := ''300s''\<rparr>\<rparr>"

section \<open>Normalisation\<close>

text \<open>The loop of \<open>uniqueNonEmpty\<close>, with the names seen so far.\<close>

fun uniqueLoop :: "bytes list \<Rightarrow> bytes list \<Rightarrow> bytes list" where
  "uniqueLoop seen [] = []"
| "uniqueLoop seen (item # items) =
     (let normalized = trimSpace item in
      if normalized = [] then uniqueLoop seen items
      else if normalized \<in> set seen then uniqueLoop seen items
      else normalized # uniqueLoop (normalized # seen) items)"

definition uniqueNonEmpty :: "bytes list \<Rightarrow> bytes list" where
  "uniqueNonEmpty items = uniqueLoop [] items"

definition normalizeToken :: "ClientTokenConfig \<Rightarrow> ClientTokenConfig" where
  "normalizeToken token =
     token\<lparr>ct_Name := trimSpace (ct_Name token), ct_ValueEnv := trimSpace (ct_ValueEnv token),
           ct_Value := trimSpace (ct_Value token)\<rparr>"

definition normalizeProvider :: "ProviderConfig \<Rightarrow> ProviderConfig" where
  "normalizeProvider provider =
     provider\<lparr>pc_Name := trimSpace (pc_Name provider),
              pc_BaseURL := trimRight (trimSpace (pc_BaseURL provider)) {CHR ''/''},
              pc_APIKeyEnv := trimSpace (pc_APIKeyEnv provider), pc_APIKey := trimSpace (pc_APIKey provider),
              pc_Models := uniqueNonEmpty (pc_Models provider),
              pc_HealthCheckPath := trimSpace (pc_HealthCheckPath provider)\<rparr>"

definition normalizeServer :: "ServerConfig \<Rightarrow> ServerConfig" where
  "normalizeServer s =
     s\<lparr>sc_Host := trimSpace (sc_Host s), sc_ReadTimeout := trimSpace (sc_ReadTimeout s),
       sc_ReadHeaderTimeout := trimSpace (sc_ReadHeaderTimeout s), sc_WriteTimeout := trimSpace (sc_WriteTimeout s),
       sc_IdleTimeout := trimSpace (sc_IdleTimeout s), sc_ShutdownTimeout := trimSpace (sc_ShutdownTimeout s),
       sc_TrustedProxyCIDRs := uniqueNonEmpty (map trimSpace (sc_TrustedProxyCIDRs s))\<rparr>"

definition normalizeMetrics :: "MetricsConfig \<Rightarrow> MetricsConfig" where
  "normalizeMetrics m =
     m\<lparr>mc_BearerTokenEnv := trimSpace (mc_BearerTokenEnv m), mc_BearerToken := trimSpace (mc_BearerToken m),
       mc_AllowedCIDRs := uniqueNonEmpty (map trimSpace (mc_AllowedCIDRs m))\<rparr>"

definition normalizeUpstream :: "UpstreamConfig \<Rightarrow> UpstreamConfig" where
  "normalizeUpstream u =
     u\<lparr>uc_RetryBackoff := trimSpace (uc_RetryBackoff u), uc_HealthCheckInterval := trimSpace (uc_HealthCheckInterval u),
       uc_HealthCheckTimeout := trimSpace (uc_HealthCheckTimeout u), uc_BreakerInterval := trimSpace (uc_BreakerInterval u),
       uc_BreakerTimeout := trimSpace (uc_BreakerTimeout u)\<rparr>"

definition normalizeConfig :: "Config \<Rightarrow> Config" where
  "normalizeConfig cfg =
     cfg\<lparr>cfg_Server := normalizeServer (cfg_Server cfg), cfg_Metrics := normalizeMetrics (cfg_Metrics cfg),
         cfg_Upstream := normalizeUpstream (cfg_Upstream cfg),
         cfg_Auth := (cfg_Auth cfg)\<lparr>ac_Tokens := map normalizeToken (ac_Tokens (cfg_Auth cfg))\<rparr>,
         cfg_Providers := map normalizeProvider (cfg_Providers cfg)\<rparr>"

definition applyUpstreamDefaults :: "Config \<Rightarrow> Config" where
  "applyUpstreamDefaults cfg =
     (let u = cfg_Upstream cfg in
      cfg\<lparr>cfg_Upstream :=
            u\<lparr>uc_DefaultMaxRetries := (if uc_DefaultMaxRetries u < 0 then 0 else uc_DefaultMaxRetries u),
              uc_RetryableStatusCodes :=
                (if uc_RetryableStatusCodes u = [] then [429, 500, 502, 503, 504] else uc_RetryableStatusCodes u),
              uc_RetryBackoff := (if trimSpace (uc_RetryBackoff u) = [] then ''200ms'' else uc_RetryBackoff u),
              uc_HealthCheckInterval :=
                (if trimSpace (uc_HealthCheckInterval u) = [] then ''15s'' else uc_HealthCheckInterval u),
              uc_HealthCheckTimeout :=
                (if trimSpace (uc_HealthCheckTimeout u) = [] then ''2s'' else uc_HealthCheckTimeout u),
              uc_BreakerInterval := (if trimSpace (uc_BreakerInterval u) = [] then ''10s'' else uc_BreakerInterval u),
              uc_BreakerTimeout := (if trimSpace (uc_BreakerTimeout u) = [] then ''15s'' else uc_BreakerTimeout u),
              uc_BreakerFailureRatio :=
                (if uc_BreakerFailureRatio u \<le> 0 \<or> uc_BreakerFailureRatio u > 1 then 1 / 2
                 else uc_BreakerFailureRatio u),
              uc_BreakerMinimumRequests :=
                (if uc_BreakerMinimumRequests u = 0 then 5 else uc_BreakerMinimumRequests u),
              uc_BreakerHalfOpenRequests :=
                (if uc_BreakerHalfOpenRequests u = 0 then 3 else uc_BreakerHalfOpenRequests u)\<rparr>,
          cfg_Providers :=
            map (\<lambda>p. p\<lparr>pc_MaxRetries := (if pc_MaxRetries p < 0 then 0 else pc_MaxRetries p)\<rparr>)
              (cfg_Providers cfg)\<rparr>)"

section \<open>Secrets from the environment\<close>

fun resolveTokensLoop ::
  "runtime \<Rightarrow> nat \<Rightarrow> ClientTokenConfig list \<Rightarrow> (config_error, ClientTokenConfig list) result" where
  "resolveTokensLoop rt i [] = Inr []"
| "resolveTokensLoop rt i (token # tokens) =
     (if ct_Disabled token then
        andThen (resolveTokensLoop rt (i + 1) tokens) (\<lambda>rest. Inr (token # rest))
      else if trimSpace (ct_Value token) \<noteq> [] then Inl (InlineTokenValue i)
      else if ct_ValueEnv token = [] then Inl (MissingValueEnv i)
      else (case rt_LookupEnv rt (ct_ValueEnv token) of
              None \<Rightarrow> Inl (TokenEnvUnset i)
            | Some envValue \<Rightarrow>
                if trimSpace envValue = [] then Inl (TokenEnvUnset i)
                else andThen (resolveTokensLoop rt (i + 1) tokens)
                       (\<lambda>rest. Inr (token\<lparr>ct_Value := trimSpace envValue\<rparr> # rest))))"

definition resolveStructuredTokens :: "runtime \<Rightarrow> Config \<Rightarrow> (config_error, Config) result" where
  "resolveStructuredTokens rt cfg =
     andThen (resolveTokensLoop rt 0 (ac_Tokens (cfg_Auth cfg)))
       (\<lambda>tokens. Inr (cfg\<lparr>cfg_Auth := (cfg_Auth cfg)\<lparr>ac_Tokens := tokens\<rparr>\<rparr>))"

fun resolveProvidersLoop :: "runtime \<Rightarrow> ProviderConfig list \<Rightarrow> (config_error, ProviderConfig list) result" where
  "resolveProvidersLoop rt [] = Inr []"
| "resolveProvidersLoop rt (provider # providers) =
     (if trimSpace (pc_APIKey provider) \<noteq> [] then Inl (InlineAPIKey (pc_Name provider))
      else (let envName = trimSpace (pc_APIKeyEnv provider) in
        if envName = [] then andThen (resolveProvidersLoop rt providers) (\<lambda>rest. Inr (provider # rest))
        else (case rt_LookupEnv rt envName of
                None \<Rightarrow> Inl (ProviderEnvUnset (pc_Name provider))
              | Some envValue \<Rightarrow>
                  if trimSpace envValue = [] then Inl (ProviderEnvUnset (pc_Name provider))
                  else andThen (resolveProvidersLoop rt providers)
                         (\<lambda>rest. Inr (provider\<lparr>pc_APIKey := trimSpace envValue\<rparr> # rest)))))"

definition resolveProviderAPIKeys :: "runtime \<Rightarrow> Config \<Rightarrow> (config_error, Config) result" where
  "resolveProviderAPIKeys rt cfg =
     andThen (resolveProvidersLoop rt (cfg_Providers cfg)) (\<lambda>ps. Inr (cfg\<lparr>cfg_Providers := ps\<rparr>))"

definition resolveMetricsConfig :: "runtime \<Rightarrow> Config \<Rightarrow> (config_error, Config) result" where
  "resolveMetricsConfig rt cfg =
     (let m = cfg_Metrics cfg; envName = trimSpace (mc_BearerTokenEnv m) in
      if trimSpace (mc_BearerToken m) \<noteq> [] then Inl InlineMetricsToken
      else if envName = [] then Inr cfg
      else (case rt_LookupEnv rt envName of
              None \<Rightarrow> Inr cfg
            | Some envValue \<Rightarrow>
                if trimSpace envValue = [] then Inr cfg
                else Inr (cfg\<lparr>cfg_Metrics := m\<lparr>mc_BearerToken := trimSpace envValue\<rparr>\<rparr>)))"

section \<open>Validation\<close>

text \<open>A check returns \<open>Inr ()\<close> when it passes; a list of checks stops at the first error.\<close>

fun allChecks :: "('a \<Rightarrow> ('e, unit) result) \<Rightarrow> 'a list \<Rightarrow> ('e, unit) result" where
  "allChecks check [] = Inr ()"
| "allChecks check (x # xs) = andThen (check x) (\<lambda>_. allChecks check xs)"

definition failIf :: "bool \<Rightarrow> 'e \<Rightarrow> ('e, unit) result" where
  "failIf b e = (if b then Inl e else Inr ())"

definition validatePositiveDuration :: "runtime \<Rightarrow> bytes \<Rightarrow> bytes \<Rightarrow> (config_error, unit) result" where
  "validatePositiveDuration rt fieldName raw =
     (case rt_Duration rt (trimSpace raw) of
        None \<Rightarrow> Inl (BadDuration fieldName)
      | Some d \<Rightarrow> if d \<le> 0 then Inl (NonPositiveDuration fieldName) else Inr ())"

definition isPrivateOrLoopbackHost :: "runtime \<Rightarrow> bytes \<Rightarrow> bool" where
  "isPrivateOrLoopbackHost rt host0 =
     (let host = trimSpace host0 in
      if host = ''localhost'' then True
      else (case rt_PrivateIP rt host of None \<Rightarrow> False | Some b \<Rightarrow> b))"

definition validateProviderBaseURL :: "runtime \<Rightarrow> bytes \<Rightarrow> bytes \<Rightarrow> (config_error, unit) result" where
  "validateProviderBaseURL rt providerName raw =
     (case rt_ParseURL rt (trimSpace raw) of
        None \<Rightarrow> Inl (BadBaseURL providerName)
      | Some parsed \<Rightarrow>
          if url_Scheme parsed = [] \<or> url_Host parsed = [] then Inl (BaseURLIncomplete providerName)
          else if url_Scheme parsed = ''https'' then Inr ()
          else if url_Scheme parsed = ''http'' then
            (if isPrivateOrLoopbackHost rt (rt_Hostname rt parsed) then Inr ()
             else Inl (BaseURLInsecure providerName))
          else Inl (BaseURLScheme providerName))"

fun validateTokensLoop :: "nat \<Rightarrow> bytes list \<Rightarrow> bytes list \<Rightarrow> ClientTokenConfig list \<Rightarrow> (config_error, unit) result" where
  "validateTokensLoop i seenNames seenValues [] = Inr ()"
| "validateTokensLoop i seenNames seenValues (token # tokens) =
     (if ct_Disabled token then validateTokensLoop (i + 1) seenNames seenValues tokens
      else if ct_Name token = [] then Inl (EmptyTokenName i)
      else if ct_Name token \<in> set seenNames then Inl (DuplicateTokenName (ct_Name token))
      else if ct_Value token = [] then Inl (EmptyTokenValue i)
      else if ct_Value token \<in> set seenValues then Inl (DuplicateTokenValue i)
      else if ct_RateLimitQPS token < 0 then Inl (NegativeTokenQPS i)
      else if ct_RateLimitBurst token < 0 then Inl (NegativeTokenBurst i)
      else validateTokensLoop (i + 1) (ct_Name token # seenNames) (ct_Value token # seenValues) tokens)"

definition validateTokenCatalog :: "AuthConfig \<Rightarrow> (config_error, unit) result" where
  "validateTokenCatalog auth = validateTokensLoop 0 [] [] (ac_Tokens auth)"

definition validateProvider :: "runtime \<Rightarrow> ProviderConfig \<Rightarrow> (config_error, unit) result" where
  "validateProvider rt provider =
     andThen (validateProviderBaseURL rt (pc_Name provider) (pc_BaseURL provider)) (\<lambda>_.
     andThen (failIf (pc_Models provider = []) (NoModels (pc_Name provider))) (\<lambda>_.
     andThen (failIf (pc_MaxRetries provider < 0) (NegativeMaxRetries (pc_Name provider))) (\<lambda>_.
     andThen (if trimSpace (pc_TimeoutNonStream provider) = [] then Inr ()
              else validatePositiveDuration rt ''timeout_non_stream'' (trimSpace (pc_TimeoutNonStream provider))) (\<lambda>_.
     (if trimSpace (pc_TimeoutStream provider) = [] then Inr ()
      else validatePositiveDuration rt ''timeout_stream'' (trimSpace (pc_TimeoutStream provider)))))))"

fun validateProvidersLoop :: "runtime \<Rightarrow> bytes list \<Rightarrow> ProviderConfig list \<Rightarrow> (config_error, unit) result" where
  "validateProvidersLoop rt seen [] = Inr ()"
| "validateProvidersLoop rt seen (provider # providers) =
     (if pc_Name provider = [] then Inl EmptyProviderName
      else if pc_Name provider \<in> set seen then Inl (DuplicateProvider (pc_Name provider))
      else andThen (validateProvider rt provider)
             (\<lambda>_. validateProvidersLoop rt (pc_Name provider # seen) providers))"

definition durationFields :: "Config \<Rightarrow> (bytes \<times> bytes) list" where
  "durationFields cfg =
     [(''server.read_timeout'', sc_ReadTimeout (cfg_Server cfg)),
      (''server.read_header_timeout'', sc_ReadHeaderTimeout (cfg_Server cfg)),
      (''server.write_timeout'', sc_WriteTimeout (cfg_Server cfg)),
      (''server.idle_timeout'', sc_IdleTimeout (cfg_Server cfg)),
      (''server.shutdown_timeout'', sc_ShutdownTimeout (cfg_Server cfg)),
      (''upstream.retry_backoff'', uc_RetryBackoff (cfg_Upstream cfg)),
      (''upstream.health_check_interval'', uc_HealthCheckInterval (cfg_Upstream cfg)),
      (''upstream.health_check_timeout'', uc_HealthCheckTimeout (cfg_Upstream cfg)),
      (''upstream.breaker_interval'', uc_BreakerInterval (cfg_Upstream cfg)),
      (''upstream.breaker_timeout'', uc_BreakerTimeout (cfg_Upstream cfg)),
      (''upstream.default_timeout_non_stream'', uc_DefaultTimeoutNonStream (cfg_Upstream cfg)),
      (''upstream.default_timeout_stream'', uc_DefaultTimeoutStream (cfg_Upstream cfg))]"

definition validateConfig :: "runtime \<Rightarrow> Config \<Rightarrow> (config_error, unit) result" where
  "validateConfig rt cfg =
     andThen (failIf (sc_Port (cfg_Server cfg) \<le> 0 \<or> sc_Port (cfg_Server cfg) > 65535) BadPort) (\<lambda>_.
     andThen (allChecks (\<lambda>(name, value). validatePositiveDuration rt name value) (durationFields cfg)) (\<lambda>_.
     andThen (failIf (ac_RateLimitQPS (cfg_Auth cfg) \<le> 0) BadRateLimitQPS) (\<lambda>_.
     andThen (failIf (ac_RateLimitBurst (cfg_Auth cfg) \<le> 0) BadRateLimitBurst) (\<lambda>_.
     andThen (failIf (ac_Tokens (cfg_Auth cfg) = []) NoTokens) (\<lambda>_.
     andThen (allChecks (\<lambda>c. failIf (\<not> rt_ParseCIDR rt c) (BadTrustedCIDR c)) (sc_TrustedProxyCIDRs (cfg_Server cfg))) (\<lambda>_.
     andThen (allChecks (\<lambda>c. failIf (\<not> rt_ParseCIDR rt c) (BadMetricsCIDR c)) (mc_AllowedCIDRs (cfg_Metrics cfg))) (\<lambda>_.
     andThen (failIf (cfg_Providers cfg = []) NoProviders) (\<lambda>_.
     andThen (validateProvidersLoop rt [] (cfg_Providers cfg)) (\<lambda>_.
     validateTokenCatalog (cfg_Auth cfg))))))))))"

section \<open>Loading\<close>

definition ResolveConfigPath :: "runtime \<Rightarrow> bytes \<Rightarrow> bytes" where
  "ResolveConfigPath rt explicitPath =
     (if trimSpace explicitPath \<noteq> [] then trimSpace explicitPath
      else (let path = trimSpace (case rt_LookupEnv rt ''GATEWAY_CONFIG_PATH'' of None \<Rightarrow> [] | Some v \<Rightarrow> v) in
            if path \<noteq> [] then path else ''config.yaml''))"

text \<open>The second component is \<open>GlobalConfig\<close> after the call; \<^const>\<open>None\<close> in it is \<open>nil\<close>.\<close>

definition prepareConfig :: "runtime \<Rightarrow> bytes \<Rightarrow> (config_error, Config) result" where
  "prepareConfig rt path =
     (case rt_ReadFile rt (ResolveConfigPath rt path) of
        None \<Rightarrow> Inl OpenFailed
      | Some content \<Rightarrow>
          (case rt_Decode rt content (setDefaults zeroConfig) of
             None \<Rightarrow> Inl DecodeFailed
           | Some cfg \<Rightarrow>
               (case resolveStructuredTokens rt cfg of
                  Inl e \<Rightarrow> Inl e
                | Inr cfg \<Rightarrow>
               (case resolveProviderAPIKeys rt cfg of
                  Inl e \<Rightarrow> Inl e
                | Inr cfg \<Rightarrow>
               (case resolveMetricsConfig rt cfg of
                  Inl e \<Rightarrow> Inl e
                | Inr cfg \<Rightarrow>
                    (let cfg = applyUpstreamDefaults (normalizeConfig cfg) in
                     case validateConfig rt cfg of Inl e \<Rightarrow> Inl e | Inr _ \<Rightarrow> Inr cfg))))))"

definition LoadConfig :: "runtime \<Rightarrow> bytes \<Rightarrow> Config option \<Rightarrow> config_error option \<times> Config option" where
  "LoadConfig rt path globalConfig =
     (case prepareConfig rt path of
        Inl e \<Rightarrow> (Some e, globalConfig)
      | Inr cfg \<Rightarrow> (None, Some cfg))"

section \<open>Lemmas\<close>

lemma failIf_Inr [simp]: "failIf b e = Inr u \<longleftrightarrow> \<not> b"
  by (simp add: failIf_def)

lemma allChecks_Inr: "allChecks check xs = Inr u \<longleftrightarrow> (\<forall>x\<in>set xs. check x = Inr ())"
  by (induction xs) (auto simp: andThen_Inr_iff)

lemma uniqueLoop_set: "set (uniqueLoop seen xs) = trimSpace ` set xs - {[]} - set seen"
  by (induction seen xs rule: uniqueLoop.induct) (auto simp: Let_def)

lemma uniqueLoop_distinct: "distinct (uniqueLoop seen xs)"
  by (induction seen xs rule: uniqueLoop.induct) (auto simp: Let_def uniqueLoop_set)

lemma uniqueLoop_id:
  "distinct xs \<Longrightarrow> (\<forall>x\<in>set xs. trimSpace x = x \<and> x \<noteq> [] \<and> x \<notin> set seen) \<Longrightarrow> uniqueLoop seen xs = xs"
  by (induction seen xs rule: uniqueLoop.induct) (auto simp: Let_def)

lemma uniqueNonEmpty_idem [simp]: "uniqueNonEmpty (uniqueNonEmpty xs) = uniqueNonEmpty xs"
  unfolding uniqueNonEmpty_def
  by (rule uniqueLoop_id) (auto simp: uniqueLoop_set uniqueLoop_distinct)

lemma map_trim_unique [simp]: "map trimSpace (uniqueNonEmpty xs) = uniqueNonEmpty xs"
  unfolding uniqueNonEmpty_def by (rule map_idI) (auto simp: uniqueLoop_set)

lemma validateProvidersLoop_Inr:
  "validateProvidersLoop rt seen ps = Inr u \<longleftrightarrow>
     distinct (map pc_Name ps) \<and> (\<forall>p\<in>set ps. pc_Name p \<noteq> [] \<and> pc_Name p \<notin> set seen \<and> validateProvider rt p = Inr ())"
  by (induction rt seen ps rule: validateProvidersLoop.induct) (auto simp: andThen_Inr_iff intro: rev_image_eqI)

definition enabledTokens :: "Config \<Rightarrow> ClientTokenConfig list" where
  "enabledTokens cfg = filter (\<lambda>t. \<not> ct_Disabled t) (ac_Tokens (cfg_Auth cfg))"

lemma validateTokensLoop_Inr:
  "validateTokensLoop i ns vs ts = Inr u \<longleftrightarrow>
     (let es = filter (\<lambda>t. \<not> ct_Disabled t) ts in
      distinct (map ct_Name es) \<and> distinct (map ct_Value es) \<and>
      (\<forall>t\<in>set es. ct_Name t \<noteq> [] \<and> ct_Value t \<noteq> [] \<and> ct_Name t \<notin> set ns \<and> ct_Value t \<notin> set vs \<and>
         0 \<le> ct_RateLimitQPS t \<and> 0 \<le> ct_RateLimitBurst t))"
  by (induction i ns vs ts rule: validateTokensLoop.induct) (auto simp: Let_def not_le not_less intro: rev_image_eqI)

lemma validatePositiveDuration_Inr:
  "validatePositiveDuration rt n v = Inr u \<longleftrightarrow> (\<exists>d. rt_Duration rt (trimSpace v) = Some d \<and> 0 < d)"
  by (auto simp: validatePositiveDuration_def split: option.splits)

lemma LoadConfig_Some:
  "LoadConfig rt path g = (None, g') \<longleftrightarrow> (\<exists>cfg. prepareConfig rt path = Inr cfg \<and> g' = Some cfg)"
  by (auto simp: LoadConfig_def split: sum.splits)

lemma prepareConfig_Inr:
  assumes "prepareConfig rt path = Inr cfg"
  obtains raw where "cfg = applyUpstreamDefaults (normalizeConfig raw)" "validateConfig rt cfg = Inr ()"
  using assms that by (auto simp: prepareConfig_def Let_def split: option.splits sum.splits)

lemma applyUpstreamDefaults_facts:
  "0 \<le> uc_DefaultMaxRetries (cfg_Upstream (applyUpstreamDefaults c))"
  "uc_RetryableStatusCodes (cfg_Upstream (applyUpstreamDefaults c)) \<noteq> []"
  "0 < uc_BreakerFailureRatio (cfg_Upstream (applyUpstreamDefaults c))"
  "uc_BreakerFailureRatio (cfg_Upstream (applyUpstreamDefaults c)) \<le> 1"
  "0 < uc_BreakerMinimumRequests (cfg_Upstream (applyUpstreamDefaults c))"
  "0 < uc_BreakerHalfOpenRequests (cfg_Upstream (applyUpstreamDefaults c))"
  "\<forall>p\<in>set (cfg_Providers (applyUpstreamDefaults c)). 0 \<le> pc_MaxRetries p"
  by (auto simp: applyUpstreamDefaults_def Let_def)

lemma normalized_models:
  "p \<in> set (cfg_Providers (applyUpstreamDefaults (normalizeConfig c))) \<Longrightarrow>
     distinct (pc_Models p) \<and> (\<forall>m\<in>set (pc_Models p). m \<noteq> [] \<and> trimSpace m = m)"
  by (auto simp: applyUpstreamDefaults_def normalizeConfig_def normalizeProvider_def Let_def
      uniqueNonEmpty_def uniqueLoop_distinct uniqueLoop_set)

lemma resolveProvidersLoop_Inr:
  "resolveProvidersLoop rt ps = Inr qs \<Longrightarrow> q \<in> set qs \<Longrightarrow>
     (let e = trimSpace (pc_APIKeyEnv q) in
      if e = [] then trimSpace (pc_APIKey q) = []
      else \<exists>v. rt_LookupEnv rt e = Some v \<and> trimSpace v \<noteq> [] \<and> pc_APIKey q = trimSpace v)"
proof (induction rt ps arbitrary: qs rule: resolveProvidersLoop.induct)
  case (2 rt p ps)
  from "2.prems" obtain rest where rest: "resolveProvidersLoop rt ps = Inr rest"
    by (auto simp: Let_def andThen_Inr_iff split: if_splits option.splits)
  show ?case
  proof (cases "q \<in> set rest")
    case True
    from "2.prems" have "trimSpace (pc_APIKeyEnv p) = [] \<or>
        (\<exists>v. rt_LookupEnv rt (trimSpace (pc_APIKeyEnv p)) = Some v \<and> trimSpace v \<noteq> [])"
      by (auto simp: Let_def andThen_Inr_iff split: if_splits option.splits)
    with "2.prems" "2.IH" rest True show ?thesis
      by (auto simp: Let_def split: if_splits)
  next
    case False
    with "2.prems" rest show ?thesis
      by (auto simp: Let_def andThen_Inr_iff split: if_splits option.splits)
  qed
qed simp

lemma resolveTokensLoop_Inr:
  "resolveTokensLoop rt i ts = Inr us \<Longrightarrow> u \<in> set us \<Longrightarrow> \<not> ct_Disabled u \<Longrightarrow>
     \<exists>v. rt_LookupEnv rt (ct_ValueEnv u) = Some v \<and> trimSpace v \<noteq> [] \<and> ct_Value u = trimSpace v"
proof (induction rt i ts arbitrary: us rule: resolveTokensLoop.induct)
  case (2 rt i t ts)
  from "2.prems"(1) obtain rest where rest: "resolveTokensLoop rt (i + 1) ts = Inr rest"
    by (auto simp: andThen_Inr_iff split: if_splits option.splits)
  show ?case
  proof (cases "u \<in> set rest")
    case True
    with "2.prems" "2.IH" rest show ?thesis
      by (cases "ct_Disabled t") (auto split: if_splits option.splits)
  next
    case False
    with "2.prems" rest show ?thesis
      by (auto simp: andThen_Inr_iff split: if_splits option.splits)
  qed
qed simp

lemma resolveMetricsConfig_keeps:
  "resolveMetricsConfig rt c = Inr c' \<Longrightarrow> cfg_Auth c' = cfg_Auth c \<and> cfg_Providers c' = cfg_Providers c"
  by (auto simp: resolveMetricsConfig_def Let_def split: if_splits option.splits)

lemma prepareConfig_stages:
  assumes "prepareConfig rt path = Inr cfg"
  obtains c :: Config and ts ps and c' :: Config where
    "resolveTokensLoop rt 0 (ac_Tokens (cfg_Auth c)) = Inr ts" "resolveProvidersLoop rt (cfg_Providers c) = Inr ps"
    "ac_Tokens (cfg_Auth c') = ts" "cfg_Providers c' = ps" "cfg = applyUpstreamDefaults (normalizeConfig c')"
proof -
  from assms obtain c c1 c2 c3 where r: "resolveStructuredTokens rt c = Inr c1" "resolveProviderAPIKeys rt c1 = Inr c2"
    "resolveMetricsConfig rt c2 = Inr c3" and cfg: "cfg = applyUpstreamDefaults (normalizeConfig c3)"
    by (auto simp: prepareConfig_def Let_def split: option.splits sum.splits)
  from r(1) obtain ts where ts: "resolveTokensLoop rt 0 (ac_Tokens (cfg_Auth c)) = Inr ts"
      "c1 = c\<lparr>cfg_Auth := (cfg_Auth c)\<lparr>ac_Tokens := ts\<rparr>\<rparr>"
    by (auto simp: resolveStructuredTokens_def andThen_Inr_iff)
  from r(2) obtain ps where ps: "resolveProvidersLoop rt (cfg_Providers c1) = Inr ps" "c2 = c1\<lparr>cfg_Providers := ps\<rparr>"
    by (auto simp: resolveProviderAPIKeys_def andThen_Inr_iff)
  show thesis
    using that [of c ts ps c3] ts ps cfg resolveMetricsConfig_keeps [OF r(3)] by simp
qed

text \<open>A small runtime for examples: one token and one provider, both with secrets in the
  environment.\<close>

definition demoProvider :: ProviderConfig where
  "demoProvider = \<lparr>pc_Name = ''openai'', pc_BaseURL = ''https://h'', pc_APIKeyEnv = ''K'', pc_APIKey = [],
     pc_Models = [''m''], pc_MaxRetries = 0, pc_HealthCheckPath = [], pc_TimeoutNonStream = [], pc_TimeoutStream = []\<rparr>"

definition demoToken :: ClientTokenConfig where
  "demoToken = \<lparr>ct_Name = ''t'', ct_ValueEnv = ''T'', ct_Value = [], ct_RateLimitQPS = 0, ct_RateLimitBurst = 0,
     ct_Disabled = False, ct_AllowedModels = []\<rparr>"

definition demoRuntime :: runtime where
  "demoRuntime = \<lparr>rt_LookupEnv = (\<lambda>k. if k = ''K'' then Some ''sk'' else if k = ''T'' then Some ''tok'' else None),
     rt_Duration = (\<lambda>s. if s = [] then None else Some 1000000000),
     rt_ParseURL = (\<lambda>s. Some \<lparr>url_Scheme = ''https'', url_Host = ''h'', url_Path = [], url_RawPath = [], url_RawQuery = []\<rparr>),
     rt_Hostname = url_Host, rt_PrivateIP = (\<lambda>_. None), rt_ParseCIDR = (\<lambda>_. True), rt_ReadFile = (\<lambda>_. Some []),
     rt_Decode = (\<lambda>_ c. Some (c\<lparr>cfg_Auth := (cfg_Auth c)\<lparr>ac_Tokens := [demoToken]\<rparr>, cfg_Providers := [demoProvider]\<rparr>))\<rparr>"

definition demoConfig :: Config where
  "demoConfig = (case prepareConfig demoRuntime [] of Inr c \<Rightarrow> c | Inl _ \<Rightarrow> zeroConfig)"



lemma demo_loads: "LoadConfig demoRuntime [] None = (None, Some demoConfig)"
proof -
  have "(case prepareConfig demoRuntime [] of Inr c \<Rightarrow> True | Inl _ \<Rightarrow> False)" by code_simp
  then show ?thesis by (simp add: LoadConfig_def demoConfig_def split: sum.splits)
qed

section \<open>Properties\<close>

definition loaded_ok :: "runtime \<Rightarrow> Config \<Rightarrow> bool" where
  "loaded_ok rt cfg \<longleftrightarrow>
     0 < sc_Port (cfg_Server cfg) \<and> sc_Port (cfg_Server cfg) \<le> 65535 \<and>
     (\<forall>(n, v)\<in>set (durationFields cfg). \<exists>d. rt_Duration rt (trimSpace v) = Some d \<and> 0 < d) \<and>
     0 < ac_RateLimitQPS (cfg_Auth cfg) \<and> 0 < ac_RateLimitBurst (cfg_Auth cfg) \<and>
     0 \<le> uc_DefaultMaxRetries (cfg_Upstream cfg) \<and> uc_RetryableStatusCodes (cfg_Upstream cfg) \<noteq> [] \<and>
     0 < uc_BreakerFailureRatio (cfg_Upstream cfg) \<and> uc_BreakerFailureRatio (cfg_Upstream cfg) \<le> 1 \<and>
     0 < uc_BreakerMinimumRequests (cfg_Upstream cfg) \<and> 0 < uc_BreakerHalfOpenRequests (cfg_Upstream cfg) \<and>
     cfg_Providers cfg \<noteq> [] \<and> distinct (map pc_Name (cfg_Providers cfg)) \<and>
     (\<forall>p\<in>set (cfg_Providers cfg). pc_Name p \<noteq> [] \<and> 0 \<le> pc_MaxRetries p \<and> pc_Models p \<noteq> [] \<and>
        distinct (pc_Models p) \<and> (\<forall>m\<in>set (pc_Models p). m \<noteq> [])) \<and>
     distinct (map ct_Name (enabledTokens cfg)) \<and> distinct (map ct_Value (enabledTokens cfg)) \<and>
     (\<forall>t\<in>set (enabledTokens cfg). ct_Value t \<noteq> [])"

lemma prepareConfig_loaded_ok:
  assumes "prepareConfig rt path = Inr cfg"
  shows "loaded_ok rt cfg"
proof -
  from assms obtain raw where cfg: "cfg = applyUpstreamDefaults (normalizeConfig raw)" and v: "validateConfig rt cfg = Inr ()"
    by (rule prepareConfig_Inr)
  note facts = applyUpstreamDefaults_facts [of "normalizeConfig raw", folded cfg]
  have m: "distinct (pc_Models p) \<and> (\<forall>m\<in>set (pc_Models p). m \<noteq> [])" if "p \<in> set (cfg_Providers cfg)" for p
    using normalized_models that cfg by blast
  from v show ?thesis
    using facts m
    by (auto simp: loaded_ok_def validateConfig_def andThen_Inr_iff allChecks_Inr validateTokenCatalog_def
        validatePositiveDuration_Inr validateProvidersLoop_Inr validateTokensLoop_Inr Let_def enabledTokens_def
        validateProvider_def not_le)
qed





text \<open>Normalising the base URL of a provider is not idempotent: the slash is cut after the white space, so
  white space before a final slash survives into the configuration, while the validation of the URL
  looks at the text with white space removed.\<close>

lemma baseURL_normalisation_leaves_space:
  "pc_BaseURL (normalizeProvider (demoProvider\<lparr>pc_BaseURL := ''https://h /''\<rparr>)) = ''https://h '' \<and>
   pc_BaseURL (normalizeProvider (normalizeProvider (demoProvider\<lparr>pc_BaseURL := ''https://h /''\<rparr>))) = ''https://h'' \<and>
   validateProviderBaseURL demoRuntime ''openai'' ''https://h '' = Inr ()"
  by (intro conjI) code_simp+

end
