(* ===== verification/Gateway_Model.thy ===== *)
theory Gateway_Model
  imports Go_Strings
begin

text \<open>
  The gateway context of \<open>internal/model/gateway.go\<close>: the resolved candidates of a request and
  the trace of what the proxy did with them. Methods on \<open>*GatewayContext\<close> return the updated
  record. The chat completion types of the same file belong to the protocol adapters and are
  not part of this theory.
\<close>

record ProviderRoute =
  pr_Name :: bytes
  pr_BaseURL :: bytes
  pr_APIKey :: bytes
  pr_Priority :: int
  pr_MaxRetries :: int
  pr_HealthCheckPath :: bytes
  pr_TimeoutNonStream :: bytes
  pr_TimeoutStream :: bytes

record UpstreamAttemptTrace =
  at_Provider :: bytes
  at_ProviderIndex :: int
  at_Attempt :: int
  at_AttemptBudget :: int
  at_StatusCode :: int
  at_Result :: bytes
  at_Reason :: bytes
  at_DurationMs :: int

record UpstreamFailoverTrace =
  ft_FromProvider :: bytes
  ft_ToProvider :: bytes
  ft_ProviderIndex :: int
  ft_FailoverCount :: int
  ft_Reason :: bytes

record RouteCandidateTrace =
  rt_Provider :: bytes
  rt_Priority :: int

record GatewayContext =
  gc_RequestedModel :: bytes
  gc_TargetProvider :: bytes
  gc_TargetModel :: bytes
  gc_APIKey :: bytes
  gc_BaseURL :: bytes
  gc_CandidateProviders :: "ProviderRoute list"
  gc_RouteSelectionPolicy :: bytes
  gc_RouteCandidates :: "RouteCandidateTrace list"
  gc_AttemptedProviders :: "bytes list"
  gc_UpstreamAttempts :: "UpstreamAttemptTrace list"
  gc_FailoverEvents :: "UpstreamFailoverTrace list"
  gc_FailoverCount :: int
  gc_StreamOutcome :: bytes
  gc_StreamChunks :: int
  gc_StreamBytes :: int
  gc_FinalStatusCode :: int
  gc_FinalErrorType :: bytes
  gc_FinalErrorCode :: bytes
  gc_FinalFailureReason :: bytes

text \<open>The zero value.\<close>

definition emptyGatewayContext :: GatewayContext where
  "emptyGatewayContext =
     \<lparr>gc_RequestedModel = [], gc_TargetProvider = [], gc_TargetModel = [], gc_APIKey = [], gc_BaseURL = [],
      gc_CandidateProviders = [], gc_RouteSelectionPolicy = [], gc_RouteCandidates = [],
      gc_AttemptedProviders = [], gc_UpstreamAttempts = [], gc_FailoverEvents = [], gc_FailoverCount = 0,
      gc_StreamOutcome = [], gc_StreamChunks = 0, gc_StreamBytes = 0, gc_FinalStatusCode = 0,
      gc_FinalErrorType = [], gc_FinalErrorCode = [], gc_FinalFailureReason = []\<rparr>"

definition noteProviderAttempt :: "GatewayContext \<Rightarrow> bytes \<Rightarrow> GatewayContext" where
  "noteProviderAttempt g provider =
     (if provider = [] then g
      else if gc_AttemptedProviders g \<noteq> [] \<and> last (gc_AttemptedProviders g) = provider then g
      else g\<lparr>gc_AttemptedProviders := gc_AttemptedProviders g @ [provider]\<rparr>)"

definition SetActiveProvider :: "GatewayContext \<Rightarrow> ProviderRoute \<Rightarrow> GatewayContext" where
  "SetActiveProvider g provider =
     noteProviderAttempt
       (g\<lparr>gc_TargetProvider := pr_Name provider, gc_APIKey := pr_APIKey provider,
          gc_BaseURL := pr_BaseURL provider\<rparr>) (pr_Name provider)"

definition RecordUpstreamAttempt :: "GatewayContext \<Rightarrow> UpstreamAttemptTrace \<Rightarrow> GatewayContext" where
  "RecordUpstreamAttempt g t = g\<lparr>gc_UpstreamAttempts := gc_UpstreamAttempts g @ [t]\<rparr>"

definition RecordFailover :: "GatewayContext \<Rightarrow> UpstreamFailoverTrace \<Rightarrow> GatewayContext" where
  "RecordFailover g t = g\<lparr>gc_FailoverEvents := gc_FailoverEvents g @ [t]\<rparr>"

definition SetTerminalError :: "GatewayContext \<Rightarrow> int \<Rightarrow> bytes \<Rightarrow> bytes \<Rightarrow> bytes \<Rightarrow> GatewayContext" where
  "SetTerminalError g status errorType errorCode failureReason =
     g\<lparr>gc_FinalStatusCode := status, gc_FinalErrorType := errorType, gc_FinalErrorCode := errorCode,
       gc_FinalFailureReason := failureReason\<rparr>"

lemma SetActiveProvider_simps [simp, ctx_simps]:
  "gc_TargetProvider (SetActiveProvider g p) = pr_Name p"
  "gc_APIKey (SetActiveProvider g p) = pr_APIKey p"
  "gc_BaseURL (SetActiveProvider g p) = pr_BaseURL p"
  "gc_TargetModel (SetActiveProvider g p) = gc_TargetModel g"
  "gc_CandidateProviders (SetActiveProvider g p) = gc_CandidateProviders g"
  "gc_UpstreamAttempts (SetActiveProvider g p) = gc_UpstreamAttempts g"
  "gc_FailoverEvents (SetActiveProvider g p) = gc_FailoverEvents g"
  "gc_FailoverCount (SetActiveProvider g p) = gc_FailoverCount g"
  "gc_FinalStatusCode (SetActiveProvider g p) = gc_FinalStatusCode g"
  "gc_FinalErrorCode (SetActiveProvider g p) = gc_FinalErrorCode g"
  by (simp_all add: SetActiveProvider_def noteProviderAttempt_def)

lemma attempts_SetActiveProvider:
  "gc_AttemptedProviders (SetActiveProvider g p) =
     (if pr_Name p = [] \<or> gc_AttemptedProviders g \<noteq> [] \<and> last (gc_AttemptedProviders g) = pr_Name p
      then gc_AttemptedProviders g else gc_AttemptedProviders g @ [pr_Name p])"
  by (simp add: SetActiveProvider_def noteProviderAttempt_def)

lemma Record_simps [simp, ctx_simps]:
  "gc_UpstreamAttempts (RecordUpstreamAttempt g t) = gc_UpstreamAttempts g @ [t]"
  "gc_FailoverEvents (RecordUpstreamAttempt g t) = gc_FailoverEvents g"
  "gc_FailoverCount (RecordUpstreamAttempt g t) = gc_FailoverCount g"
  "gc_CandidateProviders (RecordUpstreamAttempt g t) = gc_CandidateProviders g"
  "gc_AttemptedProviders (RecordUpstreamAttempt g t) = gc_AttemptedProviders g"
  "gc_TargetModel (RecordUpstreamAttempt g t) = gc_TargetModel g"
  "gc_TargetProvider (RecordUpstreamAttempt g t) = gc_TargetProvider g"
  "gc_FinalStatusCode (RecordUpstreamAttempt g t) = gc_FinalStatusCode g"
  "gc_UpstreamAttempts (RecordFailover g f) = gc_UpstreamAttempts g"
  "gc_FailoverEvents (RecordFailover g f) = gc_FailoverEvents g @ [f]"
  "gc_FailoverCount (RecordFailover g f) = gc_FailoverCount g"
  "gc_CandidateProviders (RecordFailover g f) = gc_CandidateProviders g"
  "gc_AttemptedProviders (RecordFailover g f) = gc_AttemptedProviders g"
  "gc_TargetModel (RecordFailover g f) = gc_TargetModel g"
  "gc_TargetProvider (RecordFailover g f) = gc_TargetProvider g"
  "gc_FinalStatusCode (RecordFailover g f) = gc_FinalStatusCode g"
  by (simp_all add: RecordUpstreamAttempt_def RecordFailover_def)

lemma SetTerminalError_simps [simp, ctx_simps]:
  "gc_FinalStatusCode (SetTerminalError g st ty cd rs) = st"
  "gc_FinalErrorType (SetTerminalError g st ty cd rs) = ty"
  "gc_FinalErrorCode (SetTerminalError g st ty cd rs) = cd"
  "gc_FinalFailureReason (SetTerminalError g st ty cd rs) = rs"
  "gc_UpstreamAttempts (SetTerminalError g st ty cd rs) = gc_UpstreamAttempts g"
  "gc_FailoverEvents (SetTerminalError g st ty cd rs) = gc_FailoverEvents g"
  "gc_FailoverCount (SetTerminalError g st ty cd rs) = gc_FailoverCount g"
  "gc_CandidateProviders (SetTerminalError g st ty cd rs) = gc_CandidateProviders g"
  "gc_AttemptedProviders (SetTerminalError g st ty cd rs) = gc_AttemptedProviders g"
  "gc_TargetProvider (SetTerminalError g st ty cd rs) = gc_TargetProvider g"
  by (simp_all add: SetTerminalError_def)

text \<open>The providers of a context that has worked through \<open>ps\<close> in order: every non-empty name once
  per visit, repeated visits of the same provider in a row counted once.\<close>

lemma attempted_distinct:
  assumes "distinct (map pr_Name ps)" "\<forall>p\<in>set ps. pr_Name p \<noteq> []" "gc_AttemptedProviders g = []"
  shows "gc_AttemptedProviders (foldl SetActiveProvider g ps) = map pr_Name ps"
  using assms(1,2)
proof (induction ps rule: rev_induct)
  case (snoc p ps)
  then have "ps = [] \<or> last (map pr_Name ps) \<noteq> pr_Name p"
    by (cases ps rule: rev_cases) auto
  with snoc show ?case
    by (auto simp: attempts_SetActiveProvider)
qed (use assms(3) in simp)

end
