(* ===== verification/Routing.thy ===== *)
theory Routing
  imports Config_Model Gateway_Model "HOL-Library.Multiset"
begin

text \<open>
  Model routing, \<open>internal/middleware/router.go\<close>: the table from model names to candidate providers,
  its cache (keyed by the identity of the configuration, not by its contents), and the reordering
  by health. The table is a map; the loops follow the source. What routing relies on from the
  health component is the locale \<open>health_resolver\<close>.
\<close>

section \<open>The route table\<close>

definition routePolicyConfiguredOrder :: bytes where "routePolicyConfiguredOrder = ''configured_order''"
definition routePolicyHealthyFirst :: bytes where "routePolicyHealthyFirst = ''healthy_then_configured_order''"

record routeEntry =
  re_candidates :: "ProviderRoute list"
  re_routeCandidates :: "RouteCandidateTrace list"

type_synonym routeMap = "bytes \<Rightarrow> routeEntry option"

definition buildRouteCandidates :: "ProviderRoute list \<Rightarrow> RouteCandidateTrace list" where
  "buildRouteCandidates candidates =
     map (\<lambda>c. \<lparr>rt_Provider = pr_Name c, rt_Priority = pr_Priority c\<rparr>) candidates"

definition providerRoute :: "nat \<Rightarrow> ProviderConfig \<Rightarrow> ProviderRoute" where
  "providerRoute i provider =
     \<lparr>pr_Name = pc_Name provider, pr_BaseURL = pc_BaseURL provider, pr_APIKey = pc_APIKey provider,
      pr_Priority = int i + 1, pr_MaxRetries = pc_MaxRetries provider,
      pr_HealthCheckPath = pc_HealthCheckPath provider, pr_TimeoutNonStream = pc_TimeoutNonStream provider,
      pr_TimeoutStream = pc_TimeoutStream provider\<rparr>"

text \<open>The inner loop over the models of one provider, and the outer loop over the providers. A missing
  key of the map is the empty list, as indexing a Go map gives the zero value.\<close>

fun addModels :: "ProviderRoute \<Rightarrow> bytes list \<Rightarrow> (bytes \<Rightarrow> ProviderRoute list) \<Rightarrow> (bytes \<Rightarrow> ProviderRoute list)" where
  "addModels route [] m = m"
| "addModels route (supportedModel # models) m =
     addModels route models (m(supportedModel := m supportedModel @ [route]))"

fun addProviders :: "nat \<Rightarrow> ProviderConfig list \<Rightarrow> (bytes \<Rightarrow> ProviderRoute list) \<Rightarrow> (bytes \<Rightarrow> ProviderRoute list)" where
  "addProviders i [] m = m"
| "addProviders i (provider # providers) m =
     addProviders (i + 1) providers (addModels (providerRoute i provider) (pc_Models provider) m)"

definition buildRouteTable :: "Config \<Rightarrow> routeMap" where
  "buildRouteTable cfg =
     (let byModelProviders = addProviders 0 (cfg_Providers cfg) (\<lambda>_. []) in
      (\<lambda>modelName.
         if byModelProviders modelName = [] then None
         else Some \<lparr>re_candidates = byModelProviders modelName,
                    re_routeCandidates = buildRouteCandidates (byModelProviders modelName)\<rparr>))"

section \<open>Health-aware order\<close>

type_synonym resolver = "ProviderRoute \<Rightarrow> bool \<times> bool"

record split_state =
  ss_healthy :: "ProviderRoute list"
  ss_unhealthy :: "ProviderRoute list"
  ss_healthyTraces :: "RouteCandidateTrace list"
  ss_unhealthyTraces :: "RouteCandidateTrace list"
  ss_sawUnhealthy :: bool
  ss_reordered :: bool

text \<open>The loop of \<open>applyHealthAwareRouting\<close>; a candidate without a trace is an index out of range, which
  panics.\<close>

fun splitLoop ::
  "resolver \<Rightarrow> ProviderRoute list \<Rightarrow> RouteCandidateTrace list \<Rightarrow> split_state \<Rightarrow> split_state option" where
  "splitLoop resolve [] traces st = Some st"
| "splitLoop resolve (candidate # candidates) [] st = None"
| "splitLoop resolve (candidate # candidates) (trace # traces) st =
     (let (known, healthy) = resolve candidate in
      if known \<and> \<not> healthy then
        splitLoop resolve candidates traces
          (st\<lparr>ss_sawUnhealthy := True, ss_unhealthy := ss_unhealthy st @ [candidate],
              ss_unhealthyTraces := ss_unhealthyTraces st @ [trace]\<rparr>)
      else
        splitLoop resolve candidates traces
          (st\<lparr>ss_reordered := (if ss_sawUnhealthy st then True else ss_reordered st),
              ss_healthy := ss_healthy st @ [candidate],
              ss_healthyTraces := ss_healthyTraces st @ [trace]\<rparr>))"

definition emptySplit :: split_state where
  "emptySplit = \<lparr>ss_healthy = [], ss_unhealthy = [], ss_healthyTraces = [], ss_unhealthyTraces = [],
     ss_sawUnhealthy = False, ss_reordered = False\<rparr>"

definition applyHealthAwareRouting :: "resolver option \<Rightarrow> routeEntry \<Rightarrow> (routeEntry \<times> bytes) option" where
  "applyHealthAwareRouting resolver entry =
     (case resolver of
        None \<Rightarrow> Some (entry, routePolicyConfiguredOrder)
      | Some resolve \<Rightarrow>
          if length (re_candidates entry) < 2 then Some (entry, routePolicyConfiguredOrder)
          else (case splitLoop resolve (re_candidates entry) (re_routeCandidates entry) emptySplit of
                  None \<Rightarrow> None
                | Some st \<Rightarrow>
                    if \<not> ss_reordered st then Some (entry, routePolicyConfiguredOrder)
                    else Some (\<lparr>re_candidates = ss_healthy st @ ss_unhealthy st,
                                re_routeCandidates = ss_healthyTraces st @ ss_unhealthyTraces st\<rparr>,
                               routePolicyHealthyFirst)))"

section \<open>The cache and the lookup\<close>

text \<open>Configurations live at addresses; \<open>GlobalConfig\<close> and the \<open>cfg\<close> field of a cached table are such
  addresses and are compared as pointers. \<open>rs_resolver\<close> is the registered health resolver.\<close>

record router_state =
  rs_heap :: "nat \<Rightarrow> Config"
  rs_GlobalConfig :: "nat option"
  rs_routeTableCache :: "(nat \<times> routeMap) option"
  rs_resolver :: "resolver option"

definition currentRouteTable :: "router_state \<Rightarrow> routeMap option \<times> router_state" where
  "currentRouteTable s =
     (case rs_GlobalConfig s of
        None \<Rightarrow> (None, s)
      | Some cfg \<Rightarrow>
          (case rs_routeTableCache s of
             Some (cachedCfg, table) \<Rightarrow>
               if cachedCfg = cfg then (Some table, s)
               else (let built = buildRouteTable (rs_heap s cfg) in
                     (Some built, s\<lparr>rs_routeTableCache := Some (cfg, built)\<rparr>))
           | None \<Rightarrow>
               (let built = buildRouteTable (rs_heap s cfg) in
                (Some built, s\<lparr>rs_routeTableCache := Some (cfg, built)\<rparr>))))"

definition WarmRouteTable :: "router_state \<Rightarrow> router_state" where
  "WarmRouteTable s = snd (currentRouteTable s)"

definition SetProviderHealthResolver :: "resolver option \<Rightarrow> router_state \<Rightarrow> router_state" where
  "SetProviderHealthResolver r s = s\<lparr>rs_resolver := r\<rparr>"

text \<open>Storing a freshly allocated configuration in \<open>GlobalConfig\<close>, as loading does.\<close>

definition storeConfig :: "nat \<Rightarrow> Config \<Rightarrow> router_state \<Rightarrow> router_state" where
  "storeConfig p cfg s = s\<lparr>rs_heap := (rs_heap s)(p := cfg), rs_GlobalConfig := Some p\<rparr>"

text \<open>The outer option is a panic, the inner one \<open>ok = false\<close>.\<close>

definition lookupRoute :: "bytes \<Rightarrow> router_state \<Rightarrow> (routeEntry \<times> bytes) option option \<times> router_state" where
  "lookupRoute targetModel s =
     (if targetModel = [] then (Some None, s)
      else (case currentRouteTable s of
              (None, s') \<Rightarrow> (Some None, s')
            | (Some table, s') \<Rightarrow>
                (case table targetModel of
                   None \<Rightarrow> (Some None, s')
                 | Some entry \<Rightarrow> (map_option Some (applyHealthAwareRouting (rs_resolver s') entry), s'))))"

definition matchProviders :: "bytes \<Rightarrow> router_state \<Rightarrow> ProviderRoute list option \<times> router_state" where
  "matchProviders targetModel s =
     (case lookupRoute targetModel s of
        (Some (Some (route, _)), s') \<Rightarrow> (Some (re_candidates route), s')
      | (Some None, s') \<Rightarrow> (Some [], s')
      | (None, s') \<Rightarrow> (None, s'))"

section \<open>The table holds what the configuration says\<close>

text \<open>The reference: for every provider in order, its route once per mention of the model.\<close>

definition configuredCandidates :: "Config \<Rightarrow> bytes \<Rightarrow> ProviderRoute list" where
  "configuredCandidates cfg modelName =
     concat (map (\<lambda>(i, p). map (\<lambda>_. providerRoute i p) (filter (\<lambda>x. x = modelName) (pc_Models p)))
       (enumerate 0 (cfg_Providers cfg)))"

lemma addModels_at: "addModels r ms m x = m x @ map (\<lambda>_. r) (filter (\<lambda>y. y = x) ms)"
  by (induction ms arbitrary: m) auto

lemma addProviders_at:
  "addProviders i ps m x =
     m x @ concat (map (\<lambda>(i, p). map (\<lambda>_. providerRoute i p) (filter (\<lambda>y. y = x) (pc_Models p))) (enumerate i ps))"
  by (induction ps arbitrary: i m) (auto simp: addModels_at)

lemma buildRouteTable_at:
  "buildRouteTable cfg x =
     (if configuredCandidates cfg x = [] then None
      else Some \<lparr>re_candidates = configuredCandidates cfg x,
                 re_routeCandidates = buildRouteCandidates (configuredCandidates cfg x)\<rparr>)"
  by (simp add: buildRouteTable_def Let_def addProviders_at configuredCandidates_def)

section \<open>The split is a stable partition\<close>

definition demoted :: "resolver \<Rightarrow> ProviderRoute \<Rightarrow> bool" where
  "demoted resolve c \<longleftrightarrow> fst (resolve c) \<and> \<not> snd (resolve c)"

text \<open>Whether some candidate that is kept comes after one that is demoted.\<close>

fun out_of_order :: "('a \<Rightarrow> bool) \<Rightarrow> bool \<Rightarrow> 'a list \<Rightarrow> bool" where
  "out_of_order P saw [] = False"
| "out_of_order P saw (x # xs) = (if P x then out_of_order P True xs else saw \<or> out_of_order P saw xs)"

lemma splitLoop_spec:
  assumes "length cs = length ts"
  shows "splitLoop resolve cs ts st = Some
    \<lparr>ss_healthy = ss_healthy st @ filter (\<lambda>c. \<not> demoted resolve c) cs,
     ss_unhealthy = ss_unhealthy st @ filter (demoted resolve) cs,
     ss_healthyTraces = ss_healthyTraces st @ map snd (filter (\<lambda>(c, t). \<not> demoted resolve c) (zip cs ts)),
     ss_unhealthyTraces = ss_unhealthyTraces st @ map snd (filter (\<lambda>(c, t). demoted resolve c) (zip cs ts)),
     ss_sawUnhealthy = (ss_sawUnhealthy st \<or> list_ex (demoted resolve) cs),
     ss_reordered = (ss_reordered st \<or> out_of_order (demoted resolve) (ss_sawUnhealthy st) cs)\<rparr>"
  using assms
proof (induction cs ts arbitrary: st rule: list_induct2)
  case (Cons c cs t ts)
  then show ?case
    by (cases "resolve c") (auto simp: demoted_def Let_def)
qed simp

lemma filter_traces:
  "map snd (filter (\<lambda>(c, t). P c) (zip cs (buildRouteCandidates cs))) = buildRouteCandidates (filter P cs)"
  unfolding buildRouteCandidates_def by (induction cs) auto

lemma out_of_order_sorted:
  "\<not> out_of_order P False xs \<Longrightarrow> xs = filter (\<lambda>x. \<not> P x) xs @ filter P xs"
proof -
  have all: "\<not> out_of_order P True xs \<Longrightarrow> filter P xs = xs \<and> filter (\<lambda>x. \<not> P x) xs = []" for xs
    by (induction xs) (auto split: if_splits)
  show "\<not> out_of_order P False xs \<Longrightarrow> xs = filter (\<lambda>x. \<not> P x) xs @ filter P xs"
    by (induction xs) (auto dest: all split: if_splits)
qed

text \<open>An entry as the table holds it: traces are those of the candidates.\<close>

definition entry_ok :: "routeEntry \<Rightarrow> bool" where
  "entry_ok e \<longleftrightarrow> re_routeCandidates e = buildRouteCandidates (re_candidates e)"

text \<open>With a resolver the order is that of the stable partition, whether or not it was rebuilt.\<close>

lemma applyHealthAwareRouting_spec:
  assumes "entry_ok e" "2 \<le> length (re_candidates e)"
  shows "\<exists>policy. applyHealthAwareRouting (Some resolve) e =
    Some (\<lparr>re_candidates = filter (\<lambda>c. \<not> demoted resolve c) (re_candidates e) @ filter (demoted resolve) (re_candidates e),
           re_routeCandidates = buildRouteCandidates
             (filter (\<lambda>c. \<not> demoted resolve c) (re_candidates e) @ filter (demoted resolve) (re_candidates e))\<rparr>, policy)
    \<and> (policy = (if out_of_order (demoted resolve) False (re_candidates e) then routePolicyHealthyFirst
                 else routePolicyConfiguredOrder))"
proof -
  have l: "length (re_candidates e) = length (re_routeCandidates e)"
    using assms(1) by (simp add: entry_ok_def buildRouteCandidates_def)
  have tr: "buildRouteCandidates xs @ buildRouteCandidates ys = buildRouteCandidates (xs @ ys)" for xs ys
    by (simp add: buildRouteCandidates_def)
  show ?thesis
    using assms out_of_order_sorted [of "demoted resolve" "re_candidates e"]
    unfolding applyHealthAwareRouting_def splitLoop_spec [OF l]
    by (auto simp: emptySplit_def entry_ok_def filter_traces tr)
qed

section \<open>What routing relies on\<close>

text \<open>A provider the health component knows nothing about counts as healthy.\<close>

locale health_resolver =
  fixes resolve :: resolver
  assumes unknown_healthy: "\<not> fst (resolve c) \<Longrightarrow> snd (resolve c)"
begin

lemma demoted_iff: "demoted resolve c \<longleftrightarrow> \<not> snd (resolve c)"
  using unknown_healthy by (auto simp: demoted_def)

lemma ordered_by_health:
  assumes "entry_ok e" "applyHealthAwareRouting (Some resolve) e = Some (e', policy)"
  shows "re_candidates e' = filter (\<lambda>c. snd (resolve c)) (re_candidates e) @ filter (\<lambda>c. \<not> snd (resolve c)) (re_candidates e)"
    and "entry_ok e'"
proof -
  have short: "xs = filter P xs @ filter (\<lambda>x. \<not> P x) xs" if "length xs < 2" for xs :: "ProviderRoute list" and P
    using that by (cases xs) auto
  have "re_candidates e' = filter (\<lambda>c. \<not> demoted resolve c) (re_candidates e) @ filter (demoted resolve) (re_candidates e)
      \<and> entry_ok e'"
  proof (cases "length (re_candidates e) < 2")
    case True
    with assms show ?thesis
      using short [OF True, of "\<lambda>c. \<not> demoted resolve c"] by (auto simp: applyHealthAwareRouting_def)
  next
    case False
    with applyHealthAwareRouting_spec [OF assms(1), of resolve] assms(2) show ?thesis
      by (auto simp: entry_ok_def)
  qed
  then show "re_candidates e' = filter (\<lambda>c. snd (resolve c)) (re_candidates e) @ filter (\<lambda>c. \<not> snd (resolve c)) (re_candidates e)"
    and "entry_ok e'"
    by (simp_all add: demoted_iff cong: filter_cong)
qed

text \<open>The first choice is healthy whenever some candidate is.\<close>

lemma first_choice_healthy:
  assumes "entry_ok e" "applyHealthAwareRouting (Some resolve) e = Some (e', policy)"
    "\<exists>c\<in>set (re_candidates e). snd (resolve c)"
  shows "snd (resolve (hd (re_candidates e')))"
proof -
  have "filter (\<lambda>c. snd (resolve c)) (re_candidates e) \<noteq> []" using assms(3) by (auto simp: filter_empty_conv)
  then obtain x xs where "filter (\<lambda>c. snd (resolve c)) (re_candidates e) = x # xs" by (cases "filter (\<lambda>c. snd (resolve c)) (re_candidates e)") auto
  with ordered_by_health(1) [OF assms(1,2)] show ?thesis
    by (metis (no_types, lifting) append_Cons filter_eq_ConsD list.sel(1))
qed

end

section \<open>The cache\<close>

definition cache_ok :: "router_state \<Rightarrow> bool" where
  "cache_ok s \<longleftrightarrow> (\<forall>p t. rs_routeTableCache s = Some (p, t) \<longrightarrow> t = buildRouteTable (rs_heap s p))"

lemma currentRouteTable_spec:
  assumes "cache_ok s" "currentRouteTable s = (t, s')"
  shows "t = map_option (\<lambda>p. buildRouteTable (rs_heap s p)) (rs_GlobalConfig s)" "cache_ok s'"
    "rs_heap s' = rs_heap s" "rs_GlobalConfig s' = rs_GlobalConfig s" "rs_resolver s' = rs_resolver s"
  using assms by (auto simp: currentRouteTable_def cache_ok_def Let_def split: option.splits if_splits prod.splits)

lemma table_entry_ok: "buildRouteTable cfg m = Some e \<Longrightarrow> entry_ok e \<and> re_candidates e = configuredCandidates cfg m \<and> re_candidates e \<noteq> []"
  by (auto simp: buildRouteTable_at entry_ok_def split: if_splits)

lemma applyHealthAwareRouting_total:
  "entry_ok e \<Longrightarrow> \<exists>r. applyHealthAwareRouting resolver e = Some r"
  using applyHealthAwareRouting_spec [of e]
  by (cases resolver; cases "length (re_candidates e) < 2") (fastforce simp: applyHealthAwareRouting_def)+

lemma applyHealthAwareRouting_perm:
  assumes "entry_ok e" "applyHealthAwareRouting resolver e = Some (e', policy)"
  shows "mset (re_candidates e') = mset (re_candidates e) \<and> entry_ok e'"
proof (cases resolver)
  case None
  with assms show ?thesis by (auto simp: applyHealthAwareRouting_def)
next
  case (Some resolve)
  show ?thesis
  proof (cases "length (re_candidates e) < 2")
    case True
    with Some assms show ?thesis by (auto simp: applyHealthAwareRouting_def)
  next
    case False
    then have "2 \<le> length (re_candidates e)" by simp
    from applyHealthAwareRouting_spec [OF assms(1) this, of resolve] assms(2) Some show ?thesis
      by (auto simp: entry_ok_def)
  qed
qed

lemma lookupRoute_total:
  assumes "cache_ok s" "lookupRoute m s = (res, s')"
  shows "res \<noteq> None" "cache_ok s'" "rs_heap s' = rs_heap s" "rs_GlobalConfig s' = rs_GlobalConfig s" "rs_resolver s' = rs_resolver s"
proof -
  obtain t s1 where c: "currentRouteTable s = (t, s1)" by fastforce
  note f = currentRouteTable_spec [OF assms(1) c]
  have "t = Some tb \<Longrightarrow> tb m = Some e \<Longrightarrow> \<exists>x. applyHealthAwareRouting (rs_resolver s1) e = Some x" for tb e
    using f(1) table_entry_ok applyHealthAwareRouting_total by (metis (no_types, lifting) map_option_eq_Some)
  then show "res \<noteq> None" using assms(2) c by (fastforce simp: lookupRoute_def split: if_splits option.splits)
  show "cache_ok s'" "rs_heap s' = rs_heap s" "rs_GlobalConfig s' = rs_GlobalConfig s" "rs_resolver s' = rs_resolver s"
    using assms c f by (auto simp: lookupRoute_def split: if_splits option.splits)
qed

lemma lookupRoute_entry:
  assumes "cache_ok s" "rs_GlobalConfig s = Some p" "lookupRoute m s = (Some (Some (entry, policy)), s')"
  shows "mset (re_candidates entry) = mset (configuredCandidates (rs_heap s p) m) \<and> re_candidates entry \<noteq> [] \<and>
    re_routeCandidates entry = buildRouteCandidates (re_candidates entry)"
proof -
  from assms(3) obtain t e where c: "currentRouteTable s = (Some t, s')" and e: "t m = Some e"
    and a: "applyHealthAwareRouting (rs_resolver s') e = Some (entry, policy)"
    by (auto simp: lookupRoute_def split: if_splits prod.splits option.splits)
  have "t = buildRouteTable (rs_heap s p)" using currentRouteTable_spec(1) [OF assms(1) c] assms(2) by simp
  with e table_entry_ok [of "rs_heap s p" m e]
  have ok: "entry_ok e" "re_candidates e = configuredCandidates (rs_heap s p) m" "configuredCandidates (rs_heap s p) m \<noteq> []" by auto
  from applyHealthAwareRouting_perm [OF ok(1) a] ok show ?thesis
    by (auto simp: entry_ok_def)
qed

text \<open>A configuration with two providers for the model \<open>m\<close>, the first of them unhealthy, for examples.\<close>

definition twoProviders :: Config where
  "twoProviders = zeroConfig\<lparr>cfg_Providers := [demoProvider\<lparr>pc_Name := ''a''\<rparr>, demoProvider\<lparr>pc_Name := ''b''\<rparr>]\<rparr>"

definition twoState :: router_state where
  "twoState = \<lparr>rs_heap = (\<lambda>_. twoProviders), rs_GlobalConfig = Some 1, rs_routeTableCache = None,
     rs_resolver = Some (\<lambda>c. (True, pr_Name c \<noteq> ''a''))\<rparr>"

lemma twoState_ok: "cache_ok twoState"
  by (simp add: cache_ok_def twoState_def)

section \<open>Properties\<close>

text \<open>The route table says what the configuration says: a model is routable exactly when some provider
  lists it, its candidates are the routes of the providers that list it in configured order, and
  each trace names its candidate with its priority.\<close>

theorem buildRouteTable_spec:
  "buildRouteTable cfg modelName =
     (if configuredCandidates cfg modelName = [] then None
      else Some \<lparr>re_candidates = configuredCandidates cfg modelName,
                 re_routeCandidates = buildRouteCandidates (configuredCandidates cfg modelName)\<rparr>) \<and>
   set (configuredCandidates cfg modelName) =
     {providerRoute i p | i p. i < length (cfg_Providers cfg) \<and> p = cfg_Providers cfg ! i \<and> modelName \<in> set (pc_Models p)}"
proof -
  have "set (configuredCandidates cfg modelName) =
     {providerRoute i p | i p. i < length (cfg_Providers cfg) \<and> p = cfg_Providers cfg ! i \<and> modelName \<in> set (pc_Models p)}"
    by (force simp: configuredCandidates_def in_set_enumerate_eq)
  then show ?thesis by (simp add: buildRouteTable_at)
qed

text \<open>C12. Health only changes the order: whatever resolver is installed, the candidates of a looked-up
  route are a permutation of the configured ones, none lost and none added, and the traces stay aligned with them.\<close>

theorem lookupRoute_permutes:
  assumes "cache_ok s" "rs_GlobalConfig s = Some p" "lookupRoute m s = (Some (Some (entry, policy)), s')"
  shows "mset (re_candidates entry) = mset (configuredCandidates (rs_heap s p) m) \<and> re_candidates entry \<noteq> [] \<and>
    re_routeCandidates entry = buildRouteCandidates (re_candidates entry)"
  using assms by (rule lookupRoute_entry)

theorem lookupRoute_permutes_witness:
  "\<exists>entry policy s'. lookupRoute ''m'' twoState = (Some (Some (entry, policy)), s') \<and>
     mset (re_candidates entry) = mset (configuredCandidates twoProviders ''m'') \<and> map pr_Name (re_candidates entry) = [''b'', ''a'']"
proof -
  let ?r = "case lookupRoute ''m'' twoState of (Some (Some (e, p)), s') \<Rightarrow> map pr_Name (re_candidates e) | _ \<Rightarrow> []"
  have n: "?r = [''b'', ''a'']" by code_simp
  then obtain entry policy s' where l: "lookupRoute ''m'' twoState = (Some (Some (entry, policy)), s')"
    by (auto split: prod.splits option.splits)
  from lookupRoute_permutes [OF twoState_ok _ l, of 1] n l show ?thesis by (auto simp: twoState_def)
qed



end
