(* ===== verification/Health.thy ===== *)
theory Health
  imports Config_Model Gateway_Model Routing
begin

text \<open>
  Upstream health: the circuit breakers of \<open>internal/proxy/transport.go\<close> and the active and passive
  health records of \<open>internal/proxy/health.go\<close>. The breaker itself is the package
  \<open>github.com/sony/gobreaker\<close>, which is not part of the repository: its operations are the fields of a
  record \<open>gobreaker\<close> over an arbitrary type of breakers, and nothing is assumed of them. Time is the
  argument \<open>now\<close>.
\<close>

section \<open>Errors and responses\<close>

text \<open>An error value as the gateway inspects it: its message, the sentinel errors in its chain
  (\<open>errors.Is\<close>), and whether it is a \<open>net.Error\<close> that reports a timeout.\<close>

datatype sentinel = Canceled | DeadlineExceeded | ErrClosed | EPIPE | ECONNRESET

record go_error =
  ge_Error :: bytes
  ge_Is :: "sentinel list"
  ge_Timeout :: bool

record http_response =
  resp_StatusCode :: int
  resp_Header :: header
  resp_Body :: bytes

section \<open>The state\<close>

datatype breakerState = StateClosed | StateHalfOpen | StateOpen

record breakerCounts =
  cn_Requests :: nat
  cn_TotalFailures :: nat

record breakerSettings =
  bs_Name :: bytes
  bs_MaxRequests :: nat
  bs_Interval :: int
  bs_Timeout :: int
  bs_ReadyToTrip :: "breakerCounts \<Rightarrow> bool"

text \<open>\<open>gb_Before\<close> and \<open>gb_After\<close> are the two halves of \<open>Execute\<close>: admission, which may fail, and the report of
  success or failure for the generation that was admitted. Every operation, also reading the state,
  can move the breaker to a new state; the list holds the states for which \<open>OnStateChange\<close> is
  called, in order.\<close>

record 'cb gobreaker =
  gb_New :: "breakerSettings \<Rightarrow> 'cb"
  gb_State :: "int \<Rightarrow> 'cb \<Rightarrow> breakerState \<times> 'cb \<times> breakerState list"
  gb_Before :: "int \<Rightarrow> 'cb \<Rightarrow> (go_error, nat) result \<times> 'cb \<times> breakerState list"
  gb_After :: "int \<Rightarrow> nat \<Rightarrow> bool \<Rightarrow> 'cb \<Rightarrow> 'cb \<times> breakerState list"

record ProviderDependencyStatus =
  ds_Name :: bytes
  ds_BaseURL :: bytes
  ds_Healthy :: bool
  ds_BreakerState :: bytes
  ds_StatusCode :: int
  ds_LastError :: bytes
  ds_Source :: bytes
  ds_UpdatedAt :: int

record 'cb upstream_state =
  us_cbMap :: "bytes \<Rightarrow> 'cb option"
  us_cbMetric :: "bytes \<Rightarrow> int option"
  us_baseURLCache :: "bytes \<Rightarrow> url option"
  us_healthMap :: "bytes \<Rightarrow> ProviderDependencyStatus option"
  us_healthMetric :: "bytes \<Rightarrow> int option"

section \<open>Base URLs\<close>

definition parseAndCacheBaseURL ::
  "runtime \<Rightarrow> bytes \<Rightarrow> 'cb upstream_state \<Rightarrow> url option \<times> 'cb upstream_state" where
  "parseAndCacheBaseURL rt raw s =
     (case us_baseURLCache s raw of
        Some u \<Rightarrow> (Some u, s)
      | None \<Rightarrow>
          (case rt_ParseURL rt raw of
             None \<Rightarrow> (None, s)
           | Some parsed \<Rightarrow> (Some parsed, s\<lparr>us_baseURLCache := (us_baseURLCache s)(raw \<mapsto> parsed)\<rparr>)))"

definition urls_ok :: "runtime \<Rightarrow> 'cb upstream_state \<Rightarrow> bool" where
  "urls_ok rt s \<longleftrightarrow> (\<forall>raw u. us_baseURLCache s raw = Some u \<longrightarrow> rt_ParseURL rt raw = Some u)"

lemma parseAndCacheBaseURL_spec:
  assumes "urls_ok rt s" "parseAndCacheBaseURL rt raw s = (u, s')"
  shows "u = rt_ParseURL rt raw" "urls_ok rt s'"
    "us_cbMap s' = us_cbMap s" "us_healthMap s' = us_healthMap s" "us_healthMetric s' = us_healthMetric s"
  using assms by (cases "us_baseURLCache s raw"; auto simp: parseAndCacheBaseURL_def urls_ok_def split: option.splits if_splits)+

section \<open>Circuit breakers\<close>

definition setCircuitBreakerMetric :: "bytes \<Rightarrow> breakerState \<Rightarrow> 'cb upstream_state \<Rightarrow> 'cb upstream_state" where
  "setCircuitBreakerMetric name st s =
     s\<lparr>us_cbMetric := (us_cbMetric s)(name \<mapsto> (case st of StateClosed \<Rightarrow> 0 | StateHalfOpen \<Rightarrow> 1 | StateOpen \<Rightarrow> 2))\<rparr>"

text \<open>The \<open>ReadyToTrip\<close> closure; \<open>rnd\<close> rounds the quotient to a \<open>float64\<close>.\<close>

definition readyToTrip :: "(rat \<Rightarrow> rat) \<Rightarrow> UpstreamConfig \<Rightarrow> breakerCounts \<Rightarrow> bool" where
  "readyToTrip rnd u counts =
     (if cn_Requests counts < uc_BreakerMinimumRequests u \<or> cn_Requests counts = 0 then False
      else rnd (of_nat (cn_TotalFailures counts) / of_nat (cn_Requests counts)) \<ge> uc_BreakerFailureRatio u)"

text \<open>\<open>d, _ := time.ParseDuration(...); if d <= 0 { d = fallback }\<close>: a failed parse gives zero.\<close>

definition durationOr :: "runtime \<Rightarrow> bytes \<Rightarrow> int \<Rightarrow> int" where
  "durationOr rt raw fallback =
     (let d = (case rt_Duration rt raw of None \<Rightarrow> 0 | Some d \<Rightarrow> d) in if d \<le> 0 then fallback else d)"

definition breakerSettingsFor :: "(rat \<Rightarrow> rat) \<Rightarrow> runtime \<Rightarrow> UpstreamConfig \<Rightarrow> bytes \<Rightarrow> breakerSettings" where
  "breakerSettingsFor rnd rt u key =
     \<lparr>bs_Name = key, bs_MaxRequests = uc_BreakerHalfOpenRequests u,
      bs_Interval = durationOr rt (uc_BreakerInterval u) 10000000000,
      bs_Timeout = durationOr rt (uc_BreakerTimeout u) 15000000000,
      bs_ReadyToTrip = readyToTrip rnd u\<rparr>"

definition getBreaker ::
  "'cb gobreaker \<Rightarrow> (rat \<Rightarrow> rat) \<Rightarrow> runtime \<Rightarrow> Config \<Rightarrow> bytes \<Rightarrow> 'cb upstream_state \<Rightarrow> 'cb \<times> 'cb upstream_state" where
  "getBreaker gb rnd rt cfg key s =
     (case us_cbMap s key of
        Some cb \<Rightarrow> (cb, s)
      | None \<Rightarrow>
          (let cb = gb_New gb (breakerSettingsFor rnd rt (cfg_Upstream cfg) key)
           in (cb, setCircuitBreakerMetric key StateClosed (s\<lparr>us_cbMap := (us_cbMap s)(key \<mapsto> cb)\<rparr>))))"

text \<open>The breaker after an operation, and the calls of \<open>OnStateChange\<close> that the operation made.\<close>

definition storeBreaker ::
  "bytes \<Rightarrow> 'cb \<Rightarrow> breakerState list \<Rightarrow> 'cb upstream_state \<Rightarrow> 'cb upstream_state" where
  "storeBreaker key cb changes s =
     fold (setCircuitBreakerMetric key) changes (s\<lparr>us_cbMap := (us_cbMap s)(key \<mapsto> cb)\<rparr>)"

lemma storeBreaker_simps [simp]:
  "us_cbMap (storeBreaker key cb changes s) = (us_cbMap s)(key \<mapsto> cb)"
  "us_healthMap (storeBreaker key cb changes s) = us_healthMap s"
  "us_healthMetric (storeBreaker key cb changes s) = us_healthMetric s"
  "us_baseURLCache (storeBreaker key cb changes s) = us_baseURLCache s"
proof -
  have f: "us_cbMap (fold (setCircuitBreakerMetric key) changes t) = us_cbMap t \<and>
      us_healthMap (fold (setCircuitBreakerMetric key) changes t) = us_healthMap t \<and>
      us_healthMetric (fold (setCircuitBreakerMetric key) changes t) = us_healthMetric t \<and>
      us_baseURLCache (fold (setCircuitBreakerMetric key) changes t) = us_baseURLCache t" for t :: "'cb upstream_state"
    by (induction changes arbitrary: t) (auto simp: setCircuitBreakerMetric_def)
  show "us_cbMap (storeBreaker key cb changes s) = (us_cbMap s)(key \<mapsto> cb)"
    "us_healthMap (storeBreaker key cb changes s) = us_healthMap s"
    "us_healthMetric (storeBreaker key cb changes s) = us_healthMetric s"
    "us_baseURLCache (storeBreaker key cb changes s) = us_baseURLCache s"
    by (simp_all add: storeBreaker_def f)
qed

definition breakerKeyForRequest :: "bytes \<Rightarrow> GatewayContext option \<Rightarrow> bytes" where
  "breakerKeyForRequest host ctx =
     (case ctx of
        None \<Rightarrow> host
      | Some g \<Rightarrow> if gc_TargetProvider g \<noteq> [] then gc_TargetProvider g @ ''@'' @ host else host)"

text \<open>\<open>RoundTrip\<close>. \<open>transport\<close> is the wrapped \<open>RoundTripper\<close> on the state of the network \<open>net\<close>. The failure
  reported to the breaker is an error, a status of at least 500, or 429; a response is handed on
  in every case in which there is one.\<close>

definition RoundTrip ::
  "'cb gobreaker \<Rightarrow> (rat \<Rightarrow> rat) \<Rightarrow> runtime \<Rightarrow> Config \<Rightarrow> int \<Rightarrow> ('net \<Rightarrow> (go_error, http_response) result \<times> 'net)
     \<Rightarrow> bytes \<Rightarrow> 'net \<Rightarrow> 'cb upstream_state \<Rightarrow> (go_error, http_response) result \<times> 'net \<times> 'cb upstream_state" where
  "RoundTrip gb rnd rt cfg now transport breakerKey net s =
     (let (cb, s) = getBreaker gb rnd rt cfg breakerKey s in
      case gb_Before gb now cb of
        (Inl e, cb', changes) \<Rightarrow> (Inl e, net, storeBreaker breakerKey cb' changes s)
      | (Inr generation, cb', changes) \<Rightarrow>
          (case transport net of
             (r, net') \<Rightarrow>
               (let success = (case r of
                      Inl _ \<Rightarrow> False
                    | Inr resp \<Rightarrow> \<not> (resp_StatusCode resp \<ge> 500 \<or> resp_StatusCode resp = 429));
                    (cb'', changes') = gb_After gb now generation success cb'
                in (r, net', storeBreaker breakerKey cb'' (changes @ changes') s))))"

definition breakerKeyForProvider ::
  "runtime \<Rightarrow> ProviderRoute \<Rightarrow> 'cb upstream_state \<Rightarrow> bytes \<times> 'cb upstream_state" where
  "breakerKeyForProvider rt provider s =
     (if pr_Name provider = [] then ([], s)
      else (case parseAndCacheBaseURL rt (pr_BaseURL provider) s of
              (Some parsed, s') \<Rightarrow>
                if url_Host parsed \<noteq> [] then (pr_Name provider @ ''@'' @ url_Host parsed, s') else ([], s')
            | (None, s') \<Rightarrow> ([], s')))"

definition circuitBreakerStateForProvider ::
  "'cb gobreaker \<Rightarrow> runtime \<Rightarrow> int \<Rightarrow> ProviderRoute \<Rightarrow> 'cb upstream_state \<Rightarrow> (bool \<times> breakerState) \<times> 'cb upstream_state" where
  "circuitBreakerStateForProvider gb rt now provider s =
     (case breakerKeyForProvider rt provider s of
        (breakerKey, s') \<Rightarrow>
          if breakerKey = [] then ((False, StateClosed), s')
          else (case us_cbMap s' breakerKey of
                  None \<Rightarrow> ((False, StateClosed), s')
                | Some cb \<Rightarrow>
                    (case gb_State gb now cb of
                       (st, cb', changes) \<Rightarrow> ((True, st), storeBreaker breakerKey cb' changes s'))))"

definition resolveCircuitBreakerHealth ::
  "'cb gobreaker \<Rightarrow> runtime \<Rightarrow> int \<Rightarrow> ProviderRoute \<Rightarrow> 'cb upstream_state \<Rightarrow> (bool \<times> bool) \<times> 'cb upstream_state" where
  "resolveCircuitBreakerHealth gb rt now provider s =
     (case circuitBreakerStateForProvider gb rt now provider s of
        ((known, st), s') \<Rightarrow> if \<not> known then ((False, True), s') else ((True, st \<noteq> StateOpen), s'))"

section \<open>Health records\<close>

datatype providerHealthVerdict = healthVerdictInconclusive | healthVerdictHealthy | healthVerdictUnhealthy

definition setProviderHealthMetric :: "bytes \<Rightarrow> bool \<Rightarrow> 'cb upstream_state \<Rightarrow> 'cb upstream_state" where
  "setProviderHealthMetric provider healthy s =
     s\<lparr>us_healthMetric := (us_healthMetric s)(provider \<mapsto> (if healthy then 1 else 0))\<rparr>"

definition resolveProviderHealth ::
  "'cb gobreaker \<Rightarrow> runtime \<Rightarrow> int \<Rightarrow> ProviderRoute \<Rightarrow> 'cb upstream_state \<Rightarrow> (bool \<times> bool) \<times> 'cb upstream_state" where
  "resolveProviderHealth gb rt now candidate s =
     (case resolveCircuitBreakerHealth gb rt now candidate s of
        ((breakerKnown, breakerHealthy), s') \<Rightarrow>
          if breakerKnown \<and> \<not> breakerHealthy then ((True, False), s')
          else (case us_healthMap s' (pr_Name candidate) of
                  None \<Rightarrow> ((False, True), s')
                | Some status \<Rightarrow> ((True, ds_Healthy status), s')))"

definition classifyPassiveProbeVerdict :: "int option \<Rightarrow> go_error option \<Rightarrow> providerHealthVerdict" where
  "classifyPassiveProbeVerdict resp err =
     (case (err, resp) of
        (None, Some statusCode) \<Rightarrow>
          if statusCode \<in> {401, 403, 404, 408, 429} then healthVerdictUnhealthy
          else if statusCode \<ge> 500 then healthVerdictUnhealthy
          else healthVerdictHealthy
      | _ \<Rightarrow> healthVerdictUnhealthy)"

definition classifyActiveProbeVerdict ::
  "ProviderConfig \<Rightarrow> int option \<Rightarrow> go_error option \<Rightarrow> providerHealthVerdict" where
  "classifyActiveProbeVerdict provider resp err =
     (case (err, resp) of
        (None, Some statusCode) \<Rightarrow>
          if trimSpace (pc_HealthCheckPath provider) \<noteq> [] then classifyPassiveProbeVerdict resp None
          else if statusCode = 200 then healthVerdictHealthy
          else if statusCode = 408 \<or> statusCode = 429 \<or> statusCode \<ge> 500 then healthVerdictUnhealthy
          else if statusCode \<ge> 400 then healthVerdictInconclusive
          else healthVerdictHealthy
      | _ \<Rightarrow> healthVerdictUnhealthy)"

definition updateProviderHealth ::
  "int \<Rightarrow> bytes \<Rightarrow> bytes \<Rightarrow> bool \<Rightarrow> int \<Rightarrow> bytes option \<Rightarrow> bytes \<Rightarrow> 'cb upstream_state \<Rightarrow> 'cb upstream_state" where
  "updateProviderHealth now providerName baseURL healthy statusCode err source s =
     setProviderHealthMetric providerName healthy
       (s\<lparr>us_healthMap := (us_healthMap s)(providerName \<mapsto>
          \<lparr>ds_Name = providerName, ds_BaseURL = baseURL, ds_Healthy = healthy, ds_BreakerState = [],
           ds_StatusCode = statusCode, ds_LastError = (case err of None \<Rightarrow> [] | Some m \<Rightarrow> m),
           ds_Source = source, ds_UpdatedAt = now\<rparr>)\<rparr>)"

definition markPassiveProbeResult ::
  "int \<Rightarrow> bytes \<Rightarrow> bytes \<Rightarrow> int option \<Rightarrow> go_error option \<Rightarrow> 'cb upstream_state \<Rightarrow> 'cb upstream_state" where
  "markPassiveProbeResult now providerName baseURL resp err s =
     (let statusCode = (case resp of None \<Rightarrow> 0 | Some c \<Rightarrow> c);
          healthy = (classifyPassiveProbeVerdict resp err = healthVerdictHealthy)
      in updateProviderHealth now providerName baseURL healthy statusCode (map_option ge_Error err) ''passive'' s)"

text \<open>The refresh: the loop over the providers builds the new map and sets gauges; then the gauges of the
  removed providers are deleted.\<close>

fun refreshLoop ::
  "int \<Rightarrow> ProviderConfig list \<Rightarrow> (bytes \<Rightarrow> ProviderDependencyStatus option) \<Rightarrow> 'cb upstream_state
     \<Rightarrow> (bytes \<Rightarrow> ProviderDependencyStatus option) \<times> 'cb upstream_state" where
  "refreshLoop now [] next' s = (next', s)"
| "refreshLoop now (provider # providers) next' s =
     (case us_healthMap s (pc_Name provider) of
        Some status \<Rightarrow>
          refreshLoop now providers (next'(pc_Name provider \<mapsto> status\<lparr>ds_BaseURL := pc_BaseURL provider\<rparr>))
            (setProviderHealthMetric (pc_Name provider) (ds_Healthy status) s)
      | None \<Rightarrow>
          refreshLoop now providers
            (next'(pc_Name provider \<mapsto> \<lparr>ds_Name = pc_Name provider, ds_BaseURL = pc_BaseURL provider, ds_Healthy = True,
               ds_BreakerState = [], ds_StatusCode = 0, ds_LastError = [], ds_Source = ''bootstrap'', ds_UpdatedAt = now\<rparr>))
            (setProviderHealthMetric (pc_Name provider) True s))"

definition RefreshProviderHealthSnapshot :: "int \<Rightarrow> Config \<Rightarrow> 'cb upstream_state \<Rightarrow> 'cb upstream_state" where
  "RefreshProviderHealthSnapshot now cfg s =
     (case refreshLoop now (cfg_Providers cfg) (\<lambda>_. None) s of
        (next', s') \<Rightarrow>
          s'\<lparr>us_healthMap := next',
             us_healthMetric := (\<lambda>name. if us_healthMap s name \<noteq> None \<and> next' name = None then None
                                        else us_healthMetric s' name)\<rparr>)"

definition GetUpstreamStatuses :: "'cb upstream_state \<Rightarrow> bytes \<Rightarrow> ProviderDependencyStatus option" where
  "GetUpstreamStatuses s = us_healthMap s"

definition breakerStateString :: "breakerState \<Rightarrow> bytes" where
  "breakerStateString st = (case st of StateClosed \<Rightarrow> ''closed'' | StateHalfOpen \<Rightarrow> ''half-open'' | StateOpen \<Rightarrow> ''open'')"

definition namedRoute :: "bytes \<Rightarrow> bytes \<Rightarrow> ProviderRoute" where
  "namedRoute name baseURL = \<lparr>pr_Name = name, pr_BaseURL = baseURL, pr_APIKey = [], pr_Priority = 0, pr_MaxRetries = 0,
     pr_HealthCheckPath = [], pr_TimeoutNonStream = [], pr_TimeoutStream = []\<rparr>"

fun effectiveLoop ::
  "'cb gobreaker \<Rightarrow> runtime \<Rightarrow> int \<Rightarrow> ProviderConfig list \<Rightarrow> (bytes \<Rightarrow> ProviderDependencyStatus option) \<Rightarrow> 'cb upstream_state
     \<Rightarrow> (bytes \<Rightarrow> ProviderDependencyStatus option) \<times> 'cb upstream_state" where
  "effectiveLoop gb rt now [] statuses s = (statuses, s)"
| "effectiveLoop gb rt now (provider # providers) statuses s =
     (case statuses (pc_Name provider) of
        None \<Rightarrow> effectiveLoop gb rt now providers statuses s
      | Some status \<Rightarrow>
          (case circuitBreakerStateForProvider gb rt now (namedRoute (pc_Name provider) (pc_BaseURL provider)) s of
             ((known, st), s') \<Rightarrow>
               if \<not> known then effectiveLoop gb rt now providers statuses s'
               else (let status = (case st of
                         StateOpen \<Rightarrow> status\<lparr>ds_BreakerState := breakerStateString st, ds_Healthy := False\<rparr>
                       | StateHalfOpen \<Rightarrow> status\<lparr>ds_BreakerState := breakerStateString st\<rparr>
                       | StateClosed \<Rightarrow> status)
                     in effectiveLoop gb rt now providers (statuses(pc_Name provider \<mapsto> status)) s')))"

definition GetEffectiveUpstreamStatuses ::
  "'cb gobreaker \<Rightarrow> runtime \<Rightarrow> int \<Rightarrow> Config option \<Rightarrow> 'cb upstream_state
     \<Rightarrow> (bytes \<Rightarrow> ProviderDependencyStatus option) \<times> 'cb upstream_state" where
  "GetEffectiveUpstreamStatuses gb rt now cfg s =
     (case cfg of
        None \<Rightarrow> (GetUpstreamStatuses s, s)
      | Some c \<Rightarrow> effectiveLoop gb rt now (cfg_Providers c) (GetUpstreamStatuses s) s)"

section \<open>Active probes\<close>

text \<open>The request a probe sends: the adapter's minimal completion (URL, header, body), or a plain GET.\<close>

datatype probe_request = PostProbe url header bytes | GetProbe bytes

text \<open>What a probe needs from outside: the adapter's request builder (\<^const>\<open>None\<close> when it fails),
  \<open>http.NewRequest\<close> for a GET, the client, and \<open>http.StatusText\<close>.\<close>

record probe_env =
  pe_Generate :: "bytes \<Rightarrow> url \<Rightarrow> bytes \<Rightarrow> bytes \<Rightarrow> probe_request option"
  pe_NewGet :: "bytes \<Rightarrow> (go_error, probe_request) result"
  pe_Do :: "probe_request \<Rightarrow> (go_error, int) result"
  pe_StatusText :: "int \<Rightarrow> bytes"

definition probeURL :: "ProviderConfig \<Rightarrow> bytes" where
  "probeURL provider =
     (let base = trimRight (pc_BaseURL provider) {CHR ''/''}; path = trimSpace (pc_HealthCheckPath provider) in
      if path \<noteq> [] then base @ ''/'' @ trimLeft path {CHR ''/''} else base)"

definition buildProbe ::
  "probe_env \<Rightarrow> runtime \<Rightarrow> ProviderConfig \<Rightarrow> 'cb upstream_state \<Rightarrow> (go_error, probe_request) result \<times> 'cb upstream_state" where
  "buildProbe pe rt provider s =
     (let (req, s') =
        (if pc_Models provider = [] then (None, s)
         else (case parseAndCacheBaseURL rt (pc_BaseURL provider) s of
                 (None, s') \<Rightarrow> (None, s')
               | (Some targetURL, s') \<Rightarrow>
                   (pe_Generate pe (pc_Name provider) targetURL (pc_APIKey provider) (hd (pc_Models provider)), s')))
      in case req of Some r \<Rightarrow> (Inr r, s') | None \<Rightarrow> (pe_NewGet pe (probeURL provider), s'))"

definition probeProvider ::
  "probe_env \<Rightarrow> runtime \<Rightarrow> int \<Rightarrow> ProviderConfig \<Rightarrow> 'cb upstream_state \<Rightarrow> 'cb upstream_state" where
  "probeProvider pe rt now provider s =
     (case buildProbe pe rt provider s of
        (Inl err, s') \<Rightarrow>
          updateProviderHealth now (pc_Name provider) (pc_BaseURL provider) False 0 (Some (ge_Error err)) ''active'' s'
      | (Inr req, s') \<Rightarrow>
          (case pe_Do pe req of
             Inl err \<Rightarrow>
               updateProviderHealth now (pc_Name provider) (pc_BaseURL provider) False 0 (Some (ge_Error err)) ''active'' s'
           | Inr statusCode \<Rightarrow>
               (let verdict = classifyActiveProbeVerdict provider (Some statusCode) None in
                if verdict = healthVerdictInconclusive then s'
                else (let healthy = (verdict = healthVerdictHealthy) in
                      updateProviderHealth now (pc_Name provider) (pc_BaseURL provider) healthy statusCode
                        (if healthy then None else Some (pe_StatusText pe statusCode)) ''active'' s'))))"

text \<open>The probes of a sweep run concurrently; \<open>order\<close> is the order in which they take effect.\<close>

definition probeConfiguredProviders ::
  "probe_env \<Rightarrow> runtime \<Rightarrow> int \<Rightarrow> ProviderConfig list \<Rightarrow> 'cb upstream_state \<Rightarrow> 'cb upstream_state" where
  "probeConfiguredProviders pe rt now order s = fold (probeProvider pe rt now) order s"

section \<open>Lemmas\<close>

lemma setProviderHealthMetric_simps [simp]:
  "us_healthMap (setProviderHealthMetric p h s) = us_healthMap s"
  "us_cbMap (setProviderHealthMetric p h s) = us_cbMap s"
  "us_baseURLCache (setProviderHealthMetric p h s) = us_baseURLCache s"
  "us_healthMetric (setProviderHealthMetric p h s) = (us_healthMetric s)(p \<mapsto> (if h then 1 else 0))"
  by (simp_all add: setProviderHealthMetric_def)

text \<open>Reading the state of a breaker twice at one instant gives the same answer: what the overlay of
  breaker states relies on.\<close>

definition state_stable :: "'cb gobreaker \<Rightarrow> int \<Rightarrow> bool" where
  "state_stable gb now \<longleftrightarrow>
     (\<forall>cb st cb' cs. gb_State gb now cb = (st, cb', cs) \<longrightarrow> fst (gb_State gb now cb') = st)"

definition key_state :: "'cb gobreaker \<Rightarrow> int \<Rightarrow> 'cb upstream_state \<Rightarrow> bytes \<Rightarrow> breakerState option" where
  "key_state gb now s key = map_option (\<lambda>cb. fst (gb_State gb now cb)) (us_cbMap s key)"

text \<open>The breaker key of a provider, and its state, as functions of the configuration alone.\<close>

definition providerKey :: "runtime \<Rightarrow> ProviderRoute \<Rightarrow> bytes" where
  "providerKey rt p =
     (if pr_Name p = [] then []
      else (case rt_ParseURL rt (pr_BaseURL p) of
              Some u \<Rightarrow> if url_Host u \<noteq> [] then pr_Name p @ ''@'' @ url_Host u else []
            | None \<Rightarrow> []))"

definition breakerView :: "'cb gobreaker \<Rightarrow> runtime \<Rightarrow> int \<Rightarrow> ProviderRoute \<Rightarrow> 'cb upstream_state \<Rightarrow> bool \<times> breakerState" where
  "breakerView gb rt now p s =
     (let key = providerKey rt p in
      if key = [] then (False, StateClosed)
      else (case key_state gb now s key of None \<Rightarrow> (False, StateClosed) | Some st \<Rightarrow> (True, st)))"

lemma breakerKeyForProvider_spec:
  assumes "urls_ok rt s" "breakerKeyForProvider rt p s = (k, s')"
  shows "k = providerKey rt p" "urls_ok rt s'" "us_cbMap s' = us_cbMap s" "us_healthMap s' = us_healthMap s"
proof -
  obtain u s1 where u: "parseAndCacheBaseURL rt (pr_BaseURL p) s = (u, s1)" by fastforce
  note spec = parseAndCacheBaseURL_spec [OF assms(1) u]
  show "k = providerKey rt p" "urls_ok rt s'" "us_cbMap s' = us_cbMap s" "us_healthMap s' = us_healthMap s"
    using assms u spec by (auto simp: breakerKeyForProvider_def providerKey_def split: if_splits option.splits)
qed

lemma circuitBreakerState_spec:
  assumes "urls_ok rt s" "state_stable gb now" "circuitBreakerStateForProvider gb rt now p s = (v, s')"
  shows "v = breakerView gb rt now p s" "urls_ok rt s'" "us_healthMap s' = us_healthMap s"
    "key_state gb now s' = key_state gb now s"
proof -
  obtain k s1 where k: "breakerKeyForProvider rt p s = (k, s1)" by fastforce
  note spec = breakerKeyForProvider_spec [OF assms(1) k]
  show "v = breakerView gb rt now p s" "urls_ok rt s'" "us_healthMap s' = us_healthMap s"
    using assms(3) k spec
    by (auto simp: circuitBreakerStateForProvider_def breakerView_def key_state_def urls_ok_def Let_def
        split: if_splits option.splits prod.splits)
  have stable: "fst (gb_State gb now cb') = st" if "gb_State gb now cb = (st, cb', cs)" for cb st cb' cs
    using assms(2) that unfolding state_stable_def by blast
  show "key_state gb now s' = key_state gb now s"
    using assms(3) k spec stable
    by (auto simp: circuitBreakerStateForProvider_def key_state_def fun_eq_iff
        split: if_splits option.splits prod.splits)
qed

text \<open>The health of a provider as routing sees it.\<close>

definition healthView :: "'cb gobreaker \<Rightarrow> runtime \<Rightarrow> int \<Rightarrow> ProviderRoute \<Rightarrow> 'cb upstream_state \<Rightarrow> bool \<times> bool" where
  "healthView gb rt now p s =
     (if breakerView gb rt now p s = (True, StateOpen) then (True, False)
      else (case us_healthMap s (pr_Name p) of None \<Rightarrow> (False, True) | Some st \<Rightarrow> (True, ds_Healthy st)))"

lemma resolveProviderHealth_spec:
  assumes "urls_ok rt s" "state_stable gb now"
  shows "fst (resolveProviderHealth gb rt now p s) = healthView gb rt now p s"
proof -
  obtain v s' where c: "circuitBreakerStateForProvider gb rt now p s = (v, s')" by fastforce
  note spec = circuitBreakerState_spec [OF assms c]
  obtain known st where v: "v = (known, st)" by fastforce
  with c spec(1) have "circuitBreakerStateForProvider gb rt now p s = ((known, st), s')" "breakerView gb rt now p s = (known, st)"
    by auto
  with spec(3) show ?thesis
    by (auto simp: resolveProviderHealth_def resolveCircuitBreakerHealth_def healthView_def split: option.splits)
qed

lemma resolveProviderHealth_unknown: "\<not> fst (fst (resolveProviderHealth gb rt now p s)) \<Longrightarrow> snd (fst (resolveProviderHealth gb rt now p s))"
  by (auto simp: resolveProviderHealth_def resolveCircuitBreakerHealth_def split: prod.splits if_splits option.splits)

interpretation resolved: health_resolver "\<lambda>c. fst (resolveProviderHealth gb rt now c s)" for gb rt now s
  by unfold_locales (rule resolveProviderHealth_unknown)

text \<open>The status the overlay computes for one provider.\<close>

definition overlay :: "'cb gobreaker \<Rightarrow> runtime \<Rightarrow> int \<Rightarrow> ProviderConfig \<Rightarrow> 'cb upstream_state \<Rightarrow> ProviderDependencyStatus \<Rightarrow> ProviderDependencyStatus" where
  "overlay gb rt now p s status =
     (case breakerView gb rt now (namedRoute (pc_Name p) (pc_BaseURL p)) s of
        (True, StateOpen) \<Rightarrow> status\<lparr>ds_BreakerState := ''open'', ds_Healthy := False\<rparr>
      | (True, StateHalfOpen) \<Rightarrow> status\<lparr>ds_BreakerState := ''half-open''\<rparr>
      | _ \<Rightarrow> status)"

lemma breakerView_cong:
  "key_state gb now s' = key_state gb now s \<Longrightarrow> breakerView gb rt now p s' = breakerView gb rt now p s"
  by (simp add: breakerView_def Let_def)

lemma overlay_cong: "key_state gb now s' = key_state gb now s \<Longrightarrow> overlay gb rt now p s' = overlay gb rt now p s"
  using breakerView_cong [of gb now s' s rt] by (intro ext) (simp add: overlay_def)

lemma effectiveLoop_spec:
  assumes "distinct (map pc_Name ps)" "urls_ok rt s" "state_stable gb now"
    "effectiveLoop gb rt now ps m s = (m', s')"
  shows "m' name = (case find (\<lambda>p. pc_Name p = name) ps of
      None \<Rightarrow> m name | Some p \<Rightarrow> map_option (overlay gb rt now p s) (m name))"
  using assms
proof (induction ps arbitrary: m s)
  case (Cons p ps)
  let ?r = "namedRoute (pc_Name p) (pc_BaseURL p)"
  have nin: "find (\<lambda>q. pc_Name q = pc_Name p) ps = None"
    using Cons.prems(1) by (auto simp: find_None_iff intro: rev_image_eqI)
  show ?case
  proof (cases "m (pc_Name p)")
    case None
    with Cons.prems nin Cons.IH [of s m] show ?thesis by auto
  next
    case (Some status)
    obtain v s1 where c: "circuitBreakerStateForProvider gb rt now ?r s = (v, s1)" by fastforce
    note spec = circuitBreakerState_spec [OF Cons.prems(2,3) c]
    obtain known st where v: "v = (known, st)" by fastforce
    have ov: "overlay gb rt now p s status = (if known then (case st of
                         StateOpen \<Rightarrow> status\<lparr>ds_BreakerState := breakerStateString st, ds_Healthy := False\<rparr>
                       | StateHalfOpen \<Rightarrow> status\<lparr>ds_BreakerState := breakerStateString st\<rparr>
                       | StateClosed \<Rightarrow> status) else status)"
      using spec(1) [symmetric] v by (cases known; cases st) (simp_all add: overlay_def breakerStateString_def)
    from Cons.prems(4) Some c v ov
    have "effectiveLoop gb rt now ps (m(pc_Name p \<mapsto> overlay gb rt now p s status)) s1 = (m', s')
        \<or> overlay gb rt now p s status = status \<and> effectiveLoop gb rt now ps m s1 = (m', s')"
      by (auto simp: Let_def split: if_splits)
    with Cons.IH [of s1] Cons.prems(1,3) spec(2) overlay_cong [OF spec(4)] Some nin show ?thesis
      by (auto split: option.splits)
  qed
qed simp

text \<open>The record a refresh leaves for a configured provider.\<close>

definition refreshed :: "int \<Rightarrow> ProviderConfig \<Rightarrow> ProviderDependencyStatus option \<Rightarrow> ProviderDependencyStatus" where
  "refreshed now p old = (case old of
     Some st \<Rightarrow> st\<lparr>ds_BaseURL := pc_BaseURL p\<rparr>
   | None \<Rightarrow> \<lparr>ds_Name = pc_Name p, ds_BaseURL = pc_BaseURL p, ds_Healthy = True, ds_BreakerState = [],
              ds_StatusCode = 0, ds_LastError = [], ds_Source = ''bootstrap'', ds_UpdatedAt = now\<rparr>)"

lemma refreshLoop_spec:
  assumes "distinct (map pc_Name ps)" "refreshLoop now ps m s = (m', s')"
  shows "m' name = (case find (\<lambda>p. pc_Name p = name) ps of
      None \<Rightarrow> m name | Some p \<Rightarrow> Some (refreshed now p (us_healthMap s name))) \<and>
    us_healthMetric s' name = (case find (\<lambda>p. pc_Name p = name) ps of
      None \<Rightarrow> us_healthMetric s name
    | Some p \<Rightarrow> Some (if ds_Healthy (refreshed now p (us_healthMap s name)) then 1 else 0))"
  using assms
proof (induction ps arbitrary: m s)
  case (Cons p ps)
  have nin: "find (\<lambda>q. pc_Name q = pc_Name p) ps = None"
    using Cons.prems(1) by (auto simp: find_None_iff intro: rev_image_eqI)
  have "refreshLoop now ps (m(pc_Name p \<mapsto> refreshed now p (us_healthMap s (pc_Name p))))
      (setProviderHealthMetric (pc_Name p) (ds_Healthy (refreshed now p (us_healthMap s (pc_Name p)))) s) = (m', s')"
    using Cons.prems(2) by (cases "us_healthMap s (pc_Name p)") (simp_all add: refreshed_def)
  from Cons.IH [OF _ this] Cons.prems(1) nin show ?case
    by (cases "pc_Name p = name"; cases "find (\<lambda>p. pc_Name p = name) ps") auto
qed simp

lemma configured_find:
  "name \<in> pc_Name ` set ps \<longleftrightarrow> find (\<lambda>p. pc_Name p = name) ps \<noteq> None"
  by (auto simp: find_None_iff)

lemma find_by_name: "distinct (map pc_Name ps) \<Longrightarrow> p \<in> set ps \<Longrightarrow> find (\<lambda>q. pc_Name q = pc_Name p) ps = Some p"
  by (induction ps) (auto intro: rev_image_eqI)

text \<open>A breaker that never changes state, for examples: the state is the value itself.\<close>

definition fixedBreaker :: "breakerState gobreaker" where
  "fixedBreaker = \<lparr>gb_New = (\<lambda>_. StateClosed), gb_State = (\<lambda>_ st. (st, st, [])),
     gb_Before = (\<lambda>_ st. (if st = StateOpen then Inl \<lparr>ge_Error = ''circuit breaker is open'', ge_Is = [], ge_Timeout = False\<rparr>
                           else Inr 0, st, [])),
     gb_After = (\<lambda>_ _ _ st. (st, []))\<rparr>"

definition emptyUpstream :: "'cb upstream_state" where
  "emptyUpstream = \<lparr>us_cbMap = (\<lambda>_. None), us_cbMetric = (\<lambda>_. None), us_baseURLCache = (\<lambda>_. None),
     us_healthMap = (\<lambda>_. None), us_healthMetric = (\<lambda>_. None)\<rparr>"

text \<open>A state in which provider \<open>a\<close> has a healthy record while its breaker is open.\<close>

definition sickUpstream :: "breakerState upstream_state" where
  "sickUpstream = emptyUpstream\<lparr>us_healthMap := [''a'' \<mapsto> refreshed 0 (demoProvider\<lparr>pc_Name := ''a''\<rparr>) None],
     us_cbMap := [''a@h'' \<mapsto> StateOpen]\<rparr>"

lemma fixedBreaker_stable: "state_stable fixedBreaker now"
  by (simp add: state_stable_def fixedBreaker_def)

lemma emptyUpstream_urls: "urls_ok rt emptyUpstream"
  by (simp add: urls_ok_def emptyUpstream_def)

text \<open>What a probe of one provider leaves for another, and for itself.\<close>

lemma updateProviderHealth_simps [simp]:
  "us_healthMap (updateProviderHealth now n b h c e src s) m =
     (if m = n then Some \<lparr>ds_Name = n, ds_BaseURL = b, ds_Healthy = h, ds_BreakerState = [], ds_StatusCode = c,
        ds_LastError = (case e of None \<Rightarrow> [] | Some x \<Rightarrow> x), ds_Source = src, ds_UpdatedAt = now\<rparr>
      else us_healthMap s m)"
  "us_healthMetric (updateProviderHealth now n b h c e src s) m =
     (if m = n then Some (if h then 1 else 0) else us_healthMetric s m)"
  "us_cbMap (updateProviderHealth now n b h c e src s) = us_cbMap s"
  "us_baseURLCache (updateProviderHealth now n b h c e src s) = us_baseURLCache s"
  by (simp_all add: updateProviderHealth_def)

text \<open>The request a probe sends, as a function of the configuration alone.\<close>

definition probeRequestOf :: "probe_env \<Rightarrow> runtime \<Rightarrow> ProviderConfig \<Rightarrow> (go_error, probe_request) result" where
  "probeRequestOf pe rt p =
     (case (if pc_Models p = [] then None
            else Option.bind (rt_ParseURL rt (pc_BaseURL p)) (\<lambda>u. pe_Generate pe (pc_Name p) u (pc_APIKey p) (hd (pc_Models p)))) of
        Some r \<Rightarrow> Inr r | None \<Rightarrow> pe_NewGet pe (probeURL p))"

lemma buildProbe_spec:
  assumes "urls_ok rt s" "buildProbe pe rt p s = (r, s')"
  shows "r = probeRequestOf pe rt p" "urls_ok rt s'" "us_healthMap s' = us_healthMap s" "us_healthMetric s' = us_healthMetric s"
proof -
  obtain u s1 where u: "parseAndCacheBaseURL rt (pc_BaseURL p) s = (u, s1)" by fastforce
  note spec = parseAndCacheBaseURL_spec [OF assms(1) u]
  show "r = probeRequestOf pe rt p" "urls_ok rt s'" "us_healthMap s' = us_healthMap s" "us_healthMetric s' = us_healthMetric s"
    using assms u spec by (auto simp: buildProbe_def probeRequestOf_def Let_def split: option.splits if_splits)
qed

text \<open>The record a probe writes, if it writes one.\<close>

definition probeRecord :: "probe_env \<Rightarrow> runtime \<Rightarrow> int \<Rightarrow> ProviderConfig \<Rightarrow> ProviderDependencyStatus option" where
  "probeRecord pe rt now p =
     us_healthMap (probeProvider pe rt now p (emptyUpstream :: unit upstream_state)) (pc_Name p)"

lemma probeProvider_spec:
  assumes "urls_ok rt s"
  shows "urls_ok rt (probeProvider pe rt now p s) \<and>
    us_healthMap (probeProvider pe rt now p s) n =
      (if n = pc_Name p \<and> probeRecord pe rt now p \<noteq> None then probeRecord pe rt now p else us_healthMap s n)"
proof -
  obtain r s1 where b: "buildProbe pe rt p s = (r, s1)" by fastforce
  obtain r0 s0 where b0: "buildProbe pe rt p (emptyUpstream :: unit upstream_state) = (r0, s0)" by fastforce
  note spec = buildProbe_spec [OF assms b] and spec0 = buildProbe_spec [OF emptyUpstream_urls b0]
  have e: "us_healthMap s0 (pc_Name p) = None" using spec0(3) by (simp add: emptyUpstream_def)
  show ?thesis
    using b b0 spec spec0 e
    by (auto simp: probeRecord_def probeProvider_def Let_def urls_ok_def split: sum.splits)
qed

lemma sweep_record:
  "distinct (map pc_Name xs) \<Longrightarrow> urls_ok rt s \<Longrightarrow>
     us_healthMap (fold (probeProvider pe rt now) xs s) n =
       (case find (\<lambda>p. pc_Name p = n \<and> probeRecord pe rt now p \<noteq> None) xs of
          None \<Rightarrow> us_healthMap s n | Some p \<Rightarrow> probeRecord pe rt now p)"
proof (induction xs arbitrary: s)
  case (Cons p xs)
  have nin: "find (\<lambda>q. pc_Name q = pc_Name p \<and> probeRecord pe rt now q \<noteq> None) xs = None"
    using Cons.prems(1) by (auto simp: find_None_iff intro: rev_image_eqI)
  from Cons.IH [of "probeProvider pe rt now p s"] Cons.prems probeProvider_spec [OF Cons.prems(2), of pe now p n] nin
  show ?case by (auto split: option.splits)
qed simp

lemma find_perm:
  assumes "mset qs = mset ps" and uniq: "\<And>p q. p \<in> set ps \<Longrightarrow> q \<in> set ps \<Longrightarrow> P p \<Longrightarrow> P q \<Longrightarrow> p = q"
  shows "find P qs = find P ps"
proof (cases "find P qs")
  case None
  then show ?thesis using mset_eq_setD [OF assms(1)] by (metis find_None_iff)
next
  case (Some q)
  then have q: "q \<in> set qs" "P q" by (auto simp: find_Some_iff)
  then have qp: "q \<in> set ps" using mset_eq_setD [OF assms(1)] by simp
  then obtain p where p: "find P ps = Some p" using q(2) by (metis find_None_iff not_None_eq)
  then have "p \<in> set ps" "P p" by (auto simp: find_Some_iff)
  with qp q(2) uniq Some p show ?thesis by auto
qed

section \<open>Properties\<close>



text \<open>C13. Routing and readiness use the same truth: for every configured provider that has a health
  record, the effective status reported to operators is healthy exactly when routing takes the
  provider for healthy.\<close>

theorem effective_status_is_routing_health:
  assumes "distinct (map pc_Name (cfg_Providers cfg))" "p \<in> set (cfg_Providers cfg)" "urls_ok rt s" "state_stable gb now"
    "us_healthMap s (pc_Name p) = Some status"
    "GetEffectiveUpstreamStatuses gb rt now (Some cfg) s = (m, s')"
  shows "\<exists>eff. m (pc_Name p) = Some eff \<and>
    fst (resolveProviderHealth gb rt now (namedRoute (pc_Name p) (pc_BaseURL p)) s) = (True, ds_Healthy eff)"
proof -
  from assms(6) have run: "effectiveLoop gb rt now (cfg_Providers cfg) (us_healthMap s) s = (m, s')"
    by (simp add: GetEffectiveUpstreamStatuses_def GetUpstreamStatuses_def)
  have "find (\<lambda>q. pc_Name q = pc_Name p) (cfg_Providers cfg) = Some p"
    by (rule find_by_name [OF assms(1,2)])
  with effectiveLoop_spec [OF assms(1,3,4) run] assms(5)
  have m: "m (pc_Name p) = Some (overlay gb rt now p s status)" by simp
  have "fst (resolveProviderHealth gb rt now (namedRoute (pc_Name p) (pc_BaseURL p)) s)
      = (True, ds_Healthy (overlay gb rt now p s status))"
    using assms(5) unfolding resolveProviderHealth_spec [OF assms(3,4)]
    by (cases "breakerView gb rt now (namedRoute (pc_Name p) (pc_BaseURL p)) s")
       (auto simp: healthView_def overlay_def namedRoute_def split: bool.splits breakerState.splits)
  with m show ?thesis by blast
qed

theorem effective_status_is_routing_health_witness:
  "\<exists>m s'. GetEffectiveUpstreamStatuses fixedBreaker demoRuntime 0 (Some twoProviders) sickUpstream = (m, s') \<and>
     (\<exists>eff. m ''a'' = Some eff \<and>
       fst (resolveProviderHealth fixedBreaker demoRuntime 0 (namedRoute ''a'' ''https://h'') sickUpstream) = (True, ds_Healthy eff))"
proof -
  let ?p = "demoProvider\<lparr>pc_Name := ''a''\<rparr>"
  obtain m s' where run: "GetEffectiveUpstreamStatuses fixedBreaker demoRuntime 0 (Some twoProviders) sickUpstream = (m, s')"
    by fastforce
  have h: "distinct (map pc_Name (cfg_Providers twoProviders))" "?p \<in> set (cfg_Providers twoProviders)"
    "us_healthMap sickUpstream (pc_Name ?p) = Some (refreshed 0 ?p None)" "urls_ok demoRuntime sickUpstream"
    by (simp_all add: twoProviders_def sickUpstream_def urls_ok_def emptyUpstream_def)
  from effective_status_is_routing_health [OF h(1,2,4) fixedBreaker_stable h(3) run] run show ?thesis
    by (auto simp: demoProvider_def)
qed

text \<open>Refreshing after a configuration change: the health map then covers exactly the configured
  providers, keeps the record of those it knew, starts new ones as healthy, and no gauge of a
  removed provider remains.\<close>

theorem RefreshProviderHealthSnapshot_spec:
  assumes "distinct (map pc_Name (cfg_Providers cfg))"
  shows "(us_healthMap (RefreshProviderHealthSnapshot now cfg s) name \<noteq> None
            \<longleftrightarrow> name \<in> pc_Name ` set (cfg_Providers cfg)) \<and>
    (\<forall>st. us_healthMap (RefreshProviderHealthSnapshot now cfg s) name = Some st \<longrightarrow>
       (case us_healthMap s name of
          Some old \<Rightarrow> ds_Healthy st = ds_Healthy old \<and> ds_UpdatedAt st = ds_UpdatedAt old
        | None \<Rightarrow> ds_Healthy st \<and> ds_Source st = ''bootstrap'') \<and>
       us_healthMetric (RefreshProviderHealthSnapshot now cfg s) name = Some (if ds_Healthy st then 1 else 0)) \<and>
    (us_healthMap s name \<noteq> None \<and> name \<notin> pc_Name ` set (cfg_Providers cfg) \<longrightarrow>
       us_healthMetric (RefreshProviderHealthSnapshot now cfg s) name = None)"
proof -
  obtain m' s' where run: "refreshLoop now (cfg_Providers cfg) (\<lambda>_. None) s = (m', s')" by fastforce
  note spec = refreshLoop_spec [OF assms run, of name]
  show ?thesis
    unfolding configured_find
    using spec run
    by (cases "find (\<lambda>p. pc_Name p = name) (cfg_Providers cfg)"; cases "us_healthMap s name")
       (auto simp: RefreshProviderHealthSnapshot_def refreshed_def)
qed

theorem RefreshProviderHealthSnapshot_spec_witness:
  "us_healthMap (RefreshProviderHealthSnapshot 0 twoProviders sickUpstream) ''b'' \<noteq> None \<and>
   us_healthMap (RefreshProviderHealthSnapshot 0 twoProviders sickUpstream) ''c'' = None"
proof -
  have d: "distinct (map pc_Name (cfg_Providers twoProviders))" by (simp add: twoProviders_def)
  have "''b'' \<in> pc_Name ` set (cfg_Providers twoProviders)" "''c'' \<notin> pc_Name ` set (cfg_Providers twoProviders)"
    by (auto simp: twoProviders_def)
  with RefreshProviderHealthSnapshot_spec [OF d, of 0 sickUpstream "''b''"]
    RefreshProviderHealthSnapshot_spec [OF d, of 0 sickUpstream "''c''"] show ?thesis by blast
qed

text \<open>C11. With the gateway's own resolver the candidates of a route are reordered into the healthy ones
  followed by the unhealthy ones, both in configured order, so the first choice is healthy whenever
  any candidate is.\<close>

theorem routing_prefers_healthy:
  assumes "entry_ok e"
    "applyHealthAwareRouting (Some (\<lambda>c. fst (resolveProviderHealth gb rt now c s))) e = Some (e', policy)"
  shows "re_candidates e' =
      filter (\<lambda>c. snd (fst (resolveProviderHealth gb rt now c s))) (re_candidates e) @
      filter (\<lambda>c. \<not> snd (fst (resolveProviderHealth gb rt now c s))) (re_candidates e) \<and>
    ((\<exists>c\<in>set (re_candidates e). snd (fst (resolveProviderHealth gb rt now c s))) \<longrightarrow>
      snd (fst (resolveProviderHealth gb rt now (hd (re_candidates e')) s)))"
  using resolved.ordered_by_health(1) [OF assms] resolved.first_choice_healthy [OF assms] by blast

theorem routing_prefers_healthy_witness:
  "\<exists>e' policy. applyHealthAwareRouting (Some (\<lambda>c. fst (resolveProviderHealth fixedBreaker demoRuntime 0 c sickUpstream)))
       \<lparr>re_candidates = [namedRoute ''a'' ''https://h'', namedRoute ''b'' ''https://h''],
        re_routeCandidates = buildRouteCandidates [namedRoute ''a'' ''https://h'', namedRoute ''b'' ''https://h'']\<rparr> = Some (e', policy) \<and>
     snd (fst (resolveProviderHealth fixedBreaker demoRuntime 0 (hd (re_candidates e')) sickUpstream))"
proof -
  let ?e = "\<lparr>re_candidates = [namedRoute ''a'' ''https://h'', namedRoute ''b'' ''https://h''],
        re_routeCandidates = buildRouteCandidates [namedRoute ''a'' ''https://h'', namedRoute ''b'' ''https://h'']\<rparr>"
  let ?r = "\<lambda>c. fst (resolveProviderHealth fixedBreaker demoRuntime 0 c sickUpstream)"
  have ok: "entry_ok ?e" by (simp add: entry_ok_def)
  then obtain e' policy where run: "applyHealthAwareRouting (Some ?r) ?e = Some (e', policy)"
    using applyHealthAwareRouting_total by (metis prod.exhaust)
  have "snd (?r (namedRoute ''b'' ''https://h''))"
    by (simp add: resolveProviderHealth_spec [OF _ fixedBreaker_stable] urls_ok_def sickUpstream_def emptyUpstream_def
        healthView_def breakerView_def providerKey_def namedRoute_def demoRuntime_def key_state_def)
  with routing_prefers_healthy [OF ok run] run show ?thesis by auto
qed

text \<open>Concurrent probes do not interfere: the health map after a sweep over distinct providers does not
  depend on the order in which the probes take effect.\<close>

theorem probe_order_irrelevant:
  assumes "distinct (map pc_Name ps)" "mset qs = mset ps" "urls_ok rt s"
  shows "us_healthMap (probeConfiguredProviders pe rt now qs s) = us_healthMap (probeConfiguredProviders pe rt now ps s)"
proof -
  have d: "distinct (map pc_Name qs)"
    using assms(1,2) by (metis mset_map mset_eq_imp_distinct_iff)
  have "p = q" if "p \<in> set ps" "q \<in> set ps" "pc_Name p = pc_Name q" for p q
    using assms(1) that by (auto simp: distinct_map inj_on_def)
  then have "find (\<lambda>p. pc_Name p = n \<and> probeRecord pe rt now p \<noteq> None) qs
      = find (\<lambda>p. pc_Name p = n \<and> probeRecord pe rt now p \<noteq> None) ps" for n
    by (intro find_perm [OF assms(2)]) auto
  then show ?thesis
    unfolding probeConfiguredProviders_def
    by (intro ext) (simp add: sweep_record [OF d assms(3)] sweep_record [OF assms(1,3)])
qed

theorem probe_order_irrelevant_witness:
  "us_healthMap (probeConfiguredProviders
       \<lparr>pe_Generate = (\<lambda>_ u k m. Some (PostProbe u (headerSet (\<lambda>_. None) ''k'' k) m)), pe_NewGet = (\<lambda>u. Inr (GetProbe u)), pe_Do = (\<lambda>_. Inr 200), pe_StatusText = (\<lambda>_. [])\<rparr>
       demoRuntime 0 (rev (cfg_Providers twoProviders)) sickUpstream) =
   us_healthMap (probeConfiguredProviders
       \<lparr>pe_Generate = (\<lambda>_ u k m. Some (PostProbe u (headerSet (\<lambda>_. None) ''k'' k) m)), pe_NewGet = (\<lambda>u. Inr (GetProbe u)), pe_Do = (\<lambda>_. Inr 200), pe_StatusText = (\<lambda>_. [])\<rparr>
       demoRuntime 0 (cfg_Providers twoProviders) sickUpstream)"
  by (rule probe_order_irrelevant) (simp_all add: twoProviders_def urls_ok_def sickUpstream_def emptyUpstream_def)

text \<open>The configured health check path is never requested: as soon as a provider lists a model (which
  validation requires), its base URL parses and the adapter builds its probe, the active probe is
  the completion request, whatever \<open>health_check_path\<close> says.\<close>

lemma health_check_path_unused:
  assumes "loaded_ok rt cfg" "p \<in> set (cfg_Providers cfg)" "rt_ParseURL rt (pc_BaseURL p) = Some u"
    "pe_Generate pe (pc_Name p) u (pc_APIKey p) (hd (pc_Models p)) = Some req" "urls_ok rt s"
  shows "fst (buildProbe pe rt p s) = Inr req"
proof -
  have "pc_Models p \<noteq> []" using assms(1,2) by (auto simp: loaded_ok_def)
  moreover obtain r s' where "buildProbe pe rt p s = (r, s')" by fastforce
  ultimately show ?thesis
    using buildProbe_spec(1) [OF assms(5), of pe p r s'] assms(3,4) by (simp add: probeRequestOf_def)
qed

end
