(* ===== verification/Monitor.thy ===== *)
theory Monitor
  imports Health
begin

text \<open>
  The health monitor of \<open>internal/proxy/health.go\<close>: its start, the forced sweep, and the life of the health state as a
  step relation in which the probes of the monitor goroutine, requests in flight, routing look-ups and the readiness
  endpoint interleave. Each step is one critical section of the program, so a run is one order in which the
  goroutines take effect.
\<close>

section \<open>The state and its operations\<close>

text \<open>\<open>ms_gatewayProxyOnce\<close> and \<open>ms_providerMonitorOnce\<close> tell whether the \<open>sync.Once\<close> of the proxy and of the monitor have fired, \<open>ms_healthResolver\<close> whether \<open>resolveProviderHealth\<close> is the
  installed resolver, \<open>ms_providerProbeClient\<close> whether the probe client is set, and \<open>ms_ticker\<close> is the period of the
  ticker of the monitor goroutine once it runs.\<close>

record 'cb monitor_state =
  ms_gatewayProxyOnce :: bool
  ms_providerMonitorOnce :: bool
  ms_healthResolver :: bool
  ms_providerProbeClient :: bool
  ms_ticker :: "int option"
  ms_upstream :: "'cb upstream_state"

definition initUpstreamHealthMonitor :: "runtime \<Rightarrow> int \<Rightarrow> Config \<Rightarrow> 'cb monitor_state \<Rightarrow> 'cb monitor_state" where
  "initUpstreamHealthMonitor rt now cfg ms =
     (if ms_providerMonitorOnce ms then ms
      else ms\<lparr>ms_providerMonitorOnce := True, ms_healthResolver := True,
              ms_upstream := RefreshProviderHealthSnapshot now cfg (ms_upstream ms),
              ms_ticker := Some (durationOr rt (uc_HealthCheckInterval (cfg_Upstream cfg)) 15000000000),
              ms_providerProbeClient := True\<rparr>)"

text \<open>\<open>NewGatewayProxy\<close> of \<open>proxy.go\<close> starts the monitor when it is first called.\<close>

definition NewGatewayProxy :: "runtime \<Rightarrow> int \<Rightarrow> Config \<Rightarrow> 'cb monitor_state \<Rightarrow> 'cb monitor_state" where
  "NewGatewayProxy rt now cfg ms =
     (if ms_gatewayProxyOnce ms then ms else (initUpstreamHealthMonitor rt now cfg ms)\<lparr>ms_gatewayProxyOnce := True\<rparr>)"

text \<open>\<open>order\<close> is the order in which the concurrent probes of the sweep take effect.\<close>

definition RunProviderHealthProbeNow ::
  "probe_env \<Rightarrow> runtime \<Rightarrow> int \<Rightarrow> ProviderConfig list \<Rightarrow> 'cb monitor_state \<Rightarrow> bool \<times> 'cb monitor_state" where
  "RunProviderHealthProbeNow pe rt now order ms =
     (if \<not> ms_providerProbeClient ms then (False, ms)
      else (True, ms\<lparr>ms_upstream := probeConfiguredProviders pe rt now order (ms_upstream ms)\<rparr>))"

text \<open>The steps. A probe of the monitor goroutine answers whatever the environment of its sweep says; a request reports its
  outcome to the breaker and, as the proxy does, to the health record of the configured provider it used.\<close>

inductive monitor_step ::
  "'cb gobreaker \<Rightarrow> (rat \<Rightarrow> rat) \<Rightarrow> runtime \<Rightarrow> Config \<Rightarrow> 'cb monitor_state \<Rightarrow> 'cb monitor_state \<Rightarrow> bool"
  for gb rnd rt cfg where
  start: "monitor_step gb rnd rt cfg ms (NewGatewayProxy rt now cfg ms)"
| probe: "ms_ticker ms \<noteq> None \<Longrightarrow> p \<in> set (cfg_Providers cfg) \<Longrightarrow>
    monitor_step gb rnd rt cfg ms (ms\<lparr>ms_upstream := probeProvider pe rt now p (ms_upstream ms)\<rparr>)"
| forced: "mset order = mset (cfg_Providers cfg) \<Longrightarrow>
    monitor_step gb rnd rt cfg ms (snd (RunProviderHealthProbeNow pe rt now order ms))"
| request: "RoundTrip gb rnd rt cfg now transport key () (ms_upstream ms) = (r, u, s) \<Longrightarrow>
    monitor_step gb rnd rt cfg ms (ms\<lparr>ms_upstream := s\<rparr>)"
| report: "p \<in> set (cfg_Providers cfg) \<Longrightarrow>
    monitor_step gb rnd rt cfg ms (ms\<lparr>ms_upstream := markPassiveProbeResult now (pc_Name p) (pc_BaseURL p) resp err (ms_upstream ms)\<rparr>)"
| resolve: "resolveProviderHealth gb rt now route (ms_upstream ms) = (v, s) \<Longrightarrow>
    monitor_step gb rnd rt cfg ms (ms\<lparr>ms_upstream := s\<rparr>)"
| statuses: "GetEffectiveUpstreamStatuses gb rt now (Some cfg) (ms_upstream ms) = (m, s) \<Longrightarrow>
    monitor_step gb rnd rt cfg ms (ms\<lparr>ms_upstream := s\<rparr>)"

definition initialMonitor :: "'cb monitor_state" where
  "initialMonitor = \<lparr>ms_gatewayProxyOnce = False, ms_providerMonitorOnce = False, ms_healthResolver = False, ms_providerProbeClient = False, ms_ticker = None,
     ms_upstream = emptyUpstream\<rparr>"

section \<open>The invariant\<close>

text \<open>The gauge a health record calls for.\<close>

definition gaugeOf :: "ProviderDependencyStatus \<Rightarrow> int" where
  "gaugeOf st = (if ds_Healthy st then 1 else 0)"

definition configured :: "Config \<Rightarrow> bytes \<Rightarrow> bytes \<Rightarrow> bool" where
  "configured cfg name baseURL \<longleftrightarrow> (\<exists>p\<in>set (cfg_Providers cfg). pc_Name p = name \<and> pc_BaseURL p = baseURL)"

text \<open>Exactly the breakers that exist have a gauge.\<close>

definition gauged :: "'cb upstream_state \<Rightarrow> bool" where
  "gauged s \<longleftrightarrow> (\<forall>key. us_cbMetric s key = None \<longleftrightarrow> us_cbMap s key = None)"

definition records_ok :: "runtime \<Rightarrow> Config \<Rightarrow> 'cb upstream_state \<Rightarrow> bool" where
  "records_ok rt cfg s \<longleftrightarrow> urls_ok rt s \<and> us_healthMetric s = map_option gaugeOf \<circ> us_healthMap s \<and>
     (\<forall>n st. us_healthMap s n = Some st \<longrightarrow> ds_Name st = n \<and> configured cfg n (ds_BaseURL st)) \<and>
     gauged s"

definition tracked :: "Config \<Rightarrow> 'cb upstream_state \<Rightarrow> bool" where
  "tracked cfg s \<longleftrightarrow> (\<forall>p\<in>set (cfg_Providers cfg). us_healthMap s (pc_Name p) \<noteq> None)"

definition monitor_ok :: "runtime \<Rightarrow> Config \<Rightarrow> 'cb monitor_state \<Rightarrow> bool" where
  "monitor_ok rt cfg ms \<longleftrightarrow> records_ok rt cfg (ms_upstream ms) \<and> ms_gatewayProxyOnce ms = ms_providerMonitorOnce ms \<and>
     (if ms_providerMonitorOnce ms
      then tracked cfg (ms_upstream ms) \<and> ms_healthResolver ms \<and> ms_providerProbeClient ms \<and> (\<exists>d>0. ms_ticker ms = Some d)
      else \<not> ms_healthResolver ms \<and> \<not> ms_providerProbeClient ms \<and> ms_ticker ms = None)"

text \<open>An operation that leaves the health records alone and handles the breakers properly.\<close>

definition only_breakers :: "runtime \<Rightarrow> 'cb upstream_state \<Rightarrow> 'cb upstream_state \<Rightarrow> bool" where
  "only_breakers rt s s' \<longleftrightarrow> (urls_ok rt s \<longrightarrow> urls_ok rt s') \<and> us_healthMap s' = us_healthMap s \<and> us_healthMetric s' = us_healthMetric s \<and>
     (gauged s \<longrightarrow> gauged s')"

lemma only_breakers_refl [simp]: "only_breakers rt s s"
  by (simp add: only_breakers_def)

lemma only_breakers_trans: "only_breakers rt s s' \<Longrightarrow> only_breakers rt s' s'' \<Longrightarrow> only_breakers rt s s''"
  by (auto simp: only_breakers_def)

lemma only_breakers_keeps:
  "only_breakers rt s s' \<Longrightarrow> records_ok rt cfg s \<Longrightarrow> records_ok rt cfg s'"
  "only_breakers rt s s' \<Longrightarrow> tracked cfg s' = tracked cfg s"
  by (auto simp: only_breakers_def records_ok_def tracked_def)

text \<open>Setting breaker gauges.\<close>

lemma breaker_gauges:
  "us_cbMetric (fold (setCircuitBreakerMetric key) cs s) k = None \<longleftrightarrow> us_cbMetric s k = None \<and> (k = key \<longrightarrow> cs = [])"
  by (induction cs arbitrary: s) (auto simp: setCircuitBreakerMetric_def)

lemma breaker_gauges_frame [simp]:
  "us_cbMap (fold (setCircuitBreakerMetric key) cs s) = us_cbMap s"
  "us_healthMap (fold (setCircuitBreakerMetric key) cs s) = us_healthMap s"
  "us_healthMetric (fold (setCircuitBreakerMetric key) cs s) = us_healthMetric s"
  "us_baseURLCache (fold (setCircuitBreakerMetric key) cs s) = us_baseURLCache s"
  by (induction cs arbitrary: s) (auto simp: setCircuitBreakerMetric_def)

lemma storeBreaker_only:
  assumes "us_cbMap s key \<noteq> None"
  shows "only_breakers rt s (storeBreaker key cb cs s)"
  using assms by (auto simp: only_breakers_def storeBreaker_def breaker_gauges urls_ok_def gauged_def)

lemma getBreaker_only:
  assumes "getBreaker gb rnd rt cfg key s = (cb, s')"
  shows "only_breakers rt s s'" "us_cbMap s' key \<noteq> None"
  using assms by (auto simp: getBreaker_def only_breakers_def setCircuitBreakerMetric_def urls_ok_def gauged_def Let_def split: option.splits)

lemma RoundTrip_only:
  assumes "RoundTrip gb rnd rt cfg now transport key net s = (r, net', s')"
  shows "only_breakers rt s s'"
proof -
  obtain cb s1 where g: "getBreaker gb rnd rt cfg key s = (cb, s1)" by fastforce
  have "\<exists>cb' cs. s' = storeBreaker key cb' cs s1"
    using assms g by (auto simp: RoundTrip_def Let_def split: prod.splits sum.splits)
  then show ?thesis
    using getBreaker_only [OF g] storeBreaker_only only_breakers_trans by metis
qed

lemma parseAndCacheBaseURL_only:
  "parseAndCacheBaseURL rt raw s = (u, s') \<Longrightarrow> only_breakers rt s s'"
  by (auto simp: parseAndCacheBaseURL_def only_breakers_def urls_ok_def gauged_def split: option.splits if_splits)

lemma breakerKey_only: "breakerKeyForProvider rt p s = (k, s') \<Longrightarrow> only_breakers rt s s'"
  by (auto simp: breakerKeyForProvider_def split: if_splits option.splits prod.splits dest: parseAndCacheBaseURL_only)

lemma circuitBreakerState_only:
  assumes "circuitBreakerStateForProvider gb rt now p s = (v, s')"
  shows "only_breakers rt s s'"
proof -
  obtain k s1 where k: "breakerKeyForProvider rt p s = (k, s1)" by fastforce
  have "s' = s1 \<or> (\<exists>cb cs. us_cbMap s1 k \<noteq> None \<and> s' = storeBreaker k cb cs s1)"
    using assms k by (auto simp: circuitBreakerStateForProvider_def split: if_splits option.splits prod.splits)
  then show ?thesis
    using breakerKey_only [OF k] storeBreaker_only only_breakers_trans by metis
qed

lemma resolveProviderHealth_only: "resolveProviderHealth gb rt now p s = (v, s') \<Longrightarrow> only_breakers rt s s'"
  by (auto simp: resolveProviderHealth_def resolveCircuitBreakerHealth_def split: prod.splits if_splits option.splits
      dest: circuitBreakerState_only)

lemma effectiveLoop_only: "effectiveLoop gb rt now ps m s = (m', s') \<Longrightarrow> only_breakers rt s s'"
proof (induction ps arbitrary: m s)
  case (Cons p ps)
  obtain v s1 where c: "circuitBreakerStateForProvider gb rt now (namedRoute (pc_Name p) (pc_BaseURL p)) s = (v, s1)" by fastforce
  have "(\<exists>m1. effectiveLoop gb rt now ps m1 s = (m', s')) \<or> (\<exists>m1. effectiveLoop gb rt now ps m1 s1 = (m', s'))"
    using Cons.prems c by (auto simp: Let_def split: option.splits if_splits prod.splits)
  then show ?case
    using Cons.IH circuitBreakerState_only [OF c] only_breakers_trans by blast
qed simp

text \<open>Writing one health record.\<close>

lemma updateProviderHealth_ok:
  assumes "records_ok rt cfg s" "configured cfg n b"
  shows "records_ok rt cfg (updateProviderHealth now n b h c e src s)"
    "tracked cfg s \<Longrightarrow> tracked cfg (updateProviderHealth now n b h c e src s)"
proof -
  have "us_cbMetric (updateProviderHealth now n b h c e src s) = us_cbMetric s"
    by (simp add: updateProviderHealth_def setProviderHealthMetric_def)
  then show "records_ok rt cfg (updateProviderHealth now n b h c e src s)"
    using assms by (auto simp: records_ok_def fun_eq_iff gaugeOf_def urls_ok_def gauged_def)
qed (simp add: tracked_def)

lemma probeProvider_ok:
  assumes "records_ok rt cfg s" "p \<in> set (cfg_Providers cfg)"
  shows "records_ok rt cfg (probeProvider pe rt now p s) \<and> (tracked cfg s \<longrightarrow> tracked cfg (probeProvider pe rt now p s))"
proof -
  obtain r s1 where b: "buildProbe pe rt p s = (r, s1)" by fastforce
  have o: "only_breakers rt s s1"
    using b by (auto simp: buildProbe_def Let_def split: if_splits option.splits prod.splits dest: parseAndCacheBaseURL_only)
  have c: "configured cfg (pc_Name p) (pc_BaseURL p)" using assms(2) by (auto simp: configured_def)
  note ok = only_breakers_keeps(1) [OF o assms(1)] and upd = updateProviderHealth_ok [OF only_breakers_keeps(1) [OF o assms(1)] c]
  show ?thesis
    using b ok upd only_breakers_keeps(2) [OF o, of cfg] by (auto simp: probeProvider_def Let_def split: sum.splits)
qed

lemma sweep_ok:
  "set order \<subseteq> set (cfg_Providers cfg) \<Longrightarrow> records_ok rt cfg s \<Longrightarrow>
     records_ok rt cfg (probeConfiguredProviders pe rt now order s) \<and>
     (tracked cfg s \<longrightarrow> tracked cfg (probeConfiguredProviders pe rt now order s))"
  unfolding probeConfiguredProviders_def
  by (induction order arbitrary: s) (use probeProvider_ok in fastforce)+

lemma record_configured:
  assumes "records_ok rt cfg s" "us_healthMap s n = Some st"
  shows "n \<in> pc_Name ` set (cfg_Providers cfg)"
proof -
  have "configured cfg n (ds_BaseURL st)" using assms unfolding records_ok_def by blast
  then show ?thesis by (auto simp: configured_def)
qed

text \<open>The start: the map is built from the configuration, so afterwards every configured provider has a record.\<close>

lemma refreshLoop_frame:
  "refreshLoop now ps m s = (m', s') \<Longrightarrow>
     us_cbMap s' = us_cbMap s \<and> us_cbMetric s' = us_cbMetric s \<and> us_baseURLCache s' = us_baseURLCache s"
  by (induction ps arbitrary: m s) (fastforce simp: setProviderHealthMetric_def split: option.splits)+

lemma refresh_ok:
  assumes "distinct (map pc_Name (cfg_Providers cfg))" "records_ok rt cfg s"
  shows "records_ok rt cfg (RefreshProviderHealthSnapshot now cfg s)" "tracked cfg (RefreshProviderHealthSnapshot now cfg s)"
proof -
  let ?s = "RefreshProviderHealthSnapshot now cfg s"
  let ?find = "\<lambda>n. find (\<lambda>p. pc_Name p = n) (cfg_Providers cfg)"
  obtain m' s' where run: "refreshLoop now (cfg_Providers cfg) (\<lambda>_. None) s = (m', s')" by fastforce
  have map: "us_healthMap ?s n = map_option (\<lambda>p. refreshed now p (us_healthMap s n)) (?find n)" for n
    using run refreshLoop_spec [OF assms(1) run, of n] by (simp add: RefreshProviderHealthSnapshot_def split: option.split)
  have known: "?find n \<noteq> None" if "us_healthMap s n = Some st" for n st
    using record_configured [OF assms(2) that] configured_find by blast
  have gauge: "us_healthMetric ?s n = map_option gaugeOf (us_healthMap ?s n)" for n
  proof (cases "us_healthMap s n")
    case None
    then have "us_healthMetric s n = None" using assms(2) by (simp add: records_ok_def)
    with None show ?thesis
      using run refreshLoop_spec [OF assms(1) run, of n] by (auto simp: RefreshProviderHealthSnapshot_def gaugeOf_def split: option.splits)
  next
    case (Some st)
    with known [OF Some] show ?thesis
      using run refreshLoop_spec [OF assms(1) run, of n] by (auto simp: RefreshProviderHealthSnapshot_def gaugeOf_def split: option.splits)
  qed
  have named: "ds_Name st = n \<and> configured cfg n (ds_BaseURL st)" if st: "us_healthMap ?s n = Some st" for n st
  proof -
    from st map obtain p where p: "?find n = Some p" "st = refreshed now p (us_healthMap s n)" by auto
    then have "pc_Name p = n" "p \<in> set (cfg_Providers cfg)" by (auto simp: find_Some_iff)
    with p assms(2) show ?thesis by (auto simp: refreshed_def configured_def records_ok_def split: option.splits)
  qed
  show "records_ok rt cfg ?s"
    using assms(2) gauge named run refreshLoop_frame [OF run]
    unfolding records_ok_def by (simp add: fun_eq_iff urls_ok_def gauged_def RefreshProviderHealthSnapshot_def)
  show "tracked cfg ?s"
    unfolding tracked_def map using configured_find [of _ "cfg_Providers cfg"] by auto
qed

lemma durationOr_pos: "0 < fallback \<Longrightarrow> 0 < durationOr rt raw fallback"
  by (simp add: durationOr_def Let_def)

text \<open>Every step keeps the invariant.\<close>

lemma monitor_upstream:
  assumes "monitor_ok rt cfg ms" "records_ok rt cfg s" "tracked cfg (ms_upstream ms) \<Longrightarrow> tracked cfg s"
  shows "monitor_ok rt cfg (ms\<lparr>ms_upstream := s\<rparr>)"
  using assms by (simp add: monitor_ok_def split: if_splits)

lemma monitor_breakers:
  "monitor_ok rt cfg ms \<Longrightarrow> only_breakers rt (ms_upstream ms) s \<Longrightarrow> monitor_ok rt cfg (ms\<lparr>ms_upstream := s\<rparr>)"
  by (rule monitor_upstream) (auto simp: monitor_ok_def only_breakers_keeps)

lemma monitor_step_keeps:
  assumes "distinct (map pc_Name (cfg_Providers cfg))" "monitor_step gb rnd rt cfg ms ms'" "monitor_ok rt cfg ms"
  shows "monitor_ok rt cfg ms'"
  using assms(2)
proof cases
  case (start now)
  then show ?thesis
    using assms(3) refresh_ok [OF assms(1), of rt "ms_upstream ms" now] durationOr_pos
    by (auto simp: NewGatewayProxy_def initUpstreamHealthMonitor_def monitor_ok_def)
next
  case (probe p pe now)
  then show ?thesis
    using assms(3) probeProvider_ok [of rt cfg "ms_upstream ms" p pe now] by (auto intro!: monitor_upstream simp: monitor_ok_def)
next
  case (forced order pe now)
  then have "set order \<subseteq> set (cfg_Providers cfg)" using mset_eq_setD by blast
  with forced show ?thesis
    using assms(3) sweep_ok [of order cfg rt "ms_upstream ms" pe now]
    by (auto simp: RunProviderHealthProbeNow_def monitor_ok_def split: if_splits)
next
  case (report p now resp err)
  then have "configured cfg (pc_Name p) (pc_BaseURL p)" by (auto simp: configured_def)
  with report assms(3) show ?thesis
    using updateProviderHealth_ok by (auto intro!: monitor_upstream simp: markPassiveProbeResult_def Let_def monitor_ok_def)
next
  case (statuses now m s)
  then show ?thesis
    using assms(3) by (auto intro: monitor_breakers dest: effectiveLoop_only simp: GetEffectiveUpstreamStatuses_def)
qed (use assms(3) in \<open>auto intro: monitor_breakers dest: RoundTrip_only resolveProviderHealth_only\<close>)

lemma initialMonitor_ok: "monitor_ok rt cfg initialMonitor"
  by (simp add: monitor_ok_def initialMonitor_def records_ok_def emptyUpstream_def urls_ok_def gauged_def fun_eq_iff)

lemma monitor_run_ok:
  assumes "distinct (map pc_Name (cfg_Providers cfg))" "(monitor_step gb rnd rt cfg)\<^sup>*\<^sup>* initialMonitor ms"
  shows "monitor_ok rt cfg ms"
  using assms(2) by (induction rule: rtranclp_induct) (simp_all add: initialMonitor_ok monitor_step_keeps [OF assms(1)])

section \<open>Properties\<close>


text \<open>A run: the monitor starts, then a request reports the status 503 of provider \<open>a\<close>.\<close>

definition probedMonitor :: "breakerState monitor_state" where
  "probedMonitor = (let ms = NewGatewayProxy demoRuntime 0 twoProviders initialMonitor in
     ms\<lparr>ms_upstream := markPassiveProbeResult 5 ''a'' (pc_BaseURL demoProvider) (Some 503) None (ms_upstream ms)\<rparr>)"

lemma probedMonitor_reached: "(monitor_step fixedBreaker id demoRuntime twoProviders)\<^sup>*\<^sup>* initialMonitor probedMonitor"
proof -
  have "demoProvider\<lparr>pc_Name := ''a''\<rparr> \<in> set (cfg_Providers twoProviders)" by (simp add: twoProviders_def)
  from monitor_step.report [OF this, of fixedBreaker id demoRuntime "NewGatewayProxy demoRuntime 0 twoProviders initialMonitor" 5 "Some 503" None]
    monitor_step.start [of fixedBreaker id demoRuntime twoProviders initialMonitor 0]
  show ?thesis by (simp add: probedMonitor_def Let_def)
qed


end
