(* ===== verification/Request_State.thy ===== *)
theory Request_State
  imports Body_Context Http_Model Gateway_Model Complex_Main
begin

text \<open>
  The request and the state that travels with it: \<open>internal/middleware/request_state.go\<close>, and the
  accessors of \<open>body.go\<close>, \<open>auth.go\<close>, \<open>requestmeta.go\<close> and \<open>router.go\<close>. One \<open>RequestState\<close> is shared by
  pointer by all middlewares of a request; here it is a field of the request that is passed along.
  The four other context fields are the older context keys, which the accessors still read
  when the shared state has no value.
\<close>

record RequestMetaContext =
  rm_RequestID :: bytes
  rm_TraceID :: bytes
  rm_TraceParent :: bytes
  rm_TraceState :: bytes

record ClientAuthContext =
  ca_Token :: bytes
  ca_Fingerprint :: bytes
  ca_TokenName :: bytes
  ca_RateLimitQPS :: rat
  ca_RateLimitBurst :: int
  ca_AllowedModels :: "bytes list"

record RequestBodyContext =
  bc_RawBody :: bytes
  bc_UpstreamBody :: bytes
  bc_RequestedModel :: bytes
  bc_IsStream :: bool
  bc_StreamOptionsInjected :: bool
  bc_DecodeError :: "scan_error option"

record RequestState =
  st_Meta :: RequestMetaContext
  st_HasMeta :: bool
  st_Auth :: ClientAuthContext
  st_HasAuth :: bool
  st_Body :: RequestBodyContext
  st_HasBody :: bool
  st_Gateway :: GatewayContext
  st_HasGateway :: bool

text \<open>The body of a request: the bytes that arrive before the end of the stream, or before it fails.\<close>

record body_stream =
  bs_data :: bytes
  bs_fails :: bool

record http_request =
  req_Method :: bytes
  req_URL :: url
  req_Header :: header
  req_Body :: "body_stream option"
  req_ContentLength :: int
  req_RemoteAddr :: bytes
  req_state :: "RequestState option"
  req_ctxMeta :: "RequestMetaContext option"
  req_ctxAuth :: "ClientAuthContext option"
  req_ctxBody :: "RequestBodyContext option"
  req_ctxGateway :: "GatewayContext option"

definition emptyRequestState :: RequestState where
  "emptyRequestState =
     \<lparr>st_Meta = \<lparr>rm_RequestID = [], rm_TraceID = [], rm_TraceParent = [], rm_TraceState = []\<rparr>, st_HasMeta = False,
      st_Auth = \<lparr>ca_Token = [], ca_Fingerprint = [], ca_TokenName = [], ca_RateLimitQPS = 0, ca_RateLimitBurst = 0,
                 ca_AllowedModels = []\<rparr>, st_HasAuth = False,
      st_Body = \<lparr>bc_RawBody = [], bc_UpstreamBody = [], bc_RequestedModel = [], bc_IsStream = False,
                 bc_StreamOptionsInjected = False, bc_DecodeError = None\<rparr>, st_HasBody = False,
      st_Gateway = emptyGatewayContext, st_HasGateway = False\<rparr>"

definition ensureRequestState :: "http_request \<Rightarrow> RequestState \<times> http_request" where
  "ensureRequestState r =
     (case req_state r of
        Some state \<Rightarrow> (state, r)
      | None \<Rightarrow> (emptyRequestState, r\<lparr>req_state := Some emptyRequestState\<rparr>))"

definition putRequestMeta :: "http_request \<Rightarrow> RequestMetaContext \<Rightarrow> http_request" where
  "putRequestMeta r meta =
     (let (state, nextReq) = ensureRequestState r
      in nextReq\<lparr>req_state := Some (state\<lparr>st_Meta := meta, st_HasMeta := True\<rparr>)\<rparr>)"

definition putClientAuthContext :: "http_request \<Rightarrow> ClientAuthContext \<Rightarrow> http_request" where
  "putClientAuthContext r auth =
     (let (state, nextReq) = ensureRequestState r
      in nextReq\<lparr>req_state := Some (state\<lparr>st_Auth := auth, st_HasAuth := True\<rparr>)\<rparr>)"

definition putRequestBodyContext :: "http_request \<Rightarrow> RequestBodyContext \<Rightarrow> http_request" where
  "putRequestBodyContext r body =
     (let (state, nextReq) = ensureRequestState r
      in nextReq\<lparr>req_state := Some (state\<lparr>st_Body := body, st_HasBody := True\<rparr>)\<rparr>)"

definition putGatewayContext :: "http_request \<Rightarrow> GatewayContext \<Rightarrow> http_request" where
  "putGatewayContext r gateway =
     (let (state, nextReq) = ensureRequestState r
      in nextReq\<lparr>req_state := Some (state\<lparr>st_Gateway := gateway, st_HasGateway := True\<rparr>)\<rparr>)"

definition GetRequestMeta :: "http_request \<Rightarrow> RequestMetaContext option" where
  "GetRequestMeta r =
     (case req_state r of
        Some state \<Rightarrow> if st_HasMeta state then Some (st_Meta state) else req_ctxMeta r
      | None \<Rightarrow> req_ctxMeta r)"

definition GetClientAuthContext :: "http_request \<Rightarrow> ClientAuthContext option" where
  "GetClientAuthContext r =
     (case req_state r of
        Some state \<Rightarrow> if st_HasAuth state then Some (st_Auth state) else req_ctxAuth r
      | None \<Rightarrow> req_ctxAuth r)"

definition GetRequestBodyContext :: "http_request \<Rightarrow> RequestBodyContext option" where
  "GetRequestBodyContext r =
     (case req_state r of
        Some state \<Rightarrow> if st_HasBody state then Some (st_Body state) else req_ctxBody r
      | None \<Rightarrow> req_ctxBody r)"

definition GetGatewayContext :: "http_request \<Rightarrow> GatewayContext option" where
  "GetGatewayContext r =
     (case req_state r of
        Some state \<Rightarrow> if st_HasGateway state then Some (st_Gateway state) else req_ctxGateway r
      | None \<Rightarrow> req_ctxGateway r)"

text \<open>Writing through the pointer that \<open>GetGatewayContext\<close> returned: the value changes where it was found.\<close>

definition storeGatewayContext :: "http_request \<Rightarrow> GatewayContext \<Rightarrow> http_request" where
  "storeGatewayContext r g =
     (case req_state r of
        Some state \<Rightarrow> if st_HasGateway state then r\<lparr>req_state := Some (state\<lparr>st_Gateway := g\<rparr>)\<rparr>
                      else r\<lparr>req_ctxGateway := Some g\<rparr>
      | None \<Rightarrow> r\<lparr>req_ctxGateway := Some g\<rparr>)"

section \<open>Every part of the state is independent of the others\<close>

lemmas request_state_defs = putRequestMeta_def putClientAuthContext_def putRequestBodyContext_def putGatewayContext_def
  GetRequestMeta_def GetClientAuthContext_def GetRequestBodyContext_def GetGatewayContext_def
  ensureRequestState_def emptyRequestState_def storeGatewayContext_def

lemma get_put [simp, ctx_simps]:
  "GetRequestMeta (putRequestMeta r m) = Some m"
  "GetClientAuthContext (putClientAuthContext r a) = Some a"
  "GetRequestBodyContext (putRequestBodyContext r b) = Some b"
  "GetGatewayContext (putGatewayContext r g) = Some g"
  by (cases "req_state r"; simp add: request_state_defs)+

lemma get_put_other [simp, ctx_simps]:
  "GetClientAuthContext (putRequestMeta r m) = GetClientAuthContext r"
  "GetRequestBodyContext (putRequestMeta r m) = GetRequestBodyContext r"
  "GetGatewayContext (putRequestMeta r m) = GetGatewayContext r"
  "GetRequestMeta (putClientAuthContext r a) = GetRequestMeta r"
  "GetRequestBodyContext (putClientAuthContext r a) = GetRequestBodyContext r"
  "GetGatewayContext (putClientAuthContext r a) = GetGatewayContext r"
  "GetRequestMeta (putRequestBodyContext r b) = GetRequestMeta r"
  "GetClientAuthContext (putRequestBodyContext r b) = GetClientAuthContext r"
  "GetGatewayContext (putRequestBodyContext r b) = GetGatewayContext r"
  "GetRequestMeta (putGatewayContext r g) = GetRequestMeta r"
  "GetClientAuthContext (putGatewayContext r g) = GetClientAuthContext r"
  "GetRequestBodyContext (putGatewayContext r g) = GetRequestBodyContext r"
  by (cases "req_state r"; simp add: request_state_defs)+

lemma put_request_fields [simp]:
  "req_Header (putRequestMeta r m) = req_Header r" "req_Body (putRequestMeta r m) = req_Body r"
  "req_Header (putClientAuthContext r a) = req_Header r" "req_Body (putClientAuthContext r a) = req_Body r"
  "req_Header (putRequestBodyContext r b) = req_Header r" "req_Body (putRequestBodyContext r b) = req_Body r"
  "req_Header (putGatewayContext r g) = req_Header r" "req_Body (putGatewayContext r g) = req_Body r"
  by (cases "req_state r"; simp add: request_state_defs)+

lemma GetGatewayContext_store [simp, ctx_simps]:
  "GetGatewayContext r = Some g \<Longrightarrow> GetGatewayContext (storeGatewayContext r g') = Some g'"
  by (auto simp: request_state_defs split: option.splits if_splits)

lemma GetRequestBodyContext_store [simp, ctx_simps]:
  "GetRequestBodyContext (storeGatewayContext r g') = GetRequestBodyContext r"
  by (auto simp: request_state_defs split: option.splits if_splits)

end
