(* ===== verification/Client_Address.thy ===== *)
theory Client_Address
  imports Request_State Config_Model Limiter
begin

text \<open>
  Who is the client: \<open>internal/middleware/ip_cidr.go\<close>, the part of \<open>ratelimit.go\<close> that reads the client address, and
  \<open>metrics_endpoint.go\<close>. Parsing of addresses and networks is the package \<open>net\<close>, a record of functions: an
  address is its canonical text, a network is the set of addresses it contains.
\<close>

section \<open>Addresses\<close>

type_synonym ip_net = "bytes \<Rightarrow> bool"

record net_lib =
  nl_ParseIP :: "bytes \<Rightarrow> bytes option"
  nl_ParseCIDR :: "bytes \<Rightarrow> ip_net option"
  nl_SplitHostPort :: "bytes \<Rightarrow> bytes option"

fun parseCIDRs :: "net_lib \<Rightarrow> bytes list \<Rightarrow> (bytes, ip_net list) result" where
  "parseCIDRs nl [] = Inr []"
| "parseCIDRs nl (cidr # cidrs) =
     (let cidr = trimSpace cidr in
      if cidr = [] then parseCIDRs nl cidrs
      else (case nl_ParseCIDR nl cidr of
              None \<Rightarrow> Inl cidr
            | Some ipNet \<Rightarrow> andThen (parseCIDRs nl cidrs) (\<lambda>nets. Inr (ipNet # nets))))"

definition remoteIP :: "net_lib \<Rightarrow> http_request \<Rightarrow> bytes" where
  "remoteIP nl r =
     (let remoteAddr = trimSpace (req_RemoteAddr r) in
      if remoteAddr = [] then []
      else (case nl_SplitHostPort nl remoteAddr of Some host \<Rightarrow> trimSpace host | None \<Rightarrow> remoteAddr))"

definition ipInCIDRs :: "net_lib \<Rightarrow> bytes \<Rightarrow> ip_net list \<Rightarrow> bool" where
  "ipInCIDRs nl ipStr nets =
     (case nl_ParseIP nl (trimSpace ipStr) of
        None \<Rightarrow> False
      | Some ip \<Rightarrow> list_ex (\<lambda>ipNet. ipNet ip) nets)"

definition trimIPv6Brackets :: "bytes \<Rightarrow> bytes" where
  "trimIPv6Brackets s =
     (if length s \<ge> 2 \<and> hasPrefix s ''['' \<and> hasSuffix s '']'' then butlast (tl s) else s)"

definition normalizeIPCandidate :: "net_lib \<Rightarrow> bytes \<Rightarrow> bytes" where
  "normalizeIPCandidate nl candidate =
     (let candidate = trimSpace candidate in
      if candidate = [] then []
      else (case nl_ParseIP nl (trimIPv6Brackets candidate) of
              Some ip \<Rightarrow> ip
            | None \<Rightarrow>
                (case nl_SplitHostPort nl candidate of
                   None \<Rightarrow> []
                 | Some host \<Rightarrow>
                     (case nl_ParseIP nl (trimSpace (trimIPv6Brackets host)) of Some ip \<Rightarrow> ip | None \<Rightarrow> []))))"

fun firstNormalized :: "net_lib \<Rightarrow> bytes list \<Rightarrow> bytes" where
  "firstNormalized nl [] = []"
| "firstNormalized nl (part # parts) =
     (let ip = normalizeIPCandidate nl part in if ip \<noteq> [] then ip else firstNormalized nl parts)"

definition firstValidForwardedIP :: "net_lib \<Rightarrow> bytes \<Rightarrow> bytes" where
  "firstValidForwardedIP nl xff =
     (if trimSpace xff = [] then [] else firstNormalized nl (split_on (CHR '','') xff))"

definition extractClientIPFromTrustedProxy :: "net_lib \<Rightarrow> http_request \<Rightarrow> ip_net list \<Rightarrow> bytes" where
  "extractClientIPFromTrustedProxy nl r trustedProxyCIDRs =
     (let remote = remoteIP nl r in
      if \<not> ipInCIDRs nl remote trustedProxyCIDRs then remote
      else (let ip = firstValidForwardedIP nl (headerGet (req_Header r) ''X-Forwarded-For'') in
            if ip \<noteq> [] then ip
            else (let ip = normalizeIPCandidate nl (headerGet (req_Header r) ''X-Real-IP'') in
                  if ip \<noteq> [] then ip else remote)))"

text \<open>The parsed networks are kept from the first use on (\<open>sync.Once\<close>).\<close>

type_synonym once_nets = "(bytes, ip_net list) result option"

definition loadOnce :: "net_lib \<Rightarrow> bytes list \<Rightarrow> once_nets \<Rightarrow> (bytes, ip_net list) result \<times> once_nets" where
  "loadOnce nl cidrs cell = (case cell of Some res \<Rightarrow> (res, cell) | None \<Rightarrow> (let res = parseCIDRs nl cidrs in (res, Some res)))"

definition loadTrustedProxyCIDRs :: "net_lib \<Rightarrow> Config \<Rightarrow> once_nets \<Rightarrow> (bytes, ip_net list) result \<times> once_nets" where
  "loadTrustedProxyCIDRs nl cfg cell = loadOnce nl (sc_TrustedProxyCIDRs (cfg_Server cfg)) cell"

definition extractClientIP :: "net_lib \<Rightarrow> Config \<Rightarrow> http_request \<Rightarrow> once_nets \<Rightarrow> bytes \<times> once_nets" where
  "extractClientIP nl cfg r cell =
     (case loadTrustedProxyCIDRs nl cfg cell of
        (Inl _, cell') \<Rightarrow> (remoteIP nl r, cell')
      | (Inr trustedCIDRs, cell') \<Rightarrow> (extractClientIPFromTrustedProxy nl r trustedCIDRs, cell'))"

section \<open>The metrics endpoint\<close>

definition metricsEndpointRateLimitRPS :: int where "metricsEndpointRateLimitRPS = 5"
definition metricsEndpointRateLimitBurst :: int where "metricsEndpointRateLimitBurst = 10"

record metrics_state =
  ms_CIDRs :: once_nets
  ms_limiter :: "localTokenBucket option"

definition getMetricsLimiter :: "instant \<Rightarrow> metrics_state \<Rightarrow> localTokenBucket \<times> metrics_state" where
  "getMetricsLimiter now s =
     (case ms_limiter s of
        Some b \<Rightarrow> (b, s)
      | None \<Rightarrow>
          (let b = newLocalTokenBucket (of_int metricsEndpointRateLimitRPS) metricsEndpointRateLimitBurst now
           in (b, s\<lparr>ms_limiter := Some b\<rparr>)))"

definition loadMetricsAllowedCIDRs :: "net_lib \<Rightarrow> Config \<Rightarrow> metrics_state \<Rightarrow> (bytes, ip_net list) result \<times> metrics_state" where
  "loadMetricsAllowedCIDRs nl cfg s =
     (case loadOnce nl (mc_AllowedCIDRs (cfg_Metrics cfg)) (ms_CIDRs s) of (res, cell) \<Rightarrow> (res, s\<lparr>ms_CIDRs := cell\<rparr>))"

definition isMetricsIPAllowed :: "net_lib \<Rightarrow> Config \<Rightarrow> http_request \<Rightarrow> metrics_state \<Rightarrow> bool \<times> metrics_state" where
  "isMetricsIPAllowed nl cfg r s =
     (case loadMetricsAllowedCIDRs nl cfg s of
        (Inl _, s') \<Rightarrow> (False, s')
      | (Inr allowedCIDRs, s') \<Rightarrow> (ipInCIDRs nl (remoteIP nl r) allowedCIDRs, s'))"

definition hasValidMetricsBearerToken :: "Config \<Rightarrow> http_request \<Rightarrow> bool" where
  "hasValidMetricsBearerToken cfg r =
     (let expected = trimSpace (mc_BearerToken (cfg_Metrics cfg)) in
      if expected = [] then False
      else (let authHeader = trimSpace (headerGet (req_Header r) ''Authorization'') in
            if authHeader = [] \<or> \<not> hasPrefix authHeader ''Bearer '' then False
            else (let token = trimSpace (trimPrefix authHeader ''Bearer '') in
                  if token = [] then False else token = expected)))"

text \<open>\<open>http.Error\<close> writes a plain text answer.\<close>

definition httpError :: "ResponseWriter \<Rightarrow> bytes \<Rightarrow> int \<Rightarrow> ResponseWriter" where
  "httpError w message status =
     (let w = w\<lparr>w_header := headerDel (w_header w) ''Content-Length''\<rparr>;
          w = setHeader w ''Content-Type'' ''text/plain; charset=utf-8'';
          w = setHeader w ''X-Content-Type-Options'' ''nosniff'';
          w = writeHeader w status
      in writeChunk w (Raw (message @ [CHR 0x0A])))"

text \<open>The middleware; the first result tells whether the wrapped handler runs.\<close>

definition MetricsEndpointMiddleware ::
  "net_lib \<Rightarrow> (rat \<Rightarrow> rat) \<Rightarrow> instant \<Rightarrow> Config \<Rightarrow> http_request \<Rightarrow> ResponseWriter \<Rightarrow> metrics_state \<Rightarrow> bool \<times> ResponseWriter \<times> metrics_state" where
  "MetricsEndpointMiddleware nl rnd now cfg r w s =
     (let (refused, s) =
        (if hasValidMetricsBearerToken cfg r then (False, s)
         else (case isMetricsIPAllowed nl cfg r s of (ok, s') \<Rightarrow> (\<not> ok, s')))
      in if refused then (False, httpError w ''Forbidden'' 403, s)
         else (let (limiter, s) = getMetricsLimiter now s;
                   (ok, limiter') = bucketAllow rnd (of_int metricsEndpointRateLimitRPS) metricsEndpointRateLimitBurst now limiter;
                   s = s\<lparr>ms_limiter := Some limiter'\<rparr>
               in if \<not> ok then (False, httpError (setHeader w ''Retry-After'' ''1'') ''Too Many Requests'' 429, s)
                  else (True, w, s)))"

section \<open>Lemmas\<close>

lemma parseCIDRs_Inr:
  "parseCIDRs nl cidrs = Inr nets \<longleftrightarrow>
     map Some nets = map (nl_ParseCIDR nl) (filter (\<lambda>c. c \<noteq> []) (map trimSpace cidrs))"
proof (induction cidrs arbitrary: nets)
  case (Cons c cs)
  show ?case
    by (cases nets) (auto simp: Let_def andThen_Inr_iff Cons.IH split: option.split)
qed auto

lemma firstNormalized_in: "firstNormalized nl parts = [] \<or> (\<exists>p\<in>set parts. firstNormalized nl parts = normalizeIPCandidate nl p)"
  by (induction parts) (auto simp: Let_def)

text \<open>Canonical addresses: what \<open>normalizeIPCandidate\<close> returns is empty or a parsed address.\<close>

lemma normalizeIPCandidate_parsed: "normalizeIPCandidate nl c = [] \<or> (\<exists>t. nl_ParseIP nl t = Some (normalizeIPCandidate nl c))"
  by (auto simp: normalizeIPCandidate_def Let_def split: option.split)

lemma firstNormalized_parsed: "firstNormalized nl ps = [] \<or> (\<exists>t. nl_ParseIP nl t = Some (firstNormalized nl ps))"
  using firstNormalized_in [of nl ps] normalizeIPCandidate_parsed by metis

section \<open>Properties\<close>

text \<open>C21. Forwarding headers are believed only from trusted proxies: when the peer of the connection is in no trusted network (or the list of
  networks does not parse) the client address is the peer, whatever the headers say; otherwise it is the
  peer or an address that parses.\<close>

theorem client_address_trust:
  assumes "extractClientIP nl cfg r cell = (ip, cell')" "cell = None \<or> cell = Some (parseCIDRs nl (sc_TrustedProxyCIDRs (cfg_Server cfg)))"
  shows "cell' = Some (parseCIDRs nl (sc_TrustedProxyCIDRs (cfg_Server cfg))) \<and>
    (ip = remoteIP nl r \<or>
     (\<exists>nets t. parseCIDRs nl (sc_TrustedProxyCIDRs (cfg_Server cfg)) = Inr nets \<and> ipInCIDRs nl (remoteIP nl r) nets \<and>
        nl_ParseIP nl t = Some ip))"
proof -
  let ?p = "parseCIDRs nl (sc_TrustedProxyCIDRs (cfg_Server cfg))"
  have load: "loadTrustedProxyCIDRs nl cfg cell = (?p, Some ?p)"
    using assms(2) by (auto simp: loadTrustedProxyCIDRs_def loadOnce_def Let_def)
  have "ip = remoteIP nl r \<or> (\<exists>nets t. ?p = Inr nets \<and> ipInCIDRs nl (remoteIP nl r) nets \<and> nl_ParseIP nl t = Some ip)"
  proof (cases ?p)
    case (Inl e)
    with assms(1) load show ?thesis by (simp add: extractClientIP_def)
  next
    case (Inr nets)
    then have ip: "ip = extractClientIPFromTrustedProxy nl r nets" using assms(1) load by (simp add: extractClientIP_def)
    have "ip = remoteIP nl r \<or> ipInCIDRs nl (remoteIP nl r) nets \<and> (\<exists>t. nl_ParseIP nl t = Some ip)"
      using firstNormalized_parsed [of nl "split_on (CHR '','') (headerGet (req_Header r) ''X-Forwarded-For'')"]
        normalizeIPCandidate_parsed [of nl "headerGet (req_Header r) ''X-Real-IP''"]
      unfolding ip by (auto simp: extractClientIPFromTrustedProxy_def firstValidForwardedIP_def Let_def)
    with Inr show ?thesis by blast
  qed
  moreover have "cell' = Some ?p" using assms(1) load by (auto simp: extractClientIP_def split: sum.splits)
  ultimately show ?thesis by blast
qed

definition demoNet :: net_lib where
  "demoNet = \<lparr>nl_ParseIP = (\<lambda>s. if s = [] then None else Some s), nl_ParseCIDR = (\<lambda>s. Some (\<lambda>ip. ip = s)), nl_SplitHostPort = (\<lambda>_. None)\<rparr>"

definition forgedRequest :: http_request where
  "forgedRequest = \<lparr>req_Method = ''GET'', req_URL = \<lparr>url_Scheme = [], url_Host = [], url_Path = ''/metrics'', url_RawPath = [], url_RawQuery = []\<rparr>,
     req_Header = headerSet (\<lambda>_. None) ''X-Forwarded-For'' ''10.0.0.1'', req_Body = None, req_ContentLength = 0, req_RemoteAddr = ''6.6.6.6'',
     req_state = None, req_ctxMeta = None, req_ctxAuth = None, req_ctxBody = None, req_ctxGateway = None\<rparr>"

theorem client_address_trust_witness:
  "\<exists>cell'. extractClientIP demoNet zeroConfig forgedRequest None = (''6.6.6.6'', cell') \<and> remoteIP demoNet forgedRequest = ''6.6.6.6''"
proof -
  obtain ip cell' where e: "extractClientIP demoNet zeroConfig forgedRequest None = (ip, cell')" by fastforce
  have p: "parseCIDRs demoNet (sc_TrustedProxyCIDRs (cfg_Server zeroConfig)) = Inr []" by (simp add: zeroConfig_def)
  have r: "remoteIP demoNet forgedRequest = ''6.6.6.6''" by code_simp
  from client_address_trust [OF e] p have "ip = ''6.6.6.6''" by (auto simp: r ipInCIDRs_def split: option.splits)
  with e r show ?thesis by blast
qed



end
