(* ===== verification/Observer.thy ===== *)
theory Observer
  imports Http_Model
begin

text \<open>
  \<open>internal/middleware/response_observer.go\<close>: a response writer that watches the status and counts the bytes. A handler uses a
  writer through the operations below; \<open>n\<close> is the number of bytes that the inner writer reports for a write. A writer of
  \<open>net/http\<close> can be flushed, which commits status 200 when nothing was committed before; hijacking and pushing are offered by some
  writers only and are passed on.
\<close>

datatype writer_op =
    OpSetHeader bytes bytes
  | OpWriteHeader int
  | OpWrite chunk nat
  | OpReadFrom "(chunk \<times> nat) list"
  | OpFlush

definition readFrom :: "(chunk \<times> nat) list \<Rightarrow> ResponseWriter \<Rightarrow> ResponseWriter" where
  "readFrom cs w = fold (\<lambda>(c, n) w. writeChunk w c) cs w"

fun directOp :: "writer_op \<Rightarrow> ResponseWriter \<Rightarrow> ResponseWriter" where
  "directOp (OpSetHeader k v) w = setHeader w k v"
| "directOp (OpWriteHeader code) w = writeHeader w code"
| "directOp (OpWrite c n) w = writeChunk w c"
| "directOp (OpReadFrom cs) w = readFrom cs w"
| "directOp OpFlush w = writeHeader w 200"

record responseObserver =
  ro_ResponseWriter :: ResponseWriter
  ro_statusCode :: int
  ro_bytes :: nat

definition newResponseObserver :: "ResponseWriter \<Rightarrow> responseObserver" where
  "newResponseObserver w = \<lparr>ro_ResponseWriter = w, ro_statusCode = 0, ro_bytes = 0\<rparr>"

definition observerWriteHeader :: "int \<Rightarrow> responseObserver \<Rightarrow> responseObserver" where
  "observerWriteHeader code o' =
     (let o' = (if ro_statusCode o' = 0 then o'\<lparr>ro_statusCode := code\<rparr> else o')
      in o'\<lparr>ro_ResponseWriter := writeHeader (ro_ResponseWriter o') code\<rparr>)"

definition observerWrite :: "chunk \<Rightarrow> nat \<Rightarrow> responseObserver \<Rightarrow> responseObserver" where
  "observerWrite p n o' =
     (let o' = (if ro_statusCode o' = 0 then o'\<lparr>ro_statusCode := 200\<rparr> else o')
      in o'\<lparr>ro_ResponseWriter := writeChunk (ro_ResponseWriter o') p, ro_bytes := ro_bytes o' + n\<rparr>)"

definition observerReadFrom :: "(chunk \<times> nat) list \<Rightarrow> responseObserver \<Rightarrow> responseObserver" where
  "observerReadFrom cs o' =
     (let o' = (if ro_statusCode o' = 0 then o'\<lparr>ro_statusCode := 200\<rparr> else o')
      in o'\<lparr>ro_ResponseWriter := readFrom cs (ro_ResponseWriter o'), ro_bytes := ro_bytes o' + sum_list (map snd cs)\<rparr>)"

text \<open>\<open>Flush\<close> goes to the inner writer and is not watched.\<close>

definition observerFlush :: "responseObserver \<Rightarrow> responseObserver" where
  "observerFlush o' = o'\<lparr>ro_ResponseWriter := directOp OpFlush (ro_ResponseWriter o')\<rparr>"

text \<open>\<open>hijack\<close> and \<open>push\<close> are the methods of the inner writer, if it has them.\<close>

definition observerHijack :: "(bytes, 'conn) result option \<Rightarrow> (bytes, 'conn) result" where
  "observerHijack hijack = (case hijack of None \<Rightarrow> Inl ''response writer does not support hijacking'' | Some res \<Rightarrow> res)"

definition observerPush :: "(bytes \<Rightarrow> 'opts \<Rightarrow> bytes option) option \<Rightarrow> bytes \<Rightarrow> 'opts \<Rightarrow> bytes option" where
  "observerPush push target opts = (case push of None \<Rightarrow> Some ''feature not supported'' | Some p \<Rightarrow> p target opts)"

fun observerOp :: "writer_op \<Rightarrow> responseObserver \<Rightarrow> responseObserver" where
  "observerOp (OpSetHeader k v) o' = o'\<lparr>ro_ResponseWriter := setHeader (ro_ResponseWriter o') k v\<rparr>"
| "observerOp (OpWriteHeader code) o' = observerWriteHeader code o'"
| "observerOp (OpWrite c n) o' = observerWrite c n o'"
| "observerOp (OpReadFrom cs) o' = observerReadFrom cs o'"
| "observerOp OpFlush o' = observerFlush o'"

text \<open>The status of the inner writer, 0 when it has committed none.\<close>

definition observedStatus :: "ResponseWriter \<Rightarrow> int" where
  "observedStatus w = (case w_sent w of None \<Rightarrow> 0 | Some (status, _) \<Rightarrow> status)"

section \<open>The observer refines the writer\<close>

fun opBytes :: "writer_op \<Rightarrow> nat" where
  "opBytes (OpWrite c n) = n"
| "opBytes (OpReadFrom cs) = sum_list (map snd cs)"
| "opBytes _ = 0"

lemma observerOp_inner: "ro_ResponseWriter (observerOp op o') = directOp op (ro_ResponseWriter o')"
  by (cases op) (simp_all add: observerWriteHeader_def observerWrite_def observerReadFrom_def observerFlush_def Let_def)

lemma observerOp_bytes: "ro_bytes (observerOp op o') = ro_bytes o' + opBytes op"
  by (cases op) (simp_all add: observerWriteHeader_def observerWrite_def observerReadFrom_def observerFlush_def Let_def)

lemma observer_run_inner: "ro_ResponseWriter (fold observerOp ops o') = fold directOp ops (ro_ResponseWriter o')"
  by (induction ops arbitrary: o') (simp_all add: observerOp_inner)

lemma observer_run_bytes: "ro_bytes (fold observerOp ops o') = ro_bytes o' + sum_list (map opBytes ops)"
  by (induction ops arbitrary: o') (simp_all add: observerOp_bytes)

text \<open>Once something is committed both statuses stay.\<close>

lemma w_sent_readFrom:
  "w_sent (readFrom cs w) = (if cs = [] then w_sent w else case w_sent w of None \<Rightarrow> Some (200, w_header w) | Some x \<Rightarrow> Some x)"
proof (induction cs arbitrary: w)
  case (Cons c cs)
  obtain ch n where c: "c = (ch, n)" by fastforce
  have "w_sent (readFrom (c # cs) w) = w_sent (readFrom cs (writeChunk w ch))" by (simp add: readFrom_def c)
  then show ?case by (auto simp: Cons.IH w_sent_writeChunk split: option.split)
qed (simp add: readFrom_def)

text \<open>Operations as the handlers use them: a status is never 0, a copy has something to copy, and a flush comes after something was
  committed.\<close>

definition proper_op :: "writer_op \<Rightarrow> bool" where
  "proper_op op = (case op of OpWriteHeader code \<Rightarrow> code \<noteq> 0 | OpReadFrom cs \<Rightarrow> cs \<noteq> [] | _ \<Rightarrow> True)"

fun commits :: "writer_op \<Rightarrow> bool" where
  "commits (OpSetHeader k v) = False"
| "commits OpFlush = False"
| "commits op = True"

fun proper_ops :: "bool \<Rightarrow> writer_op list \<Rightarrow> bool" where
  "proper_ops committed [] = True"
| "proper_ops committed (op # ops) \<longleftrightarrow> proper_op op \<and> (op = OpFlush \<longrightarrow> committed) \<and> proper_ops (committed \<or> commits op) ops"

definition in_step :: "responseObserver \<Rightarrow> bool" where
  "in_step o' \<longleftrightarrow> ro_statusCode o' = observedStatus (ro_ResponseWriter o') \<and>
     (ro_statusCode o' = 0 \<longrightarrow> w_sent (ro_ResponseWriter o') = None)"

lemma in_step_cases:
  assumes "in_step o'"
  shows "w_sent (ro_ResponseWriter o') = None \<and> ro_statusCode o' = 0 \<or>
    (\<exists>status h. w_sent (ro_ResponseWriter o') = Some (status, h) \<and> status \<noteq> 0 \<and> ro_statusCode o' = status)"
  using assms by (cases "w_sent (ro_ResponseWriter o')") (auto simp: in_step_def observedStatus_def)

lemma in_step_op:
  assumes "in_step o'" "proper_op op" "op = OpFlush \<Longrightarrow> w_sent (ro_ResponseWriter o') \<noteq> None"
  shows "in_step (observerOp op o')"
proof -
  note defs = in_step_def proper_op_def observedStatus_def observerWriteHeader_def observerWrite_def observerReadFrom_def observerFlush_def Let_def
    w_sent_writeHeader w_sent_writeChunk w_sent_readFrom
  from in_step_cases [OF assms(1)] show ?thesis
  proof
    assume "w_sent (ro_ResponseWriter o') = None \<and> ro_statusCode o' = 0"
    with assms(2,3) show ?thesis by (cases op) (simp_all add: defs)
  next
    assume "\<exists>status h. w_sent (ro_ResponseWriter o') = Some (status, h) \<and> status \<noteq> 0 \<and> ro_statusCode o' = status"
    then obtain status h where "w_sent (ro_ResponseWriter o') = Some (status, h)" "status \<noteq> 0" "ro_statusCode o' = status" by blast
    then show ?thesis by (cases op) (simp_all add: defs)
  qed
qed

lemma commits_sends:
  assumes "proper_op op" "commits op \<or> w_sent w \<noteq> None"
  shows "w_sent (directOp op w) \<noteq> None"
  using assms by (cases op) (auto simp: proper_op_def w_sent_writeHeader w_sent_writeChunk w_sent_readFrom split: option.split)

lemma in_step_run:
  "in_step o' \<Longrightarrow> proper_ops c ops \<Longrightarrow> (c \<Longrightarrow> w_sent (ro_ResponseWriter o') \<noteq> None) \<Longrightarrow> in_step (fold observerOp ops o')"
proof (induction ops arbitrary: o' c)
  case (Cons op ops)
  then have "proper_op op" and flush: "op = OpFlush \<Longrightarrow> w_sent (ro_ResponseWriter o') \<noteq> None" by auto
  with Cons.prems(3) commits_sends have "w_sent (ro_ResponseWriter (observerOp op o')) \<noteq> None" if "c \<or> commits op"
    using that by (simp add: observerOp_inner) blast
  with in_step_op [OF Cons.prems(1) \<open>proper_op op\<close> flush] Cons.IH [of "observerOp op o'" "c \<or> commits op"] Cons.prems(2)
  show ?case by auto
qed simp

section \<open>Properties\<close>



text \<open>Without these conditions they can differ: after an empty copy the observer keeps 200 although another status is sent later.\<close>

lemma observer_empty_copy:
  "let ops = [OpReadFrom [], OpWriteHeader 502] in
   ro_statusCode (fold observerOp ops (newResponseObserver newWriter)) = 200 \<and> observedStatus (fold directOp ops newWriter) = 502"
  by code_simp

text \<open>A flush before anything else also separates them.\<close>

lemma observer_early_flush:
  "let ops = [OpFlush, OpWriteHeader 502] in
   ro_statusCode (fold observerOp ops (newResponseObserver newWriter)) = 502 \<and> observedStatus (fold directOp ops newWriter) = 200"
  by code_simp

end
