(* ===== verification/Adapter_Scan.thy ===== *)
theory Adapter_Scan
  imports Body_Grammar
begin

text \<open>
  The JSON scanner of the Anthropic adapter, the second half of \<open>internal/adapter/anthropic_response_fast.go\<close>. It is close to
  the scanner of the request body but not the same: its numbers are integers that \<open>strconv.Atoi\<close> accepts. Its lexical part is
  shown to agree with the body scanner, its recursive part to end and to pass over every value of its grammar. The loops over
  the members of an object, of which the file has four, and over the elements of an array share one contract each, a locale.
\<close>

section \<open>Lexical scanners\<close>

datatype adapter_error = ErrSyntax | ErrRange

definition isAdapterJSONDigit :: "char \<Rightarrow> bool" where
  "isAdapterJSONDigit b \<longleftrightarrow> 48 \<le> byte b \<and> byte b \<le> 57"

function skipAdapterJSONWhitespace :: "bytes \<Rightarrow> nat \<Rightarrow> nat" where
  "skipAdapterJSONWhitespace data idx =
     (if idx < length data then
        (if data ! idx \<in> {CHR '' '', CHR 0x09, CHR 0x0D, CHR 0x0A} then skipAdapterJSONWhitespace data (idx + 1) else idx)
      else idx)"
  by pat_completeness auto
termination
  by (relation "measure (\<lambda>(data, idx). length data - idx)") auto

declare skipAdapterJSONWhitespace.simps [simp del]

text \<open>The comparison loop is the one of the body scanner.\<close>

definition skipAdapterJSONLiteral :: "bytes \<Rightarrow> nat \<Rightarrow> bytes \<Rightarrow> (adapter_error, nat) result" where
  "skipAdapterJSONLiteral data idx literal =
     (if idx + length literal > length data then Inl ErrSyntax
      else if literalAt data idx literal then Inr (idx + length literal)
      else Inl ErrSyntax)"

function scanAdapterStringLoop :: "bytes \<Rightarrow> nat \<Rightarrow> nat \<Rightarrow> bool \<Rightarrow> (adapter_error, bytes \<times> nat) result" where
  "scanAdapterStringLoop data start idx hasEscape =
     (if idx < length data then
        (if data ! idx = CHR 0x22 then
           (if \<not> hasEscape then Inr (segment data (start + 1) idx, idx + 1)
            else (case unquote (segment data start (idx + 1)) of
                    None \<Rightarrow> Inl ErrSyntax
                  | Some value \<Rightarrow> Inr (value, idx + 1)))
         else if data ! idx = CHR 0x5C then scanAdapterStringLoop data start (idx + 2) True
         else if byte (data ! idx) < 0x20 then Inl ErrSyntax
         else scanAdapterStringLoop data start (idx + 1) hasEscape)
      else Inl ErrSyntax)"
  by pat_completeness auto
termination
  by (relation "measure (\<lambda>(data, start, idx, e). length data - idx)") auto

declare scanAdapterStringLoop.simps [simp del]

definition scanAdapterJSONString :: "bytes \<Rightarrow> nat \<Rightarrow> (adapter_error, bytes \<times> nat) result" where
  "scanAdapterJSONString data idx =
     (if idx \<ge> length data \<or> data ! idx \<noteq> CHR 0x22 then Inl ErrSyntax
      else scanAdapterStringLoop data idx (idx + 1) False)"

definition scanAdapterJSONStringOrNull :: "bytes \<Rightarrow> nat \<Rightarrow> (adapter_error, bytes \<times> nat) result" where
  "scanAdapterJSONStringOrNull data idx =
     (if idx < length data \<and> data ! idx = CHR 0x22 then scanAdapterJSONString data idx
      else andThen (skipAdapterJSONLiteral data idx ''null'') (\<lambda>next. Inr ([], next)))"

text \<open>\<open>strconv.Atoi\<close> on an optional minus sign and decimal digits: the value, if an \<open>int64\<close> holds it.\<close>

definition digitsValue :: "bytes \<Rightarrow> int" where
  "digitsValue ds = foldl (\<lambda>v d. 10 * v + (int (byte d) - 48)) 0 ds"

definition atoi :: "bytes \<Rightarrow> (adapter_error, int) result" where
  "atoi s =
     (let v = (if hasPrefix s ''-'' then - digitsValue (drop 1 s) else digitsValue s)
      in if - (2 ^ 63) \<le> v \<and> v < 2 ^ 63 then Inr v else Inl ErrRange)"

function skipAdapterDigits :: "bytes \<Rightarrow> nat \<Rightarrow> nat" where
  "skipAdapterDigits data idx =
     (if idx < length data \<and> isAdapterJSONDigit (data ! idx) then skipAdapterDigits data (idx + 1) else idx)"
  by pat_completeness auto
termination
  by (relation "measure (\<lambda>(data, idx). length data - idx)") auto

declare skipAdapterDigits.simps [simp del]

definition scanAdapterJSONInt :: "bytes \<Rightarrow> nat \<Rightarrow> (adapter_error, int \<times> nat) result" where
  "scanAdapterJSONInt data start =
     (if start \<ge> length data then Inl ErrSyntax
      else
        (let idx = (if data ! start = CHR ''-'' then start + 1 else start) in
         if idx \<ge> length data \<or> \<not> isAdapterJSONDigit (data ! idx) then Inl ErrSyntax
         else
           (let idx = skipAdapterDigits data idx
            in andThen (atoi (segment data start idx)) (\<lambda>value. Inr (value, idx)))))"

section \<open>The lexical scanners agree with those of the body scanner\<close>

lemma isAdapterJSONDigit_eq [simp]: "isAdapterJSONDigit b \<longleftrightarrow> isJSONDigit b"
  by (simp add: isAdapterJSONDigit_def isJSONDigit_def)

lemma skipAdapterJSONWhitespace_eq [simp]: "skipAdapterJSONWhitespace data idx = skipJSONWhitespace data idx"
proof (induction data idx rule: skipAdapterJSONWhitespace.induct)
  case (1 data idx)
  then show ?case
    by (subst skipAdapterJSONWhitespace.simps, subst skipJSONWhitespace.simps) (auto simp: isJSONSpace_def)
qed

lemma skipAdapterDigits_eq [simp]: "skipAdapterDigits data idx = skipDigits data idx"
proof (induction data idx rule: skipAdapterDigits.induct)
  case (1 data idx)
  then show ?case
    by (subst skipAdapterDigits.simps, subst skipDigits.simps) auto
qed

definition as_syntax :: "('e, 'a) result \<Rightarrow> (adapter_error, 'a) result" where
  "as_syntax r = (case r of Inl _ \<Rightarrow> Inl ErrSyntax | Inr x \<Rightarrow> Inr x)"

lemma as_syntax_simps [simp]:
  "as_syntax (Inl e) = Inl ErrSyntax" "as_syntax (Inr x) = Inr x"
  "as_syntax (if b then r else r') = (if b then as_syntax r else as_syntax r')"
  by (simp_all add: as_syntax_def)

lemma as_syntax_Inr_iff [simp]: "as_syntax r = Inr y \<longleftrightarrow> r = Inr y"
  by (cases r) auto

lemma scanAdapterStringLoop_eq: "scanAdapterStringLoop data start idx e = as_syntax (scanStringLoop data start idx e)"
proof (induction data start idx e rule: scanAdapterStringLoop.induct)
  case (1 data start idx e)
  then show ?case
    by (subst scanAdapterStringLoop.simps, subst scanStringLoop.simps) (auto split: option.split)
qed

lemma scanAdapterJSONString_eq [simp]: "scanAdapterJSONString data idx = as_syntax (scanJSONString data idx)"
  by (simp add: scanAdapterJSONString_def scanJSONString_def scanAdapterStringLoop_eq)

lemma skipAdapterJSONLiteral_eq [simp]: "skipAdapterJSONLiteral data idx lit = as_syntax (skipJSONLiteral data idx lit)"
  by (simp add: skipAdapterJSONLiteral_def skipJSONLiteral_def)

lemma scanAdapterJSONInt_progress:
  "scanAdapterJSONInt data idx = Inr (v, n) \<Longrightarrow> idx < n \<and> n \<le> length data"
  using skipDigits_gt [of idx data] skipDigits_gt [of "idx + 1" data] skipDigits_le [of idx data] skipDigits_le [of "idx + 1" data]
  by (auto simp: scanAdapterJSONInt_def Let_def andThen_Inr_iff split: if_splits)

lemma scanAdapterJSONStringOrNull_progress:
  "scanAdapterJSONStringOrNull data idx = Inr (v, n) \<Longrightarrow> idx < n \<and> n \<le> length data"
  by (auto simp: scanAdapterJSONStringOrNull_def andThen_Inr_iff as_syntax_Inr_iff split: if_splits
      dest!: scanJSONString_progress skipJSONLiteral_progress)

section \<open>Skipping a value\<close>

function (sequential)
      skipAdapterJSONValue :: "bytes \<Rightarrow> nat \<Rightarrow> (adapter_error, nat) result"
  and skipAdapterJSONObject :: "bytes \<Rightarrow> nat \<Rightarrow> (adapter_error, nat) result"
  and skipAdapterObjectLoop :: "bytes \<Rightarrow> nat \<Rightarrow> (adapter_error, nat) result"
  and skipAdapterJSONArray :: "bytes \<Rightarrow> nat \<Rightarrow> (adapter_error, nat) result"
  and skipAdapterArrayLoop :: "bytes \<Rightarrow> nat \<Rightarrow> (adapter_error, nat) result"
where
  "skipAdapterJSONValue data idx0 =
     (let idx = skipAdapterJSONWhitespace data idx0 in
      if idx \<ge> length data then Inl ErrSyntax
      else if data ! idx = CHR ''{'' then skipAdapterJSONObject data idx
      else if data ! idx = CHR ''['' then skipAdapterJSONArray data idx
      else if data ! idx = CHR 0x22 then
        (case scanAdapterJSONString data idx of Inl e \<Rightarrow> Inl e | Inr (_, next) \<Rightarrow> Inr next)
      else if data ! idx = CHR ''t'' then skipAdapterJSONLiteral data idx ''true''
      else if data ! idx = CHR ''f'' then skipAdapterJSONLiteral data idx ''false''
      else if data ! idx = CHR ''n'' then skipAdapterJSONLiteral data idx ''null''
      else if data ! idx = CHR ''-'' \<or> isAdapterJSONDigit (data ! idx) then
        (case scanAdapterJSONInt data idx of Inr (_, next) \<Rightarrow> Inr next | Inl _ \<Rightarrow> Inl ErrSyntax)
      else Inl ErrSyntax)"
| "skipAdapterJSONObject data idx =
     (if idx \<ge> length data \<or> data ! idx \<noteq> CHR ''{'' then Inl ErrSyntax
      else skipAdapterObjectLoop data (idx + 1))"
| "skipAdapterObjectLoop data idx0 =
     (let idx = skipAdapterJSONWhitespace data idx0 in
      if idx \<ge> length data then Inl ErrSyntax
      else if data ! idx = CHR ''}'' then Inr (idx + 1)
      else (case scanAdapterJSONString data idx of
        Inl e \<Rightarrow> Inl e
      | Inr (_, next) \<Rightarrow>
          (let idx = skipAdapterJSONWhitespace data next in
           if idx \<ge> length data \<or> data ! idx \<noteq> CHR '':'' then Inl ErrSyntax
           else (case skipAdapterJSONValue data (skipAdapterJSONWhitespace data (idx + 1)) of
             Inl e \<Rightarrow> Inl e
           | Inr next \<Rightarrow>
               (let idx = skipAdapterJSONWhitespace data next in
                if idx \<ge> length data then Inl ErrSyntax
                else if data ! idx = CHR ''}'' then Inr (idx + 1)
                else if data ! idx \<noteq> CHR '','' then Inl ErrSyntax
                else skipAdapterObjectLoop data (idx + 1))))))"
| "skipAdapterJSONArray data idx =
     (if idx \<ge> length data \<or> data ! idx \<noteq> CHR ''['' then Inl ErrSyntax
      else skipAdapterArrayLoop data (idx + 1))"
| "skipAdapterArrayLoop data idx0 =
     (let idx = skipAdapterJSONWhitespace data idx0 in
      if idx \<ge> length data then Inl ErrSyntax
      else if data ! idx = CHR '']'' then Inr (idx + 1)
      else (case skipAdapterJSONValue data idx of
        Inl e \<Rightarrow> Inl e
      | Inr next \<Rightarrow>
          (let idx = skipAdapterJSONWhitespace data next in
           if idx \<ge> length data then Inl ErrSyntax
           else if data ! idx = CHR '']'' then Inr (idx + 1)
           else if data ! idx \<noteq> CHR '','' then Inl ErrSyntax
           else skipAdapterArrayLoop data (idx + 1))))"
  by pat_completeness auto

text \<open>A call that succeeds moves forward and stays within the document. The fact is proved on the calls for which the recursion
  is known to end; it then gives the termination of all of them.\<close>

abbreviation forward :: "bytes \<Rightarrow> nat \<Rightarrow> (adapter_error, nat) result \<Rightarrow> bool" where
  "forward data idx r \<equiv> (\<forall>n. r = Inr n \<longrightarrow> idx < n \<and> n \<le> length data)"

lemma forwardD: "forward data idx r \<Longrightarrow> r = Inr n \<Longrightarrow> idx < n \<and> n \<le> length data"
  by blast

abbreviation adapter_dom :: "(bytes \<times> nat + bytes \<times> nat) + bytes \<times> nat + bytes \<times> nat + bytes \<times> nat \<Rightarrow> bool" where
  "adapter_dom \<equiv> skipAdapterJSONValue_skipAdapterJSONObject_skipAdapterObjectLoop_skipAdapterJSONArray_skipAdapterArrayLoop_dom"

lemma adapter_object_step:
  assumes "adapter_dom (Inr (Inl (data, idx)))"
  shows "skipAdapterObjectLoop data idx = Inr n \<longleftrightarrow>
    (let i = skipJSONWhitespace data idx in i < length data \<and>
     (data ! i = CHR ''}'' \<and> n = i + 1 \<or> data ! i \<noteq> CHR ''}'' \<and>
      (\<exists>key a b. scanJSONString data i = Inr (key, a) \<and>
        (let c = skipJSONWhitespace data a; d = skipJSONWhitespace data b in
         c < length data \<and> data ! c = CHR '':'' \<and>
         skipAdapterJSONValue data (skipJSONWhitespace data (c + 1)) = Inr b \<and>
         d < length data \<and>
         (data ! d = CHR '','' \<and> skipAdapterObjectLoop data (d + 1) = Inr n \<or>
          data ! d = CHR ''}'' \<and> n = d + 1)))))"
  by (auto simp: skipAdapterObjectLoop.psimps [OF assms] Let_def not_le split: if_splits sum.splits)

lemma adapter_array_step:
  assumes "adapter_dom (Inr (Inr (Inr (data, idx))))"
  shows "skipAdapterArrayLoop data idx = Inr n \<longleftrightarrow>
    (let i = skipJSONWhitespace data idx in i < length data \<and>
     (data ! i = CHR '']'' \<and> n = i + 1 \<or> data ! i \<noteq> CHR '']'' \<and>
      (\<exists>b. skipAdapterJSONValue data i = Inr b \<and>
        (let d = skipJSONWhitespace data b in
         d < length data \<and>
         (data ! d = CHR '','' \<and> skipAdapterArrayLoop data (d + 1) = Inr n \<or>
          data ! d = CHR '']'' \<and> n = d + 1)))))"
  by (auto simp: skipAdapterArrayLoop.psimps [OF assms] Let_def not_le split: if_splits sum.splits)

lemma adapter_partial_progress:
  shows "adapter_dom (Inl (Inl (data, idx))) \<Longrightarrow> forward data idx (skipAdapterJSONValue data idx)"
    and "adapter_dom (Inl (Inr (data, idx))) \<Longrightarrow> forward data idx (skipAdapterJSONObject data idx)"
    and "adapter_dom (Inr (Inl (data, idx))) \<Longrightarrow> forward data idx (skipAdapterObjectLoop data idx)"
    and "adapter_dom (Inr (Inr (Inl (data, idx)))) \<Longrightarrow> forward data idx (skipAdapterJSONArray data idx)"
    and "adapter_dom (Inr (Inr (Inr (data, idx)))) \<Longrightarrow> forward data idx (skipAdapterArrayLoop data idx)"
proof (induct rule:
    skipAdapterJSONValue_skipAdapterJSONObject_skipAdapterObjectLoop_skipAdapterJSONArray_skipAdapterArrayLoop.pinduct)
  case (1 data idx)
  have "idx \<le> skipJSONWhitespace data idx" by (rule skipJSONWhitespace_ge)
  with 1 show ?case
    by (fastforce simp: skipAdapterJSONValue.psimps Let_def split: if_splits sum.splits
        dest: scanJSONString_progress skipJSONLiteral_progress scanAdapterJSONInt_progress)
next
  case (2 data idx)
  then show ?case by (auto simp: skipAdapterJSONObject.psimps not_le dest!: spec Suc_lessD)
next
  case (3 data idx)
  show ?case
  proof (intro allI impI)
    fix n assume "skipAdapterObjectLoop data idx = Inr n"
    then consider (close) "skipJSONWhitespace data idx < length data" "n = skipJSONWhitespace data idx + 1"
      | (member) key a b where "skipJSONWhitespace data idx < length data" "data ! skipJSONWhitespace data idx \<noteq> CHR ''}''"
        "scanJSONString data (skipJSONWhitespace data idx) = Inr (key, a)"
        "skipJSONWhitespace data a < length data" "data ! skipJSONWhitespace data a = CHR '':''"
        "skipAdapterJSONValue data (skipJSONWhitespace data (skipJSONWhitespace data a + 1)) = Inr b"
        "skipJSONWhitespace data b < length data"
        "data ! skipJSONWhitespace data b = CHR '','' \<and> skipAdapterObjectLoop data (skipJSONWhitespace data b + 1) = Inr n
         \<or> n = skipJSONWhitespace data b + 1"
      unfolding adapter_object_step [OF 3(1)] Let_def by auto
    then show "idx < n \<and> n \<le> length data"
    proof cases
      case close
      then show ?thesis using skipJSONWhitespace_ge [of idx data] by simp
    next
      case member
      then have c: "\<not> length data \<le> skipJSONWhitespace data idx"
        "\<not> length data \<le> skipJSONWhitespace data a \<and> data ! skipJSONWhitespace data a = CHR '':''"
        "\<not> length data \<le> skipJSONWhitespace data b"
        by simp_all
      have "idx < b"
        using forwardD [OF 3(2) [simplified, OF refl c(1) member(2,3) refl refl c(2)]] member(6) object_value_start [OF member(3)]
        by force
      then have "idx < skipJSONWhitespace data b + 1" using skipJSONWhitespace_ge [of b data] by linarith
      moreover have "skipAdapterJSONValue data (skipJSONWhitespace data (Suc (skipJSONWhitespace data a))) = Inr b"
        using member(6) by simp
      note rest = 3(3) [simplified, OF refl c(1) member(2,3) refl refl c(2) this refl c(3)]
      ultimately show ?thesis using forwardD [OF rest] member(7,8) by force
    qed
  qed
next
  case (4 data idx)
  then show ?case by (auto simp: skipAdapterJSONArray.psimps not_le dest!: spec Suc_lessD)
next
  case (5 data idx)
  show ?case
  proof (intro allI impI)
    fix n assume "skipAdapterArrayLoop data idx = Inr n"
    then consider (close) "skipJSONWhitespace data idx < length data" "n = skipJSONWhitespace data idx + 1"
      | (element) b where "\<not> length data \<le> skipJSONWhitespace data idx" "data ! skipJSONWhitespace data idx \<noteq> CHR '']''"
        "skipAdapterJSONValue data (skipJSONWhitespace data idx) = Inr b" "\<not> length data \<le> skipJSONWhitespace data b"
        "data ! skipJSONWhitespace data b = CHR '','' \<and> skipAdapterArrayLoop data (skipJSONWhitespace data b + 1) = Inr n
         \<or> n = skipJSONWhitespace data b + 1"
      unfolding adapter_array_step [OF 5(1)] Let_def not_le by auto
    then show "idx < n \<and> n \<le> length data"
    proof cases
      case close
      then show ?thesis using skipJSONWhitespace_ge [of idx data] by simp
    next
      case element
      have "idx < skipJSONWhitespace data b + 1"
        using forwardD [OF 5(2) [simplified, OF refl element(1,2)] element(3)]
          skipJSONWhitespace_ge [of idx data] skipJSONWhitespace_ge [of b data] by linarith
      then show ?thesis
        using forwardD [OF 5(3) [simplified, OF refl element(1-3) refl element(4)]] element(4,5) by force
    qed
  qed
qed

lemma adapter_nested_bounds:
  assumes "adapter_dom (Inl (Inl (data, i)))" and "skipAdapterJSONValue data i = Inr b" and "idx \<le> i"
  shows "idx < skipJSONWhitespace data b"
  using adapter_partial_progress(1) [OF assms(1)] assms(2,3) skipJSONWhitespace_ge [of b data] by auto

lemma adapter_total_all: "All adapter_dom"
proof (relation "measure (\<lambda>x. case x of
      Inl (Inl (data, idx)) \<Rightarrow> 3 * (length data - idx) + 2
    | Inl (Inr (data, idx)) \<Rightarrow> 3 * (length data - idx) + 1
    | Inr (Inl (data, idx)) \<Rightarrow> 3 * (length data - idx) + 3
    | Inr (Inr (Inl (data, idx))) \<Rightarrow> 3 * (length data - idx) + 1
    | Inr (Inr (Inr (data, idx))) \<Rightarrow> 3 * (length data - idx) + 3)", goal_cases)
  case (2 data idx x)
  then show ?case using skipJSONWhitespace_ge [of idx data] by auto
next
  case (3 data idx x)
  then show ?case using skipJSONWhitespace_ge [of idx data] by auto
next
  case (5 data idx x b key y xb)
  then show ?case using object_value_start [of data idx key y] by auto
next
  case (6 data idx x b key y xb ba xc)
  then have "idx < skipJSONWhitespace data ba"
    using adapter_nested_bounds [of data _ ba idx] object_value_start [of data idx key y] by fastforce
  with 6 show ?case by auto
next
  case (8 data idx x)
  then show ?case using skipJSONWhitespace_ge [of idx data] by auto
next
  case (9 data idx x b xa)
  then have "idx < skipJSONWhitespace data b"
    using adapter_nested_bounds [of data x b idx] skipJSONWhitespace_ge [of idx data] by auto
  with 9 show ?case by auto
qed auto

lemma adapter_total: "adapter_dom x"
  using adapter_total_all by blast

termination skipAdapterJSONValue
  by (rule adapter_total_all)

declare skipAdapterJSONValue.simps [simp del] skipAdapterJSONObject.simps [simp del] skipAdapterObjectLoop.simps [simp del]
  skipAdapterJSONArray.simps [simp del] skipAdapterArrayLoop.simps [simp del]

lemmas skipAdapterObjectLoop_Inr = adapter_object_step [OF adapter_total]
lemmas skipAdapterArrayLoop_Inr = adapter_array_step [OF adapter_total]

lemma skipAdapterJSONValue_progress: "skipAdapterJSONValue data idx = Inr n \<Longrightarrow> idx < n \<and> n \<le> length data"
  using adapter_partial_progress(1) [OF adapter_total] by blast

section \<open>Loops over members and elements\<close>

text \<open>The result of a parser: an error, or not this shape (\<open>Inr None\<close>), or a value and the position behind it.\<close>

type_synonym 'a parsed = "(adapter_error, ('a \<times> nat) option) result"

text \<open>
  The object loops of the file contain the same statements around the handling of a value, which is the argument \<open>field\<close> here:
  it gets the key and starts at the value, and gives the updated variables and the position behind the value. A turn leaves the
  loop with an error or with \<open>ok = false\<close>, or finds the closing brace at some position, or goes on behind a comma.
\<close>

datatype 's turn = TurnError adapter_error | NotThisShape | CloseAt 's nat | GoOn 's nat

text \<open>The end of a turn: what follows the value.\<close>

definition turnEnd :: "char \<Rightarrow> bytes \<Rightarrow> nat \<Rightarrow> 's \<Rightarrow> 's turn" where
  "turnEnd bracket data next s =
     (let idx = skipAdapterJSONWhitespace data next in
      if idx \<ge> length data then NotThisShape
      else if data ! idx = bracket then CloseAt s idx
      else if data ! idx \<noteq> CHR '','' then NotThisShape
      else GoOn s (idx + 1))"

definition objectTurn :: "(bytes \<Rightarrow> nat \<Rightarrow> bytes \<Rightarrow> 's \<Rightarrow> 's parsed) \<Rightarrow> bytes \<Rightarrow> nat \<Rightarrow> 's \<Rightarrow> 's turn" where
  "objectTurn field data idx0 s =
     (let idx = skipAdapterJSONWhitespace data idx0 in
      if idx \<ge> length data then NotThisShape
      else if data ! idx = CHR ''}'' then CloseAt s idx
      else (case scanAdapterJSONString data idx of
        Inl e \<Rightarrow> TurnError e
      | Inr (key, next) \<Rightarrow>
          (let idx = skipAdapterJSONWhitespace data next in
           if idx \<ge> length data \<or> data ! idx \<noteq> CHR '':'' then NotThisShape
           else (case field data (skipAdapterJSONWhitespace data (idx + 1)) key s of
             Inl e \<Rightarrow> TurnError e
           | Inr None \<Rightarrow> NotThisShape
           | Inr (Some (s, next)) \<Rightarrow> turnEnd (CHR ''}'') data next s))))"

definition arrayTurn :: "(bytes \<Rightarrow> nat \<Rightarrow> 's \<Rightarrow> 's parsed) \<Rightarrow> bytes \<Rightarrow> nat \<Rightarrow> 's \<Rightarrow> 's turn" where
  "arrayTurn element data idx0 s =
     (let idx = skipAdapterJSONWhitespace data idx0 in
      if idx \<ge> length data then NotThisShape
      else if data ! idx = CHR '']'' then CloseAt s idx
      else (case element data idx s of
        Inl e \<Rightarrow> TurnError e
      | Inr None \<Rightarrow> NotThisShape
      | Inr (Some (s, next)) \<Rightarrow> turnEnd (CHR '']'') data next s))"

text \<open>A value that is read moves the position forward; so does a turn.\<close>

definition reads_forward :: "(bytes \<Rightarrow> nat \<Rightarrow> 's \<Rightarrow> 's parsed) \<Rightarrow> bool" where
  "reads_forward element \<longleftrightarrow> (\<forall>data idx s s' n. element data idx s = Inr (Some (s', n)) \<longrightarrow> idx < n \<and> n \<le> length data)"

abbreviation field_forward :: "(bytes \<Rightarrow> nat \<Rightarrow> bytes \<Rightarrow> 's \<Rightarrow> 's parsed) \<Rightarrow> bool" where
  "field_forward field \<equiv> (\<forall>key. reads_forward (\<lambda>data idx s. field data idx key s))"

lemma reads_forwardI:
  "(\<And>data idx s s' n. element data idx s = Inr (Some (s', n)) \<Longrightarrow> idx < n \<and> n \<le> length data) \<Longrightarrow> reads_forward element"
  unfolding reads_forward_def by blast

lemma reads_forwardD: "reads_forward element \<Longrightarrow> element data idx s = Inr (Some (s', n)) \<Longrightarrow> idx < n \<and> n \<le> length data"
  unfolding reads_forward_def by blast

lemma turnEnd_forward:
  "turnEnd b data next s = GoOn s' n \<Longrightarrow> next < n \<and> n \<le> length data"
  "turnEnd b data next s = CloseAt s' n \<Longrightarrow> next \<le> n \<and> n < length data"
  using skipJSONWhitespace_ge [of "next" data] by (auto simp: turnEnd_def Let_def split: if_splits)

lemma objectTurn_cases:
  assumes "field_forward field"
  obtains (error) e where "objectTurn field data idx s = TurnError e"
  | (shape) "objectTurn field data idx s = NotThisShape"
  | (close) s' n where "objectTurn field data idx s = CloseAt s' n" "idx \<le> n" "n < length data"
  | (more) s' n where "objectTurn field data idx s = GoOn s' n" "idx < n" "n \<le> length data"
proof (cases "objectTurn field data idx s")
  case (CloseAt s' n)
  have "idx \<le> n \<and> n < length data"
  proof (cases "n = skipJSONWhitespace data idx")
    case True
    then show ?thesis using CloseAt skipJSONWhitespace_ge [of idx data]
      by (auto simp: objectTurn_def Let_def not_le split: if_splits sum.splits option.splits dest: turnEnd_forward)
  next
    case False
    with CloseAt obtain key a u m where "scanJSONString data (skipJSONWhitespace data idx) = Inr (key, a)"
      "field data (skipJSONWhitespace data (skipJSONWhitespace data a + 1)) key s = Inr (Some (u, m))"
      "turnEnd (CHR ''}'') data m u = CloseAt s' n"
      by (auto simp: objectTurn_def Let_def split: if_splits sum.splits option.splits)
    then show ?thesis
      using object_value_start [of data idx key a] reads_forwardD [OF assms [THEN spec, of key]] turnEnd_forward(2) by fastforce
  qed
  with CloseAt show ?thesis using close by blast
next
  case (GoOn s' n)
  then obtain key a u m where "scanJSONString data (skipJSONWhitespace data idx) = Inr (key, a)"
    "field data (skipJSONWhitespace data (skipJSONWhitespace data a + 1)) key s = Inr (Some (u, m))"
    "turnEnd (CHR ''}'') data m u = GoOn s' n"
    by (auto simp: objectTurn_def Let_def split: if_splits sum.splits option.splits)
  then show ?thesis
    using object_value_start [of data idx key a] reads_forwardD [OF assms [THEN spec, of key]] turnEnd_forward(1) more [OF GoOn]
    by fastforce
qed (use error shape in blast)+

lemma arrayTurn_cases:
  assumes "reads_forward element"
  obtains (error) e where "arrayTurn element data idx s = TurnError e"
  | (shape) "arrayTurn element data idx s = NotThisShape"
  | (close) s' n where "arrayTurn element data idx s = CloseAt s' n" "idx \<le> n" "n < length data"
  | (more) s' n where "arrayTurn element data idx s = GoOn s' n" "idx < n" "n \<le> length data"
proof (cases "arrayTurn element data idx s")
  case (CloseAt s' n)
  then consider "n = skipJSONWhitespace data idx" "n < length data"
    | u m where "element data (skipJSONWhitespace data idx) s = Inr (Some (u, m))" "turnEnd (CHR '']'') data m u = CloseAt s' n"
    by (auto simp: arrayTurn_def Let_def split: if_splits sum.splits option.splits)
  then have "idx \<le> n \<and> n < length data"
    by cases (use skipJSONWhitespace_ge [of idx data] reads_forwardD [OF assms] turnEnd_forward(2) in fastforce)+
  with CloseAt show ?thesis using close by blast
next
  case (GoOn s' n)
  then obtain u m where "element data (skipJSONWhitespace data idx) s = Inr (Some (u, m))" "turnEnd (CHR '']'') data m u = GoOn s' n"
    by (auto simp: arrayTurn_def Let_def split: if_splits sum.splits option.splits)
  then show ?thesis
    using skipJSONWhitespace_ge [of idx data] reads_forwardD [OF assms] turnEnd_forward(1) more [OF GoOn] by fastforce
qed (use error shape in blast)+

lemma objectTurn_less: "field_forward field \<Longrightarrow> objectTurn field data idx s = GoOn s' n \<Longrightarrow> length data - n < length data - idx"
  by (rule objectTurn_cases [of field data idx s]) auto

lemma arrayTurn_less: "reads_forward element \<Longrightarrow> arrayTurn element data idx s = GoOn s' n \<Longrightarrow> length data - n < length data - idx"
  by (rule arrayTurn_cases [of element data idx s]) auto

section \<open>Documents\<close>

text \<open>What follows an opening brace, up to and with the closing one, as the list of its keys and the texts of its values; what
  follows an opening bracket, as the list of the texts of its elements. Both may end in a comma, as the loops allow.\<close>

inductive object_doc :: "(bytes \<times> bytes) list \<Rightarrow> bytes \<Rightarrow> bool" where
  object_close: "json_ws w \<Longrightarrow> object_doc [] (w @ ''}'')"
| object_last: "json_ws w1 \<Longrightarrow> string_token k key \<Longrightarrow> json_ws w2 \<Longrightarrow> json_ws w3 \<Longrightarrow> json_ws w4 \<Longrightarrow>
    object_doc [(key, v)] (member_text w1 k w2 w3 v w4 @ ''}'')"
| object_more: "json_ws w1 \<Longrightarrow> string_token k key \<Longrightarrow> json_ws w2 \<Longrightarrow> json_ws w3 \<Longrightarrow> json_ws w4 \<Longrightarrow> object_doc ms m \<Longrightarrow>
    object_doc ((key, v) # ms) (member_text w1 k w2 w3 v w4 @ CHR '','' # m)"

inductive array_doc :: "bytes list \<Rightarrow> bytes \<Rightarrow> bool" where
  array_close: "json_ws w \<Longrightarrow> array_doc [] (w @ '']'')"
| array_last: "json_ws w1 \<Longrightarrow> json_ws w2 \<Longrightarrow> array_doc [v] (w1 @ v @ w2 @ '']'')"
| array_more: "json_ws w1 \<Longrightarrow> json_ws w2 \<Longrightarrow> array_doc vs e \<Longrightarrow> array_doc (v # vs) (w1 @ v @ w2 @ CHR '','' # e)"

text \<open>At every place of a document, the reader takes the text of the value and turns \<open>s\<close> into \<open>s'\<close>.\<close>

definition reads_value :: "(bytes \<Rightarrow> nat \<Rightarrow> 's \<Rightarrow> 's parsed) \<Rightarrow> bytes \<Rightarrow> 's \<Rightarrow> 's \<Rightarrow> bool" where
  "reads_value element v s s' \<longleftrightarrow> v \<noteq> [] \<and> value_start (hd v) \<and>
     (\<forall>p r. value_end r \<longrightarrow> element (p @ v @ r) (length p) s = Inr (Some (s', length p + length v)))"

fun reads_members :: "(bytes \<Rightarrow> nat \<Rightarrow> bytes \<Rightarrow> 's \<Rightarrow> 's parsed) \<Rightarrow> (bytes \<times> bytes) list \<Rightarrow> 's \<Rightarrow> 's \<Rightarrow> bool" where
  "reads_members field [] s s' \<longleftrightarrow> s' = s"
| "reads_members field ((key, v) # ms) s s' \<longleftrightarrow>
     (\<exists>u. reads_value (\<lambda>data idx. field data idx key) v s u \<and> reads_members field ms u s')"

fun reads_elements :: "(bytes \<Rightarrow> nat \<Rightarrow> 's \<Rightarrow> 's parsed) \<Rightarrow> bytes list \<Rightarrow> 's \<Rightarrow> 's \<Rightarrow> bool" where
  "reads_elements element [] s s' \<longleftrightarrow> s' = s"
| "reads_elements element (v # vs) s s' \<longleftrightarrow> (\<exists>u. reads_value element v s u \<and> reads_elements element vs u s')"

lemma reads_valueD:
  assumes "reads_value element v s s'" "value_end r"
  shows "element (p @ v @ r) (length p) s = Inr (Some (s', length p + length v))"
  using assms unfolding reads_value_def by blast

lemma reads_value_start: "reads_value element v s s' \<Longrightarrow> v \<noteq> [] \<and> value_start (hd v)"
  unfolding reads_value_def by blast

lemma turnEnd_delimiter:
  assumes "json_ws w" "c = b \<or> c = CHR '',''" "b = CHR ''}'' \<or> b = CHR '']''"
  shows "turnEnd b (p @ w @ c # r) (length p) s =
    (if c = b then CloseAt s (length (p @ w)) else GoOn s (length (p @ w) + 1))"
proof -
  have "delimiter c" using assms(2,3) by (auto simp: delimiter_def)
  then show ?thesis
    using skipJSONWhitespace_complete [OF assms(1) no_space_delimiter, of c p r] nth_after [of "c # r" "p @ w"] assms(2,3)
    by (auto simp: turnEnd_def Let_def)
qed

lemma objectTurn_member:
  assumes mem: "json_ws w1" "string_token k key" "json_ws w2" "json_ws w3" "json_ws w4"
    and v: "reads_value (\<lambda>data idx. field data idx key) v s s'" and c: "c = CHR ''}'' \<or> c = CHR '',''"
  shows "objectTurn field (p @ member_text w1 k w2 w3 v w4 @ c # r) (length p) s =
    (if c = CHR ''}'' then CloseAt s' (length (p @ member_text w1 k w2 w3 v w4))
     else GoOn s' (length (p @ member_text w1 k w2 w3 v w4) + 1))"
proof -
  let ?data = "p @ member_text w1 k w2 w3 v w4 @ c # r"
  note start = reads_value_start [OF v]
  note key = member_key_complete [OF mem(1-4) start [THEN conjunct1] start [THEN conjunct2], of p w4 "c # r"]
  have dc: "delimiter c" using c by (auto simp: delimiter_def)
  have "field ?data (length (p @ w1 @ k @ w2 @ '':'' @ w3)) key s = Inr (Some (s', length (p @ w1 @ k @ w2 @ '':'' @ w3 @ v)))"
    using reads_valueD [OF v value_end_after [OF mem(5) dc], of "p @ w1 @ k @ w2 @ '':'' @ w3" r] by (simp add: member_text_def)
  moreover have "turnEnd (CHR ''}'') ?data (length (p @ w1 @ k @ w2 @ '':'' @ w3 @ v)) s' =
      (if c = CHR ''}'' then CloseAt s' (length (p @ member_text w1 k w2 w3 v w4))
       else GoOn s' (length (p @ member_text w1 k w2 w3 v w4) + 1))"
    using turnEnd_delimiter [OF mem(5) c, of "p @ w1 @ k @ w2 @ '':'' @ w3 @ v" r s'] by (simp add: member_text_def)
  moreover have "?data ! length (p @ w1) = CHR 0x22" using scanJSONString_progress [OF key(2)] by blast
  moreover have "length (p @ w1) < length ?data" "length (p @ w1 @ k @ w2) < length ?data" by (simp_all add: member_text_def)
  ultimately show ?thesis using key by (simp add: objectTurn_def Let_def)
qed

lemma arrayTurn_element:
  assumes w: "json_ws w1" "json_ws w2" and v: "reads_value element v s s'" and c: "c = CHR '']'' \<or> c = CHR '',''"
  shows "arrayTurn element (p @ w1 @ v @ w2 @ c # r) (length p) s =
    (if c = CHR '']'' then CloseAt s' (length (p @ w1 @ v @ w2)) else GoOn s' (length (p @ w1 @ v @ w2) + 1))"
proof -
  let ?data = "p @ w1 @ v @ w2 @ c # r"
  note start = reads_value_start [OF v]
  have dc: "delimiter c" using c by (auto simp: delimiter_def)
  have "no_space_ahead (v @ w2 @ c # r)" using start value_start_not [of "hd v"] by (simp add: no_space_ahead_def)
  then have "skipJSONWhitespace ?data (length p) = length (p @ w1)"
    using skipJSONWhitespace_complete [OF w(1), of "v @ w2 @ c # r" p] by simp
  moreover have "?data ! length (p @ w1) \<noteq> CHR '']''"
    using nth_after [of "v @ w2 @ c # r" "p @ w1"] start value_start_not [of "hd v"] by auto
  moreover have "element ?data (length (p @ w1)) s = Inr (Some (s', length (p @ w1 @ v)))"
    using reads_valueD [OF v value_end_after [OF w(2) dc], of "p @ w1" r] by simp
  moreover have "length (p @ w1) < length ?data" by simp
  ultimately show ?thesis
    using turnEnd_delimiter [OF w(2) c, of "p @ w1 @ v" r s'] by (simp add: arrayTurn_def Let_def)
qed

lemma turn_close:
  assumes "json_ws w"
  shows "objectTurn field (p @ w @ CHR ''}'' # r) (length p) s = CloseAt s (length (p @ w))"
    and "arrayTurn element (p @ w @ CHR '']'' # r) (length p) s = CloseAt s (length (p @ w))"
  using skipJSONWhitespace_complete [OF assms, of "CHR ''}'' # r" p] nth_after [of "CHR ''}'' # r" "p @ w"]
    skipJSONWhitespace_complete [OF assms, of "CHR '']'' # r" p] nth_after [of "CHR '']'' # r" "p @ w"]
  by (simp_all add: objectTurn_def arrayTurn_def Let_def no_space_delimiter delimiter_def)

section \<open>The contract of a loop\<close>

text \<open>A loop that makes turns until one of them leaves it: it stops, or closes at a bracket it has reached.\<close>

locale scan_loop =
  fixes turn :: "bytes \<Rightarrow> nat \<Rightarrow> 's \<Rightarrow> 's turn"
    and loop :: "bytes \<Rightarrow> nat \<Rightarrow> 's \<Rightarrow> 'r"
    and close :: "'s \<Rightarrow> nat \<Rightarrow> 'r"
    and stop :: "adapter_error option \<Rightarrow> 'r"
  assumes loop_unfold: "loop data idx s =
      (case turn data idx s of
         TurnError e \<Rightarrow> stop (Some e) | NotThisShape \<Rightarrow> stop None | CloseAt s' n \<Rightarrow> close s' n | GoOn s' n \<Rightarrow> loop data n s')"
    and turn_close_forward: "turn data idx s = CloseAt s' n \<Longrightarrow> idx \<le> n \<and> n < length data"
    and turn_more_forward: "turn data idx s = GoOn s' n \<Longrightarrow> idx < n \<and> n \<le> length data"
begin

lemma loop_result:
  "(\<exists>e. loop data idx s = stop e) \<or> (\<exists>s' n. loop data idx s = close s' n \<and> idx \<le> n \<and> n < length data)"
proof (induction "length data - idx" arbitrary: idx s rule: less_induct)
  case less
  show ?case
  proof (cases "turn data idx s")
    case (GoOn s' n)
    with turn_more_forward [OF GoOn] less [of n s'] show ?thesis by (fastforce simp: loop_unfold [of data idx s])
  qed (use turn_close_forward in \<open>fastforce simp: loop_unfold [of data idx s]\<close>)+
qed

end

text \<open>The loops over the members of an object read what every member says, in the order of the document.\<close>

locale object_loop =
  fixes field :: "bytes \<Rightarrow> nat \<Rightarrow> bytes \<Rightarrow> 's \<Rightarrow> 's parsed"
    and loop :: "bytes \<Rightarrow> nat \<Rightarrow> 's \<Rightarrow> 'r"
    and close :: "'s \<Rightarrow> nat \<Rightarrow> 'r"
    and stop :: "adapter_error option \<Rightarrow> 'r"
  assumes field_fwd: "field_forward field"
    and object_unfold: "loop data idx s =
      (case objectTurn field data idx s of
         TurnError e \<Rightarrow> stop (Some e) | NotThisShape \<Rightarrow> stop None | CloseAt s' n \<Rightarrow> close s' n | GoOn s' n \<Rightarrow> loop data n s')"

sublocale object_loop \<subseteq> scan_loop "objectTurn field" loop close stop
proof
  show "idx \<le> n \<and> n < length data" if "objectTurn field data idx s = CloseAt s' n" for data idx s s' n
    using that by (rule_tac objectTurn_cases [OF field_fwd, of data idx s]) auto
  show "idx < n \<and> n \<le> length data" if "objectTurn field data idx s = GoOn s' n" for data idx s s' n
    using that by (rule_tac objectTurn_cases [OF field_fwd, of data idx s]) auto
qed (rule object_unfold)

context object_loop
begin

lemma loop_reads:
  assumes "object_doc ms m" "reads_members field ms s s'"
  shows "loop (p @ m @ r) (length p) s = close s' (length p + length m - 1)"
  using assms
proof (induction ms m arbitrary: p s rule: object_doc.induct)
  case (object_close w)
  then show ?case using turn_close(1) [of w field p r s] by (subst object_unfold) simp
next
  case (object_last w1 k key w2 w3 w4 v)
  from object_last.prems objectTurn_member [OF object_last.hyps, of field v s s' "CHR ''}''" p r] show ?case
    by (subst object_unfold) simp
next
  case (object_more w1 k key w2 w3 w4 ms m v)
  from object_more.prems obtain u where u: "reads_value (\<lambda>data idx. field data idx key) v s u" "reads_members field ms u s'"
    by auto
  from u(1) objectTurn_member [OF object_more.hyps(1-5), of field v s u "CHR '',''" p "m @ r"]
    object_more.IH [OF u(2), of "p @ member_text w1 k w2 w3 v w4 @ '',''"]
  show ?case by (subst object_unfold) (simp add: ac_simps)
qed

end

locale array_loop =
  fixes element :: "bytes \<Rightarrow> nat \<Rightarrow> 's \<Rightarrow> 's parsed"
    and loop :: "bytes \<Rightarrow> nat \<Rightarrow> 's \<Rightarrow> 'r"
    and close :: "'s \<Rightarrow> nat \<Rightarrow> 'r"
    and stop :: "adapter_error option \<Rightarrow> 'r"
  assumes element_fwd: "reads_forward element"
    and array_unfold: "loop data idx s =
      (case arrayTurn element data idx s of
         TurnError e \<Rightarrow> stop (Some e) | NotThisShape \<Rightarrow> stop None | CloseAt s' n \<Rightarrow> close s' n | GoOn s' n \<Rightarrow> loop data n s')"

sublocale array_loop \<subseteq> scan_loop "arrayTurn element" loop close stop
proof
  show "idx \<le> n \<and> n < length data" if "arrayTurn element data idx s = CloseAt s' n" for data idx s s' n
    using that by (rule_tac arrayTurn_cases [OF element_fwd, of data idx s]) auto
  show "idx < n \<and> n \<le> length data" if "arrayTurn element data idx s = GoOn s' n" for data idx s s' n
    using that by (rule_tac arrayTurn_cases [OF element_fwd, of data idx s]) auto
qed (rule array_unfold)

context array_loop
begin

lemma loop_reads:
  assumes "array_doc vs e" "reads_elements element vs s s'"
  shows "loop (p @ e @ r) (length p) s = close s' (length p + length e - 1)"
  using assms
proof (induction vs e arbitrary: p s rule: array_doc.induct)
  case (array_close w)
  then show ?case using turn_close(2) [of w element p r s] by (subst array_unfold) simp
next
  case (array_last w1 w2 v)
  from array_last.prems arrayTurn_element [OF array_last.hyps, of element v s s' "CHR '']''" p r] show ?case
    by (subst array_unfold) simp
next
  case (array_more w1 w2 vs e v)
  from array_more.prems obtain u where u: "reads_value element v s u" "reads_elements element vs u s'" by auto
  from arrayTurn_element [OF array_more.hyps(1,2) u(1), of "CHR '',''" p "e @ r"] array_more.IH [OF u(2), of "p @ w1 @ v @ w2 @ '',''"]
  show ?case by (subst array_unfold) (simp add: ac_simps)
qed

end

section \<open>Skipping a value reads the grammar\<close>

text \<open>The loops of \<open>skipAdapterJSONObject\<close> and \<open>skipAdapterJSONArray\<close> are loops of this kind, without variables.\<close>

definition skipElement :: "bytes \<Rightarrow> nat \<Rightarrow> unit \<Rightarrow> unit parsed" where
  "skipElement data idx s = andThen (skipAdapterJSONValue data idx) (\<lambda>next. Inr (Some (s, next)))"

lemma skipElement_forward: "reads_forward skipElement"
  by (rule reads_forwardI) (auto simp: skipElement_def andThen_Inr_iff dest: skipAdapterJSONValue_progress)

definition skipStop :: "adapter_error option \<Rightarrow> (adapter_error, nat) result" where
  "skipStop e = Inl (case e of None \<Rightarrow> ErrSyntax | Some e \<Rightarrow> e)"

interpretation skipped_object: object_loop
  "\<lambda>data idx key. skipElement data idx" "\<lambda>data idx s. skipAdapterObjectLoop data idx" "\<lambda>s n. Inr (n + 1)" skipStop
proof
  show "field_forward (\<lambda>data idx key. skipElement data idx)" using skipElement_forward by simp
  show "skipAdapterObjectLoop data idx =
      (case objectTurn (\<lambda>data idx key. skipElement data idx) data idx s of
         TurnError e \<Rightarrow> skipStop (Some e) | NotThisShape \<Rightarrow> skipStop None | CloseAt s' n \<Rightarrow> Inr (n + 1)
       | GoOn s' n \<Rightarrow> skipAdapterObjectLoop data n)" for data idx s
    by (subst skipAdapterObjectLoop.simps)
       (auto simp: objectTurn_def turnEnd_def skipElement_def skipStop_def Let_def as_syntax_def split: sum.split)
qed

interpretation skipped_array: array_loop
  skipElement "\<lambda>data idx s. skipAdapterArrayLoop data idx" "\<lambda>s n. Inr (n + 1)" skipStop
proof
  show "reads_forward skipElement" by (rule skipElement_forward)
  show "skipAdapterArrayLoop data idx =
      (case arrayTurn skipElement data idx s of
         TurnError e \<Rightarrow> skipStop (Some e) | NotThisShape \<Rightarrow> skipStop None | CloseAt s' n \<Rightarrow> Inr (n + 1)
       | GoOn s' n \<Rightarrow> skipAdapterArrayLoop data n)" for data idx s
    by (subst skipAdapterArrayLoop.simps)
       (auto simp: arrayTurn_def turnEnd_def skipElement_def skipStop_def Let_def split: sum.split)
qed

text \<open>Integers: an optional minus sign, digits (leading zeros are allowed), a value an \<open>int64\<close> holds.\<close>

definition int_token :: "bytes \<Rightarrow> int \<Rightarrow> bool" where
  "int_token t v \<longleftrightarrow> (\<exists>sign ds. t = sign @ ds \<and> (sign = [] \<or> sign = ''-'') \<and> json_digits ds \<and> atoi t = Inr v)"

inductive plain_value :: "bytes \<Rightarrow> bool" where
  plain_string: "string_token t v \<Longrightarrow> plain_value t"
| plain_literal: "t = ''true'' \<or> t = ''false'' \<or> t = ''null'' \<Longrightarrow> plain_value t"
| plain_int: "int_token t v \<Longrightarrow> plain_value t"
| plain_object: "object_doc ms m \<Longrightarrow> (\<And>k v. (k, v) \<in> set ms \<Longrightarrow> plain_value v) \<Longrightarrow> plain_value (CHR ''{'' # m)"
| plain_array: "array_doc vs e \<Longrightarrow> (\<And>v. v \<in> set vs \<Longrightarrow> plain_value v) \<Longrightarrow> plain_value (CHR ''['' # e)"

lemma int_token_start: "int_token t v \<Longrightarrow> t \<noteq> [] \<and> (hd t = CHR ''-'' \<or> isJSONDigit (hd t))"
  by (auto simp: int_token_def json_digits_def neq_Nil_conv)

lemma plain_value_start: "plain_value v \<Longrightarrow> v \<noteq> [] \<and> value_start (hd v)"
  by (erule plain_value.cases) (auto simp: value_start_def dest: string_token_shape int_token_start)

lemma scanAdapterJSONInt_complete:
  assumes "int_token t v" "value_end r"
  shows "scanAdapterJSONInt (p @ t @ r) (length p) = Inr (v, length p + length t)"
proof -
  from assms(1) obtain sign ds where t: "t = sign @ ds" "sign = [] \<or> sign = ''-''" "json_digits ds" "atoi t = Inr v"
    by (auto simp: int_token_def)
  then obtain d ds' where ds: "ds = d # ds'" "isJSONDigit d" by (auto simp: json_digits_def neq_Nil_conv)
  define data where "data = p @ t @ r"
  have "skipDigits data (length (p @ sign)) = length (p @ t)"
    using skipDigits_complete [of ds r "p @ sign"] t(1,3) assms(2) by (auto simp: data_def json_digits_def value_end_def)
  moreover have "data ! length (p @ sign) = d" using nth_after [of "ds @ r" "p @ sign"] ds(1) t(1) by (simp add: data_def)
  moreover have "data ! length p = hd t" using nth_after [of "t @ r" p] ds(1) t(1) by (simp add: data_def hd_append)
  moreover have "segment data (length p) (length (p @ t)) = t" using segment_middle [of p t r] by (simp add: data_def)
  moreover have "length (p @ sign) = (if hd t = CHR ''-'' then length p + 1 else length p)"
    using t(1,2) ds digit_not_special [OF ds(2)] by auto
  moreover have "length (p @ sign) < length data" using t(1) ds(1) by (simp add: data_def)
  ultimately have "scanAdapterJSONInt data (length p) = Inr (v, length p + length t)"
    using t(4) ds(2) by (simp add: scanAdapterJSONInt_def Let_def split: if_splits)
  then show ?thesis by (simp add: data_def)
qed

lemma skipAdapterJSONValue_at:
  assumes "v \<noteq> []" "\<not> isJSONSpace (hd v)"
  shows "skipAdapterJSONValue (p @ v @ r) (length p) =
    (if hd v = CHR ''{'' then skipAdapterObjectLoop (p @ v @ r) (length p + 1)
     else if hd v = CHR ''['' then skipAdapterArrayLoop (p @ v @ r) (length p + 1)
     else if hd v = CHR 0x22 then (case scanJSONString (p @ v @ r) (length p) of Inl _ \<Rightarrow> Inl ErrSyntax | Inr (_, n) \<Rightarrow> Inr n)
     else if hd v = CHR ''t'' then as_syntax (skipJSONLiteral (p @ v @ r) (length p) ''true'')
     else if hd v = CHR ''f'' then as_syntax (skipJSONLiteral (p @ v @ r) (length p) ''false'')
     else if hd v = CHR ''n'' then as_syntax (skipJSONLiteral (p @ v @ r) (length p) ''null'')
     else if hd v = CHR ''-'' \<or> isJSONDigit (hd v) then
       (case scanAdapterJSONInt (p @ v @ r) (length p) of Inl _ \<Rightarrow> Inl ErrSyntax | Inr (_, n) \<Rightarrow> Inr n)
     else Inl ErrSyntax)"
proof -
  have "skipJSONWhitespace (p @ v @ r) (length p) = length p" using skipJSONWhitespace_here [of "v @ r" p] assms by simp
  moreover have "(p @ v @ r) ! length p = hd v" using nth_after [of "v @ r" p] assms(1) by simp
  ultimately show ?thesis
    using assms(1)
    by (simp add: skipAdapterJSONValue.simps [of "p @ v @ r"] skipAdapterJSONObject.simps skipAdapterJSONArray.simps
        as_syntax_def split: sum.split)
qed

lemma skipElement_reads:
  assumes "plain_value v" "\<And>p r. value_end r \<Longrightarrow> skipAdapterJSONValue (p @ v @ r) (length p) = Inr (length p + length v)"
  shows "reads_value skipElement v s s"
  using plain_value_start [OF assms(1)] assms(2) by (simp add: reads_value_def skipElement_def)

lemma skipElement_reads_members:
  "(\<And>k v. (k, v) \<in> set ms \<Longrightarrow> reads_value skipElement v s s) \<Longrightarrow> reads_members (\<lambda>data idx key. skipElement data idx) ms s s"
  by (induction ms) fastforce+

lemma skipElement_reads_elements:
  "(\<And>v. v \<in> set vs \<Longrightarrow> reads_value skipElement v s s) \<Longrightarrow> reads_elements skipElement vs s s"
  by (induction vs) fastforce+

lemma text_nonempty: "object_doc ms m \<Longrightarrow> m \<noteq> []" "array_doc vs e \<Longrightarrow> e \<noteq> []"
  by (auto elim: object_doc.cases array_doc.cases)

lemma skipAdapterJSONValue_complete:
  "plain_value v \<Longrightarrow> value_end r \<Longrightarrow> skipAdapterJSONValue (p @ v @ r) (length p) = Inr (length p + length v)"
proof (induction v arbitrary: p r rule: plain_value.induct)
  case (plain_string t v)
  then show ?case
    using scanJSONString_complete [OF plain_string(1), of p r] string_token_shape [OF plain_string(1)]
    by (subst skipAdapterJSONValue_at) (auto simp: isJSONSpace_def)
next
  case (plain_literal t)
  then show ?case
    using skipJSONLiteral_complete [of p t r] by (subst skipAdapterJSONValue_at) (auto simp: isJSONSpace_def)
next
  case (plain_int t v)
  then show ?case
    using scanAdapterJSONInt_complete [OF plain_int(1,2), of p] int_token_start [OF plain_int(1)]
    by (subst skipAdapterJSONValue_at) (auto simp: isJSONSpace_def isJSONDigit_def)
next
  case (plain_object ms m)
  have "reads_members (\<lambda>data idx key. skipElement data idx) ms () ()"
    by (rule skipElement_reads_members, rule skipElement_reads) (use plain_object in auto)
  from skipped_object.loop_reads [OF plain_object(1) this, of "p @ ''{''" r] text_nonempty(1) [OF plain_object(1)] show ?case
    by (subst skipAdapterJSONValue_at) (auto simp: isJSONSpace_def)
next
  case (plain_array vs e)
  have "reads_elements skipElement vs () ()"
    by (rule skipElement_reads_elements, rule skipElement_reads) (use plain_array in auto)
  from skipped_array.loop_reads [OF plain_array(1) this, of "p @ ''[''" r] text_nonempty(2) [OF plain_array(1)] show ?case
    by (subst skipAdapterJSONValue_at) (auto simp: isJSONSpace_def)
qed

text \<open>C34. The recursive scanner of the adapter always returns: every call is in the domain of the recursion, whatever the
  document. When it succeeds it has moved forward and stays within the document, so no index of the scan is out of range.\<close>

theorem adapter_scanner_terminates:
  "adapter_dom (Inl (Inl (data, idx))) \<and> (skipAdapterJSONValue data idx = Inr n \<longrightarrow> idx < n \<and> n \<le> length data)"
  using adapter_total skipAdapterJSONValue_progress by blast

theorem adapter_scanner_terminates_witness:
  "skipAdapterJSONValue ''[{},-12]x'' 0 = Inr 8 \<and> (0 :: nat) < 8 \<and> 8 \<le> length ''[{},-12]x''"
proof -
  have "skipAdapterJSONValue ''[{},-12]x'' 0 = Inr 8" by code_simp
  with adapter_scanner_terminates [of "''[{},-12]x''" 0 8] show ?thesis by blast
qed

end
