(* ===== verification/Go_Quote.thy ===== *)
theory Go_Quote
  imports Go_Strings
begin

text \<open>
  \<open>strconv.Quote\<close> (and \<open>AppendQuote\<close>, and the \<open>%q\<close> of \<open>fmt\<close>), with which the adapters write JSON
  strings. The table of printable characters beyond Latin-1 is a parameter. The main fact is that
  \<^const>\<open>unquote\<close> reads every quoted text back.
\<close>

section \<open>Definitions\<close>

definition isPrintRune :: "(nat \<Rightarrow> bool) \<Rightarrow> nat \<Rightarrow> bool" where
  "isPrintRune table r \<longleftrightarrow>
     (if r \<le> 0xFF then (0x20 \<le> r \<and> r < 0x7F) \<or> (0xA1 \<le> r \<and> r \<noteq> 0xAD) else table r)"

definition hexDigit :: "nat \<Rightarrow> char" where
  "hexDigit n = char_of (if n < 10 then 48 + n else 87 + n)"

text \<open>The \<open>n\<close> low hexadecimal digits, most significant first.\<close>

fun hexDigits :: "nat \<Rightarrow> nat \<Rightarrow> bytes" where
  "hexDigits 0 v = []"
| "hexDigits (Suc n) v = hexDigits n (v div 16) @ [hexDigit (v mod 16)]"

definition escapedRune :: "(nat \<Rightarrow> bool) \<Rightarrow> nat \<Rightarrow> bytes" where
  "escapedRune table r =
     (if r = 0x22 \<or> r = 0x5C then [CHR 0x5C, char_of r]
      else if isPrintRune table r then encodeRune r
      else if r = 7 then CHR 0x5C # ''a''
      else if r = 8 then CHR 0x5C # ''b''
      else if r = 12 then CHR 0x5C # ''f''
      else if r = 10 then CHR 0x5C # ''n''
      else if r = 13 then CHR 0x5C # ''r''
      else if r = 9 then CHR 0x5C # ''t''
      else if r = 11 then CHR 0x5C # ''v''
      else if r < 0x20 \<or> r = 0x7F then CHR 0x5C # CHR ''x'' # hexDigits 2 r
      else if \<not> validRune r then CHR 0x5C # CHR ''u'' # hexDigits 4 runeError
      else if r < 0x10000 then CHR 0x5C # CHR ''u'' # hexDigits 4 r
      else CHR 0x5C # CHR ''U'' # hexDigits 8 r)"

text \<open>One round of the loop: the text written, and how many bytes were read.\<close>

fun quoteStep :: "(nat \<Rightarrow> bool) \<Rightarrow> bytes \<Rightarrow> bytes \<times> nat" where
  "quoteStep table [] = ([], 0)"
| "quoteStep table (a # s) =
     (let (r, width) = (if 0x80 \<le> byte a then decodeRune (a # s) else (byte a, 1)) in
      if width = 1 \<and> r = runeError then (CHR 0x5C # CHR ''x'' # hexDigits 2 (byte a), 1)
      else (escapedRune table r, width))"

lemma quoteStep_width: "s \<noteq> [] \<Longrightarrow> 1 \<le> snd (quoteStep table s)"
  using decodeRune_width [of s] by (cases s) (auto simp del: decodeRune.simps split: prod.split)

function quoteLoop :: "(nat \<Rightarrow> bool) \<Rightarrow> bytes \<Rightarrow> bytes" where
  "quoteLoop table s =
     (if s = [] then [] else (case quoteStep table s of (out, width) \<Rightarrow> out @ quoteLoop table (drop width s)))"
  by pat_completeness auto
termination
proof (relation "measure (\<lambda>(table, s). length s)", goal_cases)
  case (2 table s out width)
  then show ?case using quoteStep_width [of s table] by (cases "quoteStep table s"; cases s) (auto simp del: quoteStep.simps)
qed simp

declare quoteLoop.simps [simp del]

definition quote :: "(nat \<Rightarrow> bool) \<Rightarrow> bytes \<Rightarrow> bytes" where
  "quote table s = CHR 0x22 # quoteLoop table s @ [CHR 0x22]"

section \<open>Decoding what was encoded\<close>

lemma byte_lt: "byte c < (256 :: nat)"
  by (cases c) (simp add: of_char_def horner_sum_simps)

text \<open>Digits to the base 64.\<close>

lemma digit64: "z < 64 \<Longrightarrow> (q * 64 + z) div 64 = q" "z < 64 \<Longrightarrow> (q * 64 + z) mod 64 = (z :: nat)"
  by simp_all

lemma base64:
  assumes "y < 64" "z < (64 :: nat)"
  shows "(x * 4096 + y * 64 + z) div 64 mod 64 = y" "(x * 4096 + y * 64 + z) mod 64 = z" "(x * 4096 + y * 64 + z) div 4096 = x"
proof -
  have r: "x * 4096 + y * 64 + z = (x * 64 + y) * 64 + z" by simp
  show "(x * 4096 + y * 64 + z) div 64 mod 64 = y" "(x * 4096 + y * 64 + z) mod 64 = z"
    unfolding r digit64 [OF assms(2)] by (rule digit64(2) [OF assms(1)], rule refl)
  have "(x * 4096 + y * 64 + z) div 4096 = ((x * 64 + y) * 64 + z) div 64 div 64" by (simp add: div_mult2_eq [symmetric])
  then show "(x * 4096 + y * 64 + z) div 4096 = x" unfolding digit64 [OF assms(2)] digit64 [OF assms(1)] .
qed

lemma char_eqI: "byte a = n \<Longrightarrow> char_of n = a"
  by auto

text \<open>A decoded character of more than one byte is encoded to the bytes it was read from.\<close>

lemma encode_two:
  assumes "inRange 0xC2 0xDF a" "isCont b"
  shows "encodeRune ((byte a - 0xC0) * 64 + (byte b - 0x80)) = [a, b]"
proof -
  from assms obtain x y where xy: "byte a = 0xC0 + x" "byte b = 0x80 + y" "2 \<le> x" "x < 32" "y < 64"
    by (auto simp: inRange_def dest!: le_Suc_ex) 
  then show ?thesis
    by (auto simp: encodeRune_def Let_def validRune_def intro!: char_eqI)
qed

lemma encodeRune_long:
  "validRune r \<Longrightarrow> 0x800 \<le> r \<Longrightarrow> r < 0x10000 \<Longrightarrow>
     encodeRune r = [char_of (0xE0 + r div 4096), char_of (0x80 + r div 64 mod 64), char_of (0x80 + r mod 64)]"
  "validRune r \<Longrightarrow> 0x10000 \<le> r \<Longrightarrow>
     encodeRune r = [char_of (0xF0 + r div 262144), char_of (0x80 + r div 4096 mod 64), char_of (0x80 + r div 64 mod 64),
       char_of (0x80 + r mod 64)]"
  by (simp_all add: encodeRune_def)

lemma encode_three:
  assumes "inRange 0xE0 0xEF a" "inRange (if byte a = 0xE0 then 0xA0 else 0x80) (if byte a = 0xED then 0x9F else 0xBF) b" "isCont c"
  shows "encodeRune ((byte a - 0xE0) * 4096 + (byte b - 0x80) * 64 + (byte c - 0x80)) = [a, b, c]"
    (is "encodeRune ?r = _") and "validRune ((byte a - 0xE0) * 4096 + (byte b - 0x80) * 64 + (byte c - 0x80))"
    and "0x800 \<le> (byte a - 0xE0) * 4096 + (byte b - 0x80) * 64 + (byte c - 0x80)"
proof -
  define x y z :: nat where "x = byte a - 0xE0" and "y = byte b - 0x80" and "z = byte c - 0x80"
  have xyz: "byte a = 0xE0 + x" "byte b = 0x80 + y" "byte c = 0x80 + z" "x < 16" "y < 64" "z < 64"
    "x = 0 \<longrightarrow> 32 \<le> y" "x = 13 \<longrightarrow> y < 32"
    using assms by (auto simp: inRange_def x_def y_def z_def split: if_splits)
  have r: "?r = x * 4096 + y * 64 + z" by (simp add: xyz)
  show ge: "0x800 \<le> ?r" using xyz unfolding r by (cases "x = 0") auto
  show v: "validRune ?r" using xyz unfolding r validRune_def by (cases "x \<le> 13") (auto simp: le_less)
  have lt: "?r < 0x10000" using xyz unfolding r by linarith
  show "encodeRune ?r = [a, b, c]"
    unfolding encodeRune_long(1) [OF v ge lt] unfolding r base64 [OF xyz(5,6)] xyz(1-3) [symmetric] by simp
qed

lemma encode_four:
  assumes "inRange 0xF0 0xF4 a" "inRange (if byte a = 0xF0 then 0x90 else 0x80) (if byte a = 0xF4 then 0x8F else 0xBF) b"
    "isCont c" "isCont d"
  shows "encodeRune ((byte a - 0xF0) * 262144 + (byte b - 0x80) * 4096 + (byte c - 0x80) * 64 + (byte d - 0x80)) = [a, b, c, d]"
      (is "encodeRune ?r = _")
    and "validRune ((byte a - 0xF0) * 262144 + (byte b - 0x80) * 4096 + (byte c - 0x80) * 64 + (byte d - 0x80))"
    and "0x10000 \<le> (byte a - 0xF0) * 262144 + (byte b - 0x80) * 4096 + (byte c - 0x80) * 64 + (byte d - 0x80)"
proof -
  define x y z w :: nat where "x = byte a - 0xF0" and "y = byte b - 0x80" and "z = byte c - 0x80" and "w = byte d - 0x80"
  have xyz: "byte a = 0xF0 + x" "byte b = 0x80 + y" "byte c = 0x80 + z" "byte d = 0x80 + w" "x \<le> 4" "y < 64" "z < 64" "w < 64"
    "x = 0 \<longrightarrow> 16 \<le> y" "x = 4 \<longrightarrow> y < 16"
    using assms by (auto simp: inRange_def x_def y_def z_def w_def split: if_splits)
  have r: "?r = (x * 64 + y) * 4096 + z * 64 + w" by (simp add: xyz)
  show ge: "0x10000 \<le> ?r" using xyz unfolding r by (cases "x = 0") auto
  show v: "validRune ?r" using xyz ge unfolding r validRune_def by (cases "x = 4") auto
  define q where "q = x * 64 + y"
  have d: "n div 262144 = n div 4096 div 64" for n :: nat by (simp add: div_mult2_eq [symmetric])
  have e: "?r div 4096 = q" "?r div 64 mod 64 = z" "?r mod 64 = w"
    using base64 [OF xyz(7,8), of q] unfolding r q_def [symmetric] by blast+
  have f: "q div 64 = x" "q mod 64 = y" unfolding q_def by (rule digit64 [OF xyz(6)])+
  show "encodeRune ?r = [a, b, c, d]"
    unfolding encodeRune_long(2) [OF v ge] d e f xyz(1-4) [symmetric] by simp
qed

text \<open>How a byte list can begin with a character of more than one byte.\<close>

lemma decode_cases:
  assumes "decodeRune (a # s) = (r, w)" "0x80 \<le> byte a" "\<not> (w = 1 \<and> r = runeError)"
  obtains (two) b u where "s = b # u" "inRange 0xC2 0xDF a" "isCont b" "r = (byte a - 0xC0) * 64 + (byte b - 0x80)" "w = 2"
  | (three) b c u where "s = b # c # u" "inRange 0xE0 0xEF a" "isCont c" "w = 3"
      "inRange (if byte a = 0xE0 then 0xA0 else 0x80) (if byte a = 0xED then 0x9F else 0xBF) b"
      "r = (byte a - 0xE0) * 4096 + (byte b - 0x80) * 64 + (byte c - 0x80)"
  | (four) b c d u where "s = b # c # d # u" "inRange 0xF0 0xF4 a" "isCont c" "isCont d" "w = 4"
      "inRange (if byte a = 0xF0 then 0x90 else 0x80) (if byte a = 0xF4 then 0x8F else 0xBF) b"
      "r = (byte a - 0xF0) * 262144 + (byte b - 0x80) * 4096 + (byte c - 0x80) * 64 + (byte d - 0x80)"
  using assms by (auto split: if_splits list.splits)

lemma encode_decode:
  assumes "decodeRune (a # s) = (r, w)" "0x80 \<le> byte a" "\<not> (w = 1 \<and> r = runeError)"
  shows "(\<exists>u. a # s = encodeRune r @ u \<and> drop w (a # s) = u) \<and> validRune r \<and> 0x80 \<le> r \<and>
    decodeRune (encodeRune r @ t) = (r, length (encodeRune r)) \<and> (\<exists>s'. encodeRune r = a # s') \<and> w = length (encodeRune r)"
  using assms
proof (cases rule: decode_cases)
  case (two b u)
  then have "2 \<le> byte a - 0xC0" "byte a - 0xC0 < 32" "byte b - 0x80 < 64" by (auto simp: inRange_def)
  with two assms(2) encode_two [of a b] show ?thesis by (simp add: validRune_def)
next
  case (three b c u)
  have "\<not> inRange 0xC2 0xDF a" using three by (simp add: inRange_def)
  with three assms(2) encode_three [of a b c] show ?thesis by simp
next
  case (four b c d u)
  have "\<not> inRange 0xC2 0xDF a" "\<not> inRange 0xE0 0xEF a" using four by (simp_all add: inRange_def)
  with four assms(2) encode_four [of a b c d] show ?thesis by simp
qed

section \<open>Reading a quoted text back\<close>

lemma hexDigit_unhex: "n < 16 \<Longrightarrow> unhex (hexDigit n) = Some n"
  by (auto simp: hexDigit_def unhex_def inRange_def)

lemma readDigits_append:
  "readDigits dig base n v s = Some (x, []) \<Longrightarrow> readDigits dig base (n + m) v (s @ t) = readDigits dig base m x t"
proof (induction n arbitrary: v s)
  case 0
  then show ?case by simp
next
  case (Suc n)
  then show ?case by (cases s) (auto split: option.splits)
qed

lemma readDigits_more: "readDigits dig base n v s = Some (x, []) \<Longrightarrow> readDigits dig base n v (s @ t) = Some (x, t)"
  using readDigits_append [of dig base n v s x 0 t] by simp

lemma readDigits_hexDigits: "v < 16 ^ n \<Longrightarrow> readDigits unhex 16 n u (hexDigits n v) = Some (u * 16 ^ n + v, [])"
proof (induction n arbitrary: v)
  case (Suc n)
  then have "readDigits unhex 16 n u (hexDigits n (v div 16)) = Some (u * 16 ^ n + v div 16, [])" by (simp add: less_mult_imp_div_less)
  from readDigits_append [OF this, of 1 "[hexDigit (v mod 16)]"] show ?case
    by (simp add: hexDigit_unhex algebra_simps)
qed simp

lemma readDigits_hex: "v < 16 ^ n \<Longrightarrow> readDigits unhex 16 n 0 (hexDigits n v @ t) = Some (v, t)"
  using readDigits_more [OF readDigits_hexDigits [of v n 0], of t] by simp

text \<open>One escaped character is read back in one step.\<close>

definition reads_back :: "bytes \<Rightarrow> bytes \<Rightarrow> bytes \<Rightarrow> bool" where
  "reads_back out s t \<longleftrightarrow> out \<noteq> [] \<and> hd out \<noteq> CHR 0x22 \<and> hd out \<noteq> CHR 0x0A \<and>
     (\<exists>r m. unquoteChar (out @ t) = Some (r, m, t) \<and> (if r < 0x80 \<or> \<not> m then [char_of r] else encodeRune r) = s)"

lemma quote_chars: "char_of (0x22 :: nat) = CHR 0x22" "char_of (0x5C :: nat) = CHR 0x5C"
  by (rule char_eqI, simp)+

lemma reads_back_escape:
  "escapedRune table r = CHR 0x5C # out \<Longrightarrow> unquoteChar (CHR 0x5C # out @ t) = Some (r, False, t) \<Longrightarrow>
     reads_back (escapedRune table r) [char_of r] t"
  unfolding reads_back_def by (intro conjI exI [of _ r] exI [of _ False]) simp_all

lemma escaped_ascii: "r < 0x80 \<Longrightarrow> reads_back (escapedRune table r) [char_of r] t"
proof -
  assume r: "r < 0x80"
  have b: "byte (char_of r :: char) = r" using r by simp
  show ?thesis
  proof (cases "r = 0x22 \<or> r = 0x5C")
    case True
    then have "escapedRune table r = CHR 0x5C # [char_of r]" by (simp add: escapedRune_def)
    moreover have "unquoteChar (CHR 0x5C # [char_of r] @ t) = Some (r, False, t)"
      using True by (elim disjE) (simp_all add: unquoteEscape_def inRange_def quote_chars)
    ultimately show ?thesis by (rule reads_back_escape)
  next
    case quoted: False
    show ?thesis
    proof (cases "r < 0x20 \<or> r = 0x7F")
      case False
      have "char_of r \<noteq> CHR 0x22" "char_of r \<noteq> CHR 0x5C" "char_of r \<noteq> CHR 0x0A"
        using arg_cong [of "char_of r" _ "of_char :: char \<Rightarrow> nat"] quoted False unfolding b by fastforce+
      moreover have "escapedRune table r = [char_of r]"
        using quoted False r by (simp add: escapedRune_def isPrintRune_def encodeRune_def validRune_def)
      ultimately show ?thesis using r b by (auto simp: reads_back_def)
    next
      case control: True
      show ?thesis
      proof (cases "r \<in> {7, 8, 9, 10, 11, 12, 13}")
        case True
        then obtain c where "escapedRune table r = CHR 0x5C # [c]" "unquoteEscape c t = Some (r, False, t)"
          by (elim insertE emptyE) (simp_all add: escapedRune_def isPrintRune_def unquoteEscape_def)
        then show ?thesis by (intro reads_back_escape) auto
      next
        case False
        then have "escapedRune table r = CHR 0x5C # CHR ''x'' # hexDigits 2 r"
          using control by (auto simp: escapedRune_def isPrintRune_def)
        moreover have "unquoteChar (CHR 0x5C # CHR ''x'' # hexDigits 2 r @ t) = Some (r, False, t)"
          using r readDigits_hex [of r 2 t] by (simp add: unquoteEscape_def)
        ultimately show ?thesis by (intro reads_back_escape [where out = "CHR ''x'' # hexDigits 2 r"]) simp_all
      qed
    qed
  qed
qed

lemma escaped_wide:
  assumes "0x80 \<le> r" "validRune r" "decodeRune (encodeRune r @ t) = (r, length (encodeRune r))"
    "encodeRune r = a # s'" "0x80 \<le> byte a"
  shows "reads_back (escapedRune table r) (encodeRune r) t"
proof (cases "isPrintRune table r")
  case True
  have "a \<noteq> CHR 0x22" "a \<noteq> CHR 0x0A" using assms(5) by auto
  moreover have "escapedRune table r = encodeRune r" using assms(1) True by (simp add: escapedRune_def)
  moreover have "unquoteChar (encodeRune r @ t) = Some (r, True, t)"
    using assms(3-5) \<open>a \<noteq> CHR 0x22\<close> by (simp del: decodeRune.simps)
  ultimately show ?thesis using assms(1,4) by (auto simp: reads_back_def)
next
  case False
  have lt: "r < 16 ^ 8" using assms(2) by (auto simp: validRune_def)
  have "escapedRune table r = (if r < 0x10000 then CHR 0x5C # CHR ''u'' # hexDigits 4 r else CHR 0x5C # CHR ''U'' # hexDigits 8 r)"
    using assms(1,2) False by (simp add: escapedRune_def)
  moreover have "unquoteChar (CHR 0x5C # CHR ''u'' # hexDigits 4 r @ t) = Some (r, True, t)" if "r < 0x10000"
    using that assms(2) readDigits_hex [of r 4 t] by (simp add: unquoteEscape_def)
  moreover have "unquoteChar (CHR 0x5C # CHR ''U'' # hexDigits 8 r @ t) = Some (r, True, t)"
    using lt assms(2) readDigits_hex [of r 8 t] by (simp add: unquoteEscape_def)
  ultimately show ?thesis using assms(1) by (auto simp: reads_back_def)
qed

lemma quoteStep_reads_back:
  assumes "quoteStep table s = (out, w)" "s \<noteq> []"
  shows "reads_back out (take w s) t"
proof -
  obtain a u where s: "s = a # u" using assms(2) by (cases s) auto
  have hex: "reads_back (CHR 0x5C # CHR ''x'' # hexDigits 2 (byte a)) [a] t"
    using readDigits_hex [of "byte a" 2 t] byte_lt [of a] by (auto simp: reads_back_def unquoteEscape_def)
  show ?thesis
  proof (cases "0x80 \<le> byte a")
    case False
    then show ?thesis using assms s hex escaped_ascii [of "byte a" table t]
      by (auto simp: Let_def split: if_splits)
  next
    case True
    obtain r n where d: "decodeRune (a # u) = (r, n)" by fastforce
    show ?thesis
    proof (cases "n = 1 \<and> r = runeError")
      case True
      with assms s hex d \<open>0x80 \<le> byte a\<close> show ?thesis by (auto simp del: decodeRune.simps)
    next
      case False
      from encode_decode [OF d True False, of t] obtain v s' where e: "a # u = encodeRune r @ v" "n = length (encodeRune r)"
        "validRune r" "0x80 \<le> r" "decodeRune (encodeRune r @ t) = (r, length (encodeRune r))" "encodeRune r = a # s'" by blast
      have "take n (a # u) = encodeRune r" using e(1,2) by simp
      moreover have "out = escapedRune table r" "w = n"
        using assms(1) s d True False by (auto simp del: decodeRune.simps)
      ultimately show ?thesis using escaped_wide [OF e(4,3,5,6) True] s by simp
    qed
  qed
qed

lemma unquoteLoop_quoteLoop: "unquoteLoop buf (quoteLoop table s @ CHR 0x22 # rest) = Some (buf @ s, rest)"
proof (induction table s arbitrary: buf rule: quoteLoop.induct)
  case (1 table s)
  show ?case
  proof (cases "s = []")
    case True
    then show ?thesis by (simp add: quoteLoop.simps unquoteLoop.simps [of buf])
  next
    case False
    obtain out w where q: "quoteStep table s = (out, w)" by fastforce
    let ?t = "quoteLoop table (drop w s) @ CHR 0x22 # rest"
    from quoteStep_reads_back [OF q False, of ?t] obtain r m where
      o: "out \<noteq> []" "hd out \<noteq> CHR 0x22" "hd out \<noteq> CHR 0x0A" "unquoteChar (out @ ?t) = Some (r, m, ?t)"
        "(if r < 0x80 \<or> \<not> m then [char_of r] else encodeRune r) = take w s"
      by (auto simp: reads_back_def)
    have "unquoteLoop buf (out @ ?t) = unquoteLoop (buf @ take w s) ?t"
      using o by (subst unquoteLoop.simps) simp
    also have "\<dots> = Some ((buf @ take w s) @ drop w s, rest)" using 1 False q by simp
    finally show ?thesis using False q by (simp add: quoteLoop.simps [of table s])
  qed
qed

lemma unquote_quote: "unquote (quote table s) = Some s"
  using unquoteLoop_quoteLoop [of "[]" table s "[]"] by (simp add: unquote_def quote_def)

end
