(* ===== verification/Proxy.thy ===== *)
theory Proxy
  imports Health Limiter Request_State
begin

text \<open>
  The gateway proxy, \<open>internal/proxy/proxy.go\<close> with \<open>timeout.go\<close> and \<open>stream_metrics.go\<close>: the loop that
  tries the candidate providers of a request in order, each up to its attempt budget, and classifies
  what every attempt returned.

  The world of a request is a value of an arbitrary type \<open>'net\<close>, read and advanced by the fields of a
  record \<open>proxy_env\<close>: the HTTP client, the clock, the error of the client's context, the outcome of
  waiting for the backoff timer. The provider adapters (the interface \<open>adapter.Provider\<close>) are a field
  too. Prometheus observations are recorded as a list of events; log lines are not modelled, nor is the counter of
  active requests, which a request increments on entry and decrements on every way out.
\<close>

section \<open>Upstream requests\<close>

record requestTemplate =
  tp_method :: bytes
  tp_requestURL :: url
  tp_header :: header
  tp_requestID :: bytes
  tp_traceParent :: bytes
  tp_traceState :: bytes
  tp_upstreamBody :: bytes

record compiledUpstreamRequest =
  cr_url :: url
  cr_host :: bytes
  cr_header :: header
  cr_body :: bytes

record upstream_request =
  ur_Method :: bytes
  ur_URL :: url
  ur_Header :: header
  ur_Body :: bytes
  ur_Host :: bytes
  ur_ContentLength :: int
  ur_Timeout :: int

text \<open>What translating a response does to the response writer, in order. \<open>MergeHeader\<close> is a loop
  \<open>for key, values := range h { w.Header()[key] = values }\<close>, whose order does not matter because the keys of
  a Go map are distinct.\<close>

datatype write_action = MergeHeader header | SetHeader bytes bytes | DelHeader bytes | SendHeader int | SendBytes bytes

text \<open>The interface \<open>adapter.Provider\<close>, as far as the proxy uses it. \<open>ad_CompileRequest\<close> maps the target URL,
  the path, the header, the body and the API key to the new path, body and header.\<close>

record 'net adapter =
  ad_CompileRequest :: "url \<Rightarrow> bytes \<Rightarrow> header \<Rightarrow> bytes \<Rightarrow> bytes \<Rightarrow> (go_error, bytes \<times> bytes \<times> header) result"
  ad_TranslateResponse :: "http_response \<Rightarrow> bytes \<Rightarrow> 'net \<Rightarrow> (write_action list \<times> go_error option) \<times> 'net"

record 'net proxy_env =
  px_runtime :: runtime
  px_config :: Config
  px_unicode_lower :: "bytes \<Rightarrow> bytes"
  px_GetProvider :: "bytes \<Rightarrow> 'net adapter"
  px_Do :: "upstream_request \<Rightarrow> 'net \<Rightarrow> (http_response option \<times> go_error option) \<times> 'net"
  px_ctxErr :: "'net \<Rightarrow> sentinel option"
  px_Now :: "'net \<Rightarrow> int"
  px_TimerFirst :: "int \<Rightarrow> 'net \<Rightarrow> bool \<times> 'net"

definition newRequestTemplate :: "http_request \<Rightarrow> bytes \<Rightarrow> requestTemplate" where
  "newRequestTemplate orig upstreamBody =
     (let template = \<lparr>tp_method = req_Method orig, tp_requestURL = req_URL orig, tp_header = req_Header orig,
                      tp_requestID = [], tp_traceParent = [], tp_traceState = [], tp_upstreamBody = upstreamBody\<rparr>
      in case GetRequestMeta orig of
           None \<Rightarrow> template
         | Some meta \<Rightarrow> template\<lparr>tp_requestID := rm_RequestID meta, tp_traceParent := rm_TraceParent meta,
                                 tp_traceState := rm_TraceState meta\<rparr>)"

text \<open>\<open>cloneHeader\<close> copies the map; in HOL the value itself.\<close>

definition templateHeader :: "requestTemplate \<Rightarrow> header" where
  "templateHeader p =
     (let header = tp_header p;
          header = (if tp_requestID p \<noteq> [] then headerSet header ''X-Request-ID'' (tp_requestID p) else header);
          header = (if tp_traceParent p \<noteq> [] then headerSet header ''Traceparent'' (tp_traceParent p) else header);
          header = (if tp_traceState p \<noteq> [] then headerSet header ''Tracestate'' (tp_traceState p) else header)
      in headerDel header ''Accept-Encoding'')"

definition urlParseError :: go_error where
  "urlParseError = \<lparr>ge_Error = ''parse'', ge_Is = [], ge_Timeout = False\<rparr>"

definition compile ::
  "runtime \<Rightarrow> requestTemplate \<Rightarrow> ProviderRoute \<Rightarrow> 'net adapter \<Rightarrow> 'cb upstream_state
     \<Rightarrow> (go_error, compiledUpstreamRequest) result \<times> 'cb upstream_state" where
  "compile rt p provider adapterProvider s =
     (case parseAndCacheBaseURL rt (pr_BaseURL provider) s of
        (None, s') \<Rightarrow> (Inl urlParseError, s')
      | (Some targetURL, s') \<Rightarrow>
          (case ad_CompileRequest adapterProvider targetURL (url_Path (tp_requestURL p)) (templateHeader p)
                  (tp_upstreamBody p) (pr_APIKey provider) of
             Inl e \<Rightarrow> (Inl e, s')
           | Inr (path, body, header) \<Rightarrow>
               (Inr \<lparr>cr_url = (tp_requestURL p)\<lparr>url_Scheme := url_Scheme targetURL, url_Host := url_Host targetURL,
                                                url_Path := path, url_RawPath := path\<rparr>,
                     cr_host = url_Host targetURL, cr_header = header, cr_body = body\<rparr>, s')))"

definition newRequest :: "requestTemplate \<Rightarrow> int \<Rightarrow> compiledUpstreamRequest \<Rightarrow> upstream_request" where
  "newRequest p timeout compiled =
     \<lparr>ur_Method = tp_method p, ur_URL = cr_url compiled, ur_Header = cr_header compiled, ur_Body = cr_body compiled,
      ur_Host = cr_host compiled, ur_ContentLength = int (length (cr_body compiled)), ur_Timeout = timeout\<rparr>"

section \<open>Timeouts and budgets\<close>

definition parseDuration :: "runtime \<Rightarrow> bytes \<Rightarrow> int" where
  "parseDuration rt s =
     (if s = [] then 0
      else (case rt_Duration rt s of None \<Rightarrow> 0 | Some d \<Rightarrow> if d \<le> 0 then 0 else d))"

definition providerTimeout :: "runtime \<Rightarrow> UpstreamConfig \<Rightarrow> ProviderRoute \<Rightarrow> bool \<Rightarrow> int" where
  "providerTimeout rt upstreamCfg provider isStream =
     (if isStream then
        (if parseDuration rt (pr_TimeoutStream provider) > 0 then parseDuration rt (pr_TimeoutStream provider)
         else if parseDuration rt (uc_DefaultTimeoutStream upstreamCfg) > 0
              then parseDuration rt (uc_DefaultTimeoutStream upstreamCfg)
         else 300000000000)
      else
        (if parseDuration rt (pr_TimeoutNonStream provider) > 0 then parseDuration rt (pr_TimeoutNonStream provider)
         else if parseDuration rt (uc_DefaultTimeoutNonStream upstreamCfg) > 0
              then parseDuration rt (uc_DefaultTimeoutNonStream upstreamCfg)
         else 120000000000))"

definition effectiveRetryCount :: "Config \<Rightarrow> ProviderRoute \<Rightarrow> int" where
  "effectiveRetryCount cfg provider =
     (if pr_MaxRetries provider > 0 then pr_MaxRetries provider else uc_DefaultMaxRetries (cfg_Upstream cfg))"

definition retryBackoff :: "runtime \<Rightarrow> Config \<Rightarrow> int" where
  "retryBackoff rt cfg = durationOr rt (uc_RetryBackoff (cfg_Upstream cfg)) 200000000"

section \<open>Classification\<close>

definition statusClientClosedRequest :: int where "statusClientClosedRequest = 499"
definition failureReasonClientCancel :: bytes where "failureReasonClientCancel = ''client_canceled''"
definition failureReasonTimeout :: bytes where "failureReasonTimeout = ''upstream_timeout''"
definition failureReasonUnavailable :: bytes where "failureReasonUnavailable = ''upstream_unavailable''"

lemmas proxy_constants = statusClientClosedRequest_def failureReasonClientCancel_def failureReasonTimeout_def
  failureReasonUnavailable_def

text \<open>The messages that \<open>isClientCanceledRequest\<close> and \<open>isClientCanceledStream\<close> look for.\<close>

definition disconnectMessage :: "(bytes \<Rightarrow> bytes) \<Rightarrow> go_error \<Rightarrow> bool" where
  "disconnectMessage ul err =
     (let msg = toLower ul (ge_Error err) in
      contains msg ''broken pipe'' \<or> contains msg ''connection reset by peer'' \<or>
      contains msg ''use of closed network connection'' \<or> contains msg ''client disconnected'')"

definition isClientCanceledRequest :: "(bytes \<Rightarrow> bytes) \<Rightarrow> sentinel option \<Rightarrow> go_error option \<Rightarrow> bool" where
  "isClientCanceledRequest ul ctx err =
     (case err of
        None \<Rightarrow> False
      | Some e \<Rightarrow>
          ctx = Some Canceled \<or>
          Canceled \<in> set (ge_Is e) \<or> ErrClosed \<in> set (ge_Is e) \<or>
          EPIPE \<in> set (ge_Is e) \<or> ECONNRESET \<in> set (ge_Is e) \<or>
          disconnectMessage ul e)"

definition isClientCanceledStream :: "(bytes \<Rightarrow> bytes) \<Rightarrow> sentinel option \<Rightarrow> go_error option \<Rightarrow> bool" where
  "isClientCanceledStream ul ctx err =
     (case err of
        None \<Rightarrow> False
      | Some e \<Rightarrow>
          ctx = Some Canceled \<or> ctx = Some DeadlineExceeded \<or>
          Canceled \<in> set (ge_Is e) \<or> ErrClosed \<in> set (ge_Is e) \<or>
          EPIPE \<in> set (ge_Is e) \<or> ECONNRESET \<in> set (ge_Is e) \<or>
          disconnectMessage ul e)"

definition isUpstreamTimeoutError :: "(bytes \<Rightarrow> bytes) \<Rightarrow> sentinel option \<Rightarrow> go_error option \<Rightarrow> bool" where
  "isUpstreamTimeoutError ul ctx err =
     (case err of
        None \<Rightarrow> False
      | Some e \<Rightarrow>
          if isClientCanceledRequest ul ctx err then False
          else DeadlineExceeded \<in> set (ge_Is e) \<or> ge_Timeout e \<or>
               contains (toLower ul (ge_Error e)) ''timeout'')"

definition upstreamFailureReason ::
  "(bytes \<Rightarrow> bytes) \<Rightarrow> sentinel option \<Rightarrow> http_response option \<Rightarrow> go_error option \<Rightarrow> bytes" where
  "upstreamFailureReason ul ctx resp err =
     (if isClientCanceledRequest ul ctx err then failureReasonClientCancel
      else if isUpstreamTimeoutError ul ctx err then failureReasonTimeout
      else if err \<noteq> None then ''network_error''
      else (case resp of None \<Rightarrow> ''no_response'' | Some r \<Rightarrow> ''status_'' @ itoa (resp_StatusCode r)))"

definition shouldFailoverStatusCode :: "int \<Rightarrow> bool" where
  "shouldFailoverStatusCode statusCode \<longleftrightarrow> statusCode \<in> {401, 403, 404, 429}"

definition isRetryableStatusCode :: "Config \<Rightarrow> int \<Rightarrow> bool" where
  "isRetryableStatusCode cfg statusCode \<longleftrightarrow> statusCode \<in> set (uc_RetryableStatusCodes (cfg_Upstream cfg))"

datatype upstreamAttemptAction =
    upstreamAttemptReturn
  | upstreamAttemptRetrySameProvider
  | upstreamAttemptFailoverNextProvider
  | upstreamAttemptTerminateRequest

definition classifyUpstreamAttempt ::
  "(bytes \<Rightarrow> bytes) \<Rightarrow> Config \<Rightarrow> sentinel option \<Rightarrow> http_response option \<Rightarrow> go_error option \<Rightarrow> upstreamAttemptAction \<times> bytes" where
  "classifyUpstreamAttempt ul cfg ctx resp err =
     (let reason = upstreamFailureReason ul ctx resp err in
      if isClientCanceledRequest ul ctx err then (upstreamAttemptTerminateRequest, reason)
      else if err \<noteq> None then (upstreamAttemptRetrySameProvider, reason)
      else (case resp of
              None \<Rightarrow> (upstreamAttemptRetrySameProvider, reason)
            | Some r \<Rightarrow>
                if shouldFailoverStatusCode (resp_StatusCode r) then (upstreamAttemptFailoverNextProvider, reason)
                else if isRetryableStatusCode cfg (resp_StatusCode r) then (upstreamAttemptRetrySameProvider, reason)
                else (upstreamAttemptReturn, reason)))"

definition upstreamStatusLabel :: "http_response option \<Rightarrow> go_error option \<Rightarrow> bytes" where
  "upstreamStatusLabel resp err =
     (if err \<noteq> None then ''network_error''
      else (case resp of None \<Rightarrow> ''no_response'' | Some r \<Rightarrow> itoa (resp_StatusCode r)))"

definition isStreamingResponse :: "http_response \<Rightarrow> bool" where
  "isStreamingResponse resp = contains (headerGet (resp_Header resp) ''Content-Type'') ''text/event-stream''"

definition classifyStreamOutcome :: "(bytes \<Rightarrow> bytes) \<Rightarrow> sentinel option \<Rightarrow> go_error option \<Rightarrow> bool \<Rightarrow> bytes" where
  "classifyStreamOutcome ul ctx streamErr firstChunkSeen =
     (if streamErr = None then (if firstChunkSeen then ''completed'' else ''empty'')
      else if isClientCanceledStream ul ctx streamErr then ''client_canceled''
      else ''upstream_error'')"

record terminalProxyFailure =
  tf_Status :: int
  tf_Code :: bytes
  tf_Message :: bytes
  tf_Reason :: bytes
  tf_SuppressResponse :: bool

definition classifyTerminalProxyFailure ::
  "(bytes \<Rightarrow> bytes) \<Rightarrow> sentinel option \<Rightarrow> go_error option \<Rightarrow> bytes \<Rightarrow> terminalProxyFailure" where
  "classifyTerminalProxyFailure ul ctx err lastRetryReason =
     (if isClientCanceledRequest ul ctx err \<or> lastRetryReason = failureReasonClientCancel then
        \<lparr>tf_Status = statusClientClosedRequest, tf_Code = failureReasonClientCancel, tf_Message = [],
         tf_Reason = failureReasonClientCancel, tf_SuppressResponse = True\<rparr>
      else if lastRetryReason = failureReasonTimeout \<or> isUpstreamTimeoutError ul ctx err then
        \<lparr>tf_Status = 504, tf_Code = ''upstream_request_timeout'',
         tf_Message = ''All configured upstream providers timed out.'', tf_Reason = failureReasonTimeout,
         tf_SuppressResponse = False\<rparr>
      else
        (let reason = trimSpace lastRetryReason in
         \<lparr>tf_Status = 503, tf_Code = ''all_upstreams_unavailable'',
          tf_Message = ''All configured upstream providers are temporarily unavailable.'',
          tf_Reason = (if reason = [] \<or> reason = ''unknown'' then failureReasonUnavailable else reason),
          tf_SuppressResponse = False\<rparr>))"

definition nextProviderName :: "ProviderRoute list \<Rightarrow> int \<Rightarrow> bytes" where
  "nextProviderName providers nextIndex =
     (if nextIndex < 0 \<or> nextIndex \<ge> int (length providers) then ''none''
      else pr_Name (providers ! nat nextIndex))"

definition retryAttemptResult :: "int \<Rightarrow> int \<Rightarrow> bytes" where
  "retryAttemptResult attempt attemptBudget = (if attempt < attemptBudget then ''retry'' else ''retry_exhausted'')"

definition recordUpstreamAttempt ::
  "GatewayContext \<Rightarrow> bytes \<Rightarrow> int \<Rightarrow> int \<Rightarrow> int \<Rightarrow> http_response option \<Rightarrow> bytes \<Rightarrow> int \<Rightarrow> bytes \<Rightarrow> GatewayContext" where
  "recordUpstreamAttempt g provider providerIndex attemptBudget attempt resp reason duration result =
     RecordUpstreamAttempt g
       \<lparr>at_Provider = provider, at_ProviderIndex = providerIndex, at_Attempt = attempt, at_AttemptBudget = attemptBudget,
        at_StatusCode = (case resp of None \<Rightarrow> 0 | Some r \<Rightarrow> resp_StatusCode r), at_Result = result, at_Reason = reason,
        at_DurationMs = (if 0 \<le> duration then duration div 1000000 else - ((- duration) div 1000000))\<rparr>"

section \<open>Writing the response\<close>

fun runAction :: "write_action \<Rightarrow> ResponseWriter \<Rightarrow> ResponseWriter" where
  "runAction (MergeHeader h) w = w\<lparr>w_header := w_header w ++ h\<rparr>"
| "runAction (SetHeader k v) w = setHeader w k v"
| "runAction (DelHeader k) w = w\<lparr>w_header := headerDel (w_header w) k\<rparr>"
| "runAction (SendHeader status) w = writeHeader w status"
| "runAction (SendBytes p) w = writeChunk w (Raw p)"

definition runActions :: "write_action list \<Rightarrow> ResponseWriter \<Rightarrow> ResponseWriter" where
  "runActions acts w = fold runAction acts w"

text \<open>The counters of \<open>ttftWriter\<close>; the writes themselves go to the wrapped writer. The durations that it
  measures only reach histograms and are left out.\<close>

record ttftWriter =
  tw_firstChunkSeen :: bool
  tw_bytesWritten :: int
  tw_chunkCount :: int

definition newTTFTWriter :: ttftWriter where
  "newTTFTWriter = \<lparr>tw_firstChunkSeen = False, tw_bytesWritten = 0, tw_chunkCount = 0\<rparr>"

definition ttftWrite :: "bytes \<Rightarrow> ttftWriter \<Rightarrow> ttftWriter" where
  "ttftWrite p tw =
     (let tw = tw\<lparr>tw_firstChunkSeen := True\<rparr>; n = int (length p) in
      if n > 0 then tw\<lparr>tw_bytesWritten := tw_bytesWritten tw + n, tw_chunkCount := tw_chunkCount tw + 1\<rparr> else tw)"

definition ttftActions :: "write_action list \<Rightarrow> ttftWriter \<Rightarrow> ttftWriter" where
  "ttftActions acts tw = fold (\<lambda>a tw. case a of SendBytes p \<Rightarrow> ttftWrite p tw | _ \<Rightarrow> tw) acts tw"

section \<open>The request loop\<close>

datatype metric_event =
    UpstreamRequest bytes bytes bytes bytes bool
  | UpstreamRetry bytes bytes bytes
  | UpstreamFailover bytes bytes bytes bytes
  | StreamEnd bytes bytes bytes bool

record ('net, 'cb) proxy_state =
  ps_net :: 'net
  ps_up :: "'cb upstream_state"
  ps_ctx :: GatewayContext
  ps_w :: ResponseWriter
  ps_finalErr :: "go_error option"
  ps_totalRetries :: int
  ps_lastRetryReason :: bytes
  ps_events :: "metric_event list"

definition observeUpstreamAttempt ::
  "bytes \<Rightarrow> bytes \<Rightarrow> http_response option \<Rightarrow> go_error option \<Rightarrow> int \<Rightarrow> bytes \<Rightarrow> ('net, 'cb) proxy_state \<Rightarrow> ('net, 'cb) proxy_state" where
  "observeUpstreamAttempt provider modelName resp err duration result st =
     st\<lparr>ps_events := ps_events st @ [UpstreamRequest provider modelName (upstreamStatusLabel resp err) result (duration > 0)]\<rparr>"

definition waitRetryBackoff :: "'net proxy_env \<Rightarrow> int \<Rightarrow> 'net \<Rightarrow> bool \<times> 'net" where
  "waitRetryBackoff env backoff net = (if backoff \<le> 0 then (True, net) else px_TimerFirst env backoff net)"

definition finishStreamingRequest ::
  "'net proxy_env \<Rightarrow> bytes \<Rightarrow> ttftWriter \<Rightarrow> go_error option \<Rightarrow> ('net, 'cb) proxy_state \<Rightarrow> ('net, 'cb) proxy_state" where
  "finishStreamingRequest env provider tw streamErr st =
     (let outcome = classifyStreamOutcome (px_unicode_lower env) (px_ctxErr env (ps_net st)) streamErr (tw_firstChunkSeen tw)
      in st\<lparr>ps_ctx := (ps_ctx st)\<lparr>gc_StreamOutcome := outcome, gc_StreamChunks := tw_chunkCount tw,
                                  gc_StreamBytes := tw_bytesWritten tw\<rparr>,
            ps_events := ps_events st @ [StreamEnd provider (gc_TargetModel (ps_ctx st)) outcome (tw_firstChunkSeen tw)]\<rparr>)"

definition clientCanceledError :: "GatewayContext \<Rightarrow> GatewayContext" where
  "clientCanceledError g =
     SetTerminalError g statusClientClosedRequest ErrorTypeServer failureReasonClientCancel failureReasonClientCancel"

text \<open>The case \<open>upstreamAttemptReturn\<close>: hand the response to the client.\<close>

definition returnResponse ::
  "'net proxy_env \<Rightarrow> ProviderRoute \<Rightarrow> 'net adapter \<Rightarrow> http_response \<Rightarrow> ('net, 'cb) proxy_state \<Rightarrow> ('net, 'cb) proxy_state" where
  "returnResponse env provider adapterProvider resp st =
     (let w = setHeader (ps_w st) ''X-Gateway-Upstream-Provider'' (pr_Name provider);
          w = setHeader w ''X-Gateway-Upstream-Retries'' (itoa (ps_totalRetries st));
          w = setHeader w ''X-Gateway-Failovers'' (itoa (gc_FailoverCount (ps_ctx st)));
          st = observeUpstreamAttempt (pr_Name provider) (gc_TargetModel (ps_ctx st)) (Some resp) None 0 ''final_success'' st;
          ((acts, writeErr), net) = ad_TranslateResponse adapterProvider resp (gc_TargetModel (ps_ctx st)) (ps_net st);
          st = st\<lparr>ps_w := runActions acts w, ps_net := net\<rparr>;
          st = (if isStreamingResponse resp
                then finishStreamingRequest env (pr_Name provider) (ttftActions acts newTTFTWriter) writeErr st
                else st)
      in if writeErr \<noteq> None then
           (let st = st\<lparr>ps_finalErr := writeErr\<rparr> in
            if isClientCanceledRequest (px_unicode_lower env) (px_ctxErr env (ps_net st)) writeErr
            then st\<lparr>ps_ctx := clientCanceledError (ps_ctx st)\<rparr> else st)
         else st)"

text \<open>One attempt: send, mark the passive health result, observe, classify. The result is the classified
  attempt and the state after it.\<close>

record attempt_result =
  ar_resp :: "http_response option"
  ar_err :: "go_error option"
  ar_action :: upstreamAttemptAction
  ar_reason :: bytes
  ar_duration :: int

definition sendAttempt ::
  "'net proxy_env \<Rightarrow> requestTemplate \<Rightarrow> bool \<Rightarrow> ProviderRoute \<Rightarrow> compiledUpstreamRequest \<Rightarrow> ('net, 'cb) proxy_state
     \<Rightarrow> attempt_result \<times> ('net, 'cb) proxy_state" where
  "sendAttempt env tp isStream provider compiled st =
     (let attemptStart = px_Now env (ps_net st);
          timeout = providerTimeout (px_runtime env) (cfg_Upstream (px_config env)) provider isStream;
          ((resp, err), net) = px_Do env (newRequest tp timeout compiled) (ps_net st);
          st = st\<lparr>ps_net := net,
                  ps_up := markPassiveProbeResult (px_Now env net) (pr_Name provider) (pr_BaseURL provider)
                             (map_option resp_StatusCode resp) err (ps_up st)\<rparr>;
          duration = px_Now env net - attemptStart;
          st = observeUpstreamAttempt (pr_Name provider) (gc_TargetModel (ps_ctx st)) resp err duration ''attempt'' st;
          (action, reason) = classifyUpstreamAttempt (px_unicode_lower env) (px_config env) (px_ctxErr env net) resp err
      in (\<lparr>ar_resp = resp, ar_err = err, ar_action = action, ar_reason = reason, ar_duration = duration\<rparr>, st))"

text \<open>The branches of the \<open>switch\<close> over the decision.\<close>

definition noteAttempt ::
  "ProviderRoute \<Rightarrow> int \<Rightarrow> int \<Rightarrow> int \<Rightarrow> attempt_result \<Rightarrow> bytes \<Rightarrow> bytes \<Rightarrow> ('net, 'cb) proxy_state \<Rightarrow> ('net, 'cb) proxy_state" where
  "noteAttempt provider providerIndex budget attempt res reason result st =
     st\<lparr>ps_ctx := recordUpstreamAttempt (ps_ctx st) (pr_Name provider) providerIndex budget attempt (ar_resp res) reason
                    (ar_duration res) result\<rparr>"

definition afterRetry ::
  "ProviderRoute \<Rightarrow> int \<Rightarrow> int \<Rightarrow> int \<Rightarrow> attempt_result \<Rightarrow> ('net, 'cb) proxy_state \<Rightarrow> ('net, 'cb) proxy_state" where
  "afterRetry provider providerIndex budget attempt res st =
     (let st = st\<lparr>ps_finalErr := ar_err res, ps_lastRetryReason := ar_reason res\<rparr>;
          st = noteAttempt provider providerIndex budget attempt res (ar_reason res) (retryAttemptResult attempt budget) st
      in st\<lparr>ps_events := ps_events st @ [UpstreamRetry (pr_Name provider) (gc_TargetModel (ps_ctx st)) (ps_lastRetryReason st)],
            ps_totalRetries := ps_totalRetries st + 1\<rparr>)"

definition afterCanceledWait :: "'net proxy_env \<Rightarrow> ('net, 'cb) proxy_state \<Rightarrow> ('net, 'cb) proxy_state" where
  "afterCanceledWait env st =
     st\<lparr>ps_finalErr := map_option (\<lambda>c. \<lparr>ge_Error = ''context'', ge_Is = [c], ge_Timeout = False\<rparr>) (px_ctxErr env (ps_net st)),
        ps_lastRetryReason := failureReasonClientCancel, ps_ctx := clientCanceledError (ps_ctx st)\<rparr>"

definition afterFailover ::
  "ProviderRoute \<Rightarrow> int \<Rightarrow> int \<Rightarrow> int \<Rightarrow> attempt_result \<Rightarrow> ('net, 'cb) proxy_state \<Rightarrow> ('net, 'cb) proxy_state" where
  "afterFailover provider providerIndex budget attempt res st =
     noteAttempt provider providerIndex budget attempt res (ar_reason res) ''failover''
       (st\<lparr>ps_lastRetryReason := ar_reason res\<rparr>)"

definition afterTerminate ::
  "ProviderRoute \<Rightarrow> int \<Rightarrow> int \<Rightarrow> int \<Rightarrow> attempt_result \<Rightarrow> ('net, 'cb) proxy_state \<Rightarrow> ('net, 'cb) proxy_state" where
  "afterTerminate provider providerIndex budget attempt res st =
     (let st = noteAttempt provider providerIndex budget attempt res (ar_reason res) ''error'' st
      in st\<lparr>ps_finalErr := ar_err res, ps_lastRetryReason := ar_reason res, ps_ctx := clientCanceledError (ps_ctx st)\<rparr>)"

definition afterReturn ::
  "'net proxy_env \<Rightarrow> ProviderRoute \<Rightarrow> int \<Rightarrow> 'net adapter \<Rightarrow> int \<Rightarrow> int \<Rightarrow> attempt_result \<Rightarrow> http_response
     \<Rightarrow> ('net, 'cb) proxy_state \<Rightarrow> ('net, 'cb) proxy_state" where
  "afterReturn env provider providerIndex adapterProvider budget attempt res resp st =
     returnResponse env provider adapterProvider resp
       (noteAttempt provider providerIndex budget attempt res (upstreamStatusLabel (Some resp) None) ''returned_response'' st)"

text \<open>The attempts on one provider. The last argument counts the attempts that remain; the flag of the
  result tells whether the handler has returned. (A decision to return always has a response.)\<close>

fun attemptLoop ::
  "'net proxy_env \<Rightarrow> requestTemplate \<Rightarrow> bool \<Rightarrow> int \<Rightarrow> ProviderRoute \<Rightarrow> int \<Rightarrow> 'net adapter \<Rightarrow> compiledUpstreamRequest \<Rightarrow> int
     \<Rightarrow> nat \<Rightarrow> ('net, 'cb) proxy_state \<Rightarrow> bool \<times> ('net, 'cb) proxy_state" where
  "attemptLoop env tp isStream backoff provider providerIndex adapterProvider compiled budget 0 st = (False, st)"
| "attemptLoop env tp isStream backoff provider providerIndex adapterProvider compiled budget (Suc remaining) st =
     (let attempt = budget - int remaining;
          (res, st) = sendAttempt env tp isStream provider compiled st
      in case ar_action res of
           upstreamAttemptRetrySameProvider \<Rightarrow>
             (let st = afterRetry provider providerIndex budget attempt res st in
              if attempt < budget then
                (case waitRetryBackoff env backoff (ps_net st) of
                   (False, net) \<Rightarrow> (True, afterCanceledWait env (st\<lparr>ps_net := net\<rparr>))
                 | (True, net) \<Rightarrow>
                     attemptLoop env tp isStream backoff provider providerIndex adapterProvider compiled budget remaining
                       (st\<lparr>ps_net := net\<rparr>))
              else (False, st))
         | upstreamAttemptFailoverNextProvider \<Rightarrow> (False, afterFailover provider providerIndex budget attempt res st)
         | upstreamAttemptTerminateRequest \<Rightarrow> (True, afterTerminate provider providerIndex budget attempt res st)
         | upstreamAttemptReturn \<Rightarrow>
             (case ar_resp res of
                Some resp \<Rightarrow> (True, afterReturn env provider providerIndex adapterProvider budget attempt res resp st)
              | None \<Rightarrow> (True, st)))"

definition noteFailover :: "ProviderRoute list \<Rightarrow> nat \<Rightarrow> ProviderRoute \<Rightarrow> ('net, 'cb) proxy_state \<Rightarrow> ('net, 'cb) proxy_state" where
  "noteFailover candidates providerIndex provider st =
     (if providerIndex + 1 < length candidates then
        (let g = (ps_ctx st)\<lparr>gc_FailoverCount := gc_FailoverCount (ps_ctx st) + 1\<rparr>;
             nextProvider = nextProviderName candidates (int providerIndex + 1);
             g = RecordFailover g
               \<lparr>ft_FromProvider = pr_Name provider, ft_ToProvider = nextProvider, ft_ProviderIndex = int providerIndex,
                ft_FailoverCount = gc_FailoverCount g, ft_Reason = ps_lastRetryReason st\<rparr>
         in st\<lparr>ps_ctx := g,
               ps_events := ps_events st @
                 [UpstreamFailover (pr_Name provider) nextProvider (gc_TargetModel g) (ps_lastRetryReason st)]\<rparr>)
      else st)"

fun providerLoop ::
  "'net proxy_env \<Rightarrow> requestTemplate \<Rightarrow> bool \<Rightarrow> int \<Rightarrow> ProviderRoute list \<Rightarrow> nat \<Rightarrow> ProviderRoute list
     \<Rightarrow> ('net, 'cb) proxy_state \<Rightarrow> bool \<times> ('net, 'cb) proxy_state" where
  "providerLoop env tp isStream backoff candidates providerIndex [] st = (False, st)"
| "providerLoop env tp isStream backoff candidates providerIndex (provider # rest) st =
     (let st = st\<lparr>ps_ctx := SetActiveProvider (ps_ctx st) provider\<rparr>;
          adapterProvider = px_GetProvider env (pr_Name provider);
          (compiled, up) = compile (px_runtime env) tp provider adapterProvider (ps_up st);
          st = st\<lparr>ps_up := up\<rparr>
      in case compiled of
           Inl _ \<Rightarrow>
             (True, st\<lparr>ps_ctx := SetTerminalError (ps_ctx st) 500 ErrorTypeServer ''upstream_request_build_failed''
                                   ''upstream_request_build_failed'',
                       ps_w := WriteInternalServerError (ps_w st) ''Failed to build upstream request.''
                                 ''upstream_request_build_failed''\<rparr>)
         | Inr compiledReq \<Rightarrow>
             (let attemptBudget = effectiveRetryCount (px_config env) provider + 1 in
              case attemptLoop env tp isStream backoff provider (int providerIndex) adapterProvider compiledReq attemptBudget
                     (nat attemptBudget) st of
                (True, st) \<Rightarrow> (True, st)
              | (False, st) \<Rightarrow>
                  providerLoop env tp isStream backoff candidates (providerIndex + 1) rest
                    (noteFailover candidates providerIndex provider st)))"

definition finishFailure :: "'net proxy_env \<Rightarrow> ('net, 'cb) proxy_state \<Rightarrow> ('net, 'cb) proxy_state" where
  "finishFailure env st =
     (let w = setHeader (ps_w st) ''X-Gateway-Upstream-Retries'' (itoa (ps_totalRetries st));
          w = setHeader w ''X-Gateway-Failovers'' (itoa (gc_FailoverCount (ps_ctx st)));
          failure = classifyTerminalProxyFailure (px_unicode_lower env) (px_ctxErr env (ps_net st)) (ps_finalErr st)
                      (ps_lastRetryReason st);
          st = st\<lparr>ps_ctx := SetTerminalError (ps_ctx st) (tf_Status failure) ErrorTypeServer (tf_Code failure) (tf_Reason failure),
                  ps_w := w\<rparr>
      in if tf_SuppressResponse failure then st
         else if tf_Status failure = 504 then st\<lparr>ps_w := WriteGatewayTimeout w (tf_Message failure) (tf_Code failure)\<rparr>
         else st\<lparr>ps_w := WriteServiceUnavailable w (tf_Message failure) (tf_Code failure)\<rparr>)"

text \<open>The handler. The gateway context is written back to the request, through which the pointer was
  obtained.\<close>

definition ServeHTTP ::
  "'net proxy_env \<Rightarrow> http_request \<Rightarrow> ResponseWriter \<Rightarrow> 'cb upstream_state \<Rightarrow> 'net
     \<Rightarrow> http_request \<times> ResponseWriter \<times> 'cb upstream_state \<times> 'net \<times> metric_event list" where
  "ServeHTTP env r w up net =
     (case GetGatewayContext r of
        None \<Rightarrow> (r, WriteInternalServerError w ''Gateway context missing.'' ''missing_gateway_context'', up, net, [])
      | Some g \<Rightarrow>
          (case GetRequestBodyContext r of
             None \<Rightarrow>
               (storeGatewayContext r (SetTerminalError g 500 ErrorTypeServer ''missing_body_context'' ''missing_body_context''),
                WriteInternalServerError w ''Request body context missing.'' ''missing_body_context'', up, net, [])
           | Some bodyCtx \<Rightarrow>
               if gc_CandidateProviders g = [] then
                 (storeGatewayContext r (SetTerminalError g 503 ErrorTypeServer ''no_route_candidates'' ''no_route_candidates''),
                  WriteServiceUnavailable w ''No available upstream providers were resolved for this request.'' ''no_route_candidates'',
                  up, net, [])
               else
                 (let tp = newRequestTemplate r (bc_UpstreamBody bodyCtx);
                      backoff = retryBackoff (px_runtime env) (px_config env);
                      st = \<lparr>ps_net = net, ps_up = up, ps_ctx = g, ps_w = w, ps_finalErr = None, ps_totalRetries = 0,
                            ps_lastRetryReason = ''unknown'', ps_events = []\<rparr>;
                      (done, st) = providerLoop env tp (bc_IsStream bodyCtx) backoff (gc_CandidateProviders g) 0
                                     (gc_CandidateProviders g) st;
                      st = (if done then st else finishFailure env st)
                  in (storeGatewayContext r (ps_ctx st), ps_w st, ps_up st, ps_net st, ps_events st))))"

section \<open>What one attempt leaves\<close>

lemma classify_return_resp:
  "classifyUpstreamAttempt ul cfg ctx resp err = (upstreamAttemptReturn, reason) \<Longrightarrow>
     \<exists>r. resp = Some r \<and> err = None \<and> \<not> shouldFailoverStatusCode (resp_StatusCode r) \<and> \<not> isRetryableStatusCode cfg (resp_StatusCode r)"
  by (auto simp: classifyUpstreamAttempt_def Let_def split: if_splits option.splits)

lemma sendAttempt_keeps:
  assumes "sendAttempt env tp isStream provider compiled st = (res, st')"
  shows "ps_ctx st' = ps_ctx st" "ps_w st' = ps_w st" "ps_finalErr st' = ps_finalErr st"
    "ps_totalRetries st' = ps_totalRetries st" "ps_lastRetryReason st' = ps_lastRetryReason st"
    "ar_action res = upstreamAttemptReturn \<Longrightarrow> \<exists>r. ar_resp res = Some r"
  using assms
  by (auto simp: sendAttempt_def Let_def observeUpstreamAttempt_def split: prod.splits dest!: classify_return_resp)

lemma recordUpstreamAttempt_simps [simp]:
  "gc_UpstreamAttempts (recordUpstreamAttempt g p i b k resp rs d result) = gc_UpstreamAttempts g @
     [\<lparr>at_Provider = p, at_ProviderIndex = i, at_Attempt = k, at_AttemptBudget = b,
       at_StatusCode = (case resp of None \<Rightarrow> 0 | Some r \<Rightarrow> resp_StatusCode r), at_Result = result, at_Reason = rs,
       at_DurationMs = (if 0 \<le> d then d div 1000000 else - ((- d) div 1000000))\<rparr>]"
  "gc_FailoverEvents (recordUpstreamAttempt g p i b k resp rs d result) = gc_FailoverEvents g"
  "gc_FailoverCount (recordUpstreamAttempt g p i b k resp rs d result) = gc_FailoverCount g"
  by (simp_all add: recordUpstreamAttempt_def)

lemma clientCanceledError_simps [simp]:
  "gc_UpstreamAttempts (clientCanceledError g) = gc_UpstreamAttempts g"
  "gc_FailoverEvents (clientCanceledError g) = gc_FailoverEvents g"
  "gc_FailoverCount (clientCanceledError g) = gc_FailoverCount g"
  "gc_FinalStatusCode (clientCanceledError g) = 499"
  by (simp_all add: clientCanceledError_def proxy_constants)

lemma finishStreamingRequest_simps [simp]:
  "gc_UpstreamAttempts (ps_ctx (finishStreamingRequest env p tw e st)) = gc_UpstreamAttempts (ps_ctx st)"
  "gc_FailoverEvents (ps_ctx (finishStreamingRequest env p tw e st)) = gc_FailoverEvents (ps_ctx st)"
  "gc_FailoverCount (ps_ctx (finishStreamingRequest env p tw e st)) = gc_FailoverCount (ps_ctx st)"
  "ps_w (finishStreamingRequest env p tw e st) = ps_w st" "ps_net (finishStreamingRequest env p tw e st) = ps_net st"
  by (simp_all add: finishStreamingRequest_def Let_def)

lemma observeUpstreamAttempt_simps [simp]:
  "ps_ctx (observeUpstreamAttempt p m resp err d r st) = ps_ctx st" "ps_w (observeUpstreamAttempt p m resp err d r st) = ps_w st"
  "ps_net (observeUpstreamAttempt p m resp err d r st) = ps_net st"
  by (simp_all add: observeUpstreamAttempt_def)

lemma returnResponse_simps [simp]:
  "gc_UpstreamAttempts (ps_ctx (returnResponse env p ad resp st)) = gc_UpstreamAttempts (ps_ctx st)"
  "gc_FailoverEvents (ps_ctx (returnResponse env p ad resp st)) = gc_FailoverEvents (ps_ctx st)"
  "gc_FailoverCount (ps_ctx (returnResponse env p ad resp st)) = gc_FailoverCount (ps_ctx st)"
  by (simp_all add: returnResponse_def Let_def split: prod.split)

end
