(* ===== verification/Adapter_OpenAI.thy ===== *)
theory Adapter_OpenAI
  imports Go_Quote Proxy
begin

text \<open>
  The OpenAI-compatible adapter: \<open>internal/adapter/openai_provider.go\<close> and \<open>siliconflow_provider.go\<close> (which only
  renames it). The body of a response is copied by \<open>io.Copy\<close>; which chunks arrive and which error ends the copy is
  decided by the two connections, a parameter \<open>copyBody\<close>. The promise of an adapter on which the
  proxy relies is the locale \<open>answering_adapter\<close>.
\<close>

section \<open>Definitions\<close>

definition joinURLPath :: "bytes \<Rightarrow> bytes \<Rightarrow> bytes" where
  "joinURLPath basePath reqPath =
     (if basePath = [] then (if reqPath = [] then ''/'' else reqPath)
      else if reqPath = [] then basePath
      else trimRight basePath {CHR ''/''} @ ''/'' @ trimLeft reqPath {CHR ''/''})"

definition openAICompileRequest ::
  "url \<Rightarrow> bytes \<Rightarrow> header \<Rightarrow> bytes \<Rightarrow> bytes \<Rightarrow> (go_error, bytes \<times> bytes \<times> header) result" where
  "openAICompileRequest targetURL origPath origHeader body apiKey =
     (let header = (if apiKey \<noteq> [] then headerSet origHeader ''Authorization'' (''Bearer '' @ apiKey) else origHeader)
      in Inr (joinURLPath (url_Path targetURL) origPath, body, header))"

definition probePayload :: "(nat \<Rightarrow> bool) \<Rightarrow> bytes \<Rightarrow> bytes" where
  "probePayload table modelName =
     CHR ''{'' # CHR 0x22 # ''model'' @ CHR 0x22 # '':'' @ quote table modelName @ '','' @
     CHR 0x22 # ''messages'' @ CHR 0x22 # '':[{'' @ CHR 0x22 # ''role'' @ CHR 0x22 # '':'' @ CHR 0x22 # ''user'' @ CHR 0x22 # '','' @
     CHR 0x22 # ''content'' @ CHR 0x22 # '':'' @ CHR 0x22 # ''ping'' @ CHR 0x22 # ''}],'' @
     CHR 0x22 # ''max_tokens'' @ CHR 0x22 # '':1}''"

text \<open>\<open>http.NewRequest\<close> parses the printed URL again; it fails only where the URL does not print to a parsable text,
  which the parameter \<open>printable\<close> decides.\<close>

definition openAIGenerateProbeRequest ::
  "(nat \<Rightarrow> bool) \<Rightarrow> (url \<Rightarrow> bool) \<Rightarrow> url \<Rightarrow> bytes \<Rightarrow> bytes \<Rightarrow> probe_request option" where
  "openAIGenerateProbeRequest table printable targetURL apiKey modelName =
     (let u = targetURL\<lparr>url_Path := joinURLPath (url_Path targetURL) ''/v1/chat/completions''\<rparr>;
          header = headerSet (\<lambda>_. None) ''Content-Type'' ''application/json'';
          header = (if apiKey \<noteq> [] then headerSet header ''Authorization'' (''Bearer '' @ apiKey) else header)
      in if printable u then Some (PostProbe u header (probePayload table modelName)) else None)"

definition shouldSkipResponseHeader :: "bytes \<Rightarrow> bool" where
  "shouldSkipResponseHeader key \<longleftrightarrow>
     canonicalHeaderKey key \<in> {''Connection'', ''Keep-Alive'', ''Proxy-Authenticate'', ''Proxy-Authorization'', ''Te'', ''Trailer'',
       ''Transfer-Encoding'', ''Upgrade''}"

text \<open>The loop over the response header: what it stores into the header map of the writer.\<close>

definition copiedHeader :: "header \<Rightarrow> header" where
  "copiedHeader h = (\<lambda>key. if shouldSkipResponseHeader key then None else h key)"

definition openAITranslateResponse ::
  "(http_response \<Rightarrow> 'net \<Rightarrow> (bytes list \<times> go_error option) \<times> 'net) \<Rightarrow> http_response \<Rightarrow> bytes \<Rightarrow> 'net
     \<Rightarrow> (write_action list \<times> go_error option) \<times> 'net" where
  "openAITranslateResponse copyBody resp modelName net =
     (case copyBody resp net of
        ((chunks, err), net') \<Rightarrow>
          (([MergeHeader (copiedHeader (resp_Header resp)), DelHeader ''Server'',
             SetHeader ''Access-Control-Allow-Origin'' ''*'', SendHeader (resp_StatusCode resp)] @ map SendBytes chunks, err),
           net'))"

definition OpenAIProvider ::
  "(http_response \<Rightarrow> 'net \<Rightarrow> (bytes list \<times> go_error option) \<times> 'net) \<Rightarrow> 'net adapter" where
  "OpenAIProvider copyBody =
     \<lparr>ad_CompileRequest = openAICompileRequest, ad_TranslateResponse = openAITranslateResponse copyBody\<rparr>"

section \<open>What the proxy needs of an adapter\<close>

text \<open>An adapter that answers: translating a response commits the status, on a writer that has not committed one.\<close>

locale answering_adapter =
  fixes translate :: "http_response \<Rightarrow> bytes \<Rightarrow> 'net \<Rightarrow> (write_action list \<times> go_error option) \<times> 'net"
    and status :: "http_response \<Rightarrow> int"
  assumes sends_header: "translate resp m net = ((acts, err), net') \<Longrightarrow>
    \<exists>pre post. acts = pre @ SendHeader (status resp) # post \<and>
      (\<forall>a\<in>set pre. case a of SendHeader _ \<Rightarrow> False | SendBytes _ \<Rightarrow> False | _ \<Rightarrow> True)"
begin

lemma runAction_header_only:
  "(case a of SendHeader _ \<Rightarrow> False | SendBytes _ \<Rightarrow> False | _ \<Rightarrow> True) \<Longrightarrow> w_sent (runAction a w) = w_sent w"
  by (cases a) auto

lemma run_header_only:
  "\<forall>a\<in>set acts. case a of SendHeader _ \<Rightarrow> False | SendBytes _ \<Rightarrow> False | _ \<Rightarrow> True \<Longrightarrow> w_sent (runActions acts w) = w_sent w"
  by (induction acts arbitrary: w) (auto simp: runActions_def runAction_header_only)

lemma runAction_keeps_sent: "w_sent w = Some x \<Longrightarrow> w_sent (runAction a w) = Some x"
  by (cases a) (auto simp: w_sent_writeHeader w_sent_writeChunk)

lemma run_keeps_sent: "w_sent w = Some x \<Longrightarrow> w_sent (runActions acts w) = Some x"
  by (induction acts arbitrary: w) (auto simp: runActions_def runAction_keeps_sent)

lemma answers:
  assumes "translate resp m net = ((acts, err), net')" "w_sent w = None"
  shows "\<exists>h. w_sent (runActions acts w) = Some (status resp, h)"
proof -
  from sends_header [OF assms(1)] obtain pre post where acts: "acts = pre @ SendHeader (status resp) # post"
    and pre: "\<forall>a\<in>set pre. case a of SendHeader _ \<Rightarrow> False | SendBytes _ \<Rightarrow> False | _ \<Rightarrow> True" by blast
  let ?w = "runActions pre w"
  have "w_sent (runAction (SendHeader (status resp)) ?w) = Some (status resp, w_header ?w)"
    using run_header_only [OF pre, of w] assms(2) by (simp add: w_sent_writeHeader)
  from run_keeps_sent [OF this, of post] show ?thesis by (auto simp: acts runActions_def)
qed

end

interpretation openai: answering_adapter "openAITranslateResponse copyBody" resp_StatusCode for copyBody
proof unfold_locales
  fix resp m and net net' :: 'a and acts err
  assume "openAITranslateResponse copyBody resp m net = ((acts, err), net')"
  then obtain chunks where "acts = [MergeHeader (copiedHeader (resp_Header resp)), DelHeader ''Server'',
      SetHeader ''Access-Control-Allow-Origin'' ''*''] @ SendHeader (resp_StatusCode resp) # map SendBytes chunks"
    by (auto simp: openAITranslateResponse_def split: prod.splits)
  then show "\<exists>pre post. acts = pre @ SendHeader (resp_StatusCode resp) # post \<and>
      (\<forall>a\<in>set pre. case a of SendHeader _ \<Rightarrow> False | SendBytes _ \<Rightarrow> False | _ \<Rightarrow> True)"
    by (intro exI conjI) (assumption, simp)
qed

section \<open>Paths and headers\<close>

lemma joinURLPath_shape:
  assumes "basePath \<noteq> []" "reqPath \<noteq> []"
  shows "\<exists>b r. joinURLPath basePath reqPath = b @ ''/'' @ r \<and> (b = [] \<or> last b \<noteq> CHR ''/'') \<and> (r = [] \<or> hd r \<noteq> CHR ''/'')"
proof (intro exI conjI)
  show "joinURLPath basePath reqPath = trimRight basePath {CHR ''/''} @ ''/'' @ trimLeft reqPath {CHR ''/''}"
    using assms by (simp add: joinURLPath_def)
  show "trimRight basePath {CHR ''/''} = [] \<or> last (trimRight basePath {CHR ''/''}) \<noteq> CHR ''/''"
    using trimRight_last [of basePath "{CHR ''/''}"] by blast
  show "trimLeft reqPath {CHR ''/''} = [] \<or> hd (trimLeft reqPath {CHR ''/''}) \<noteq> CHR ''/''"
    using hd_dropWhile [of "\<lambda>c. c \<in> {CHR ''/''}" reqPath] by (auto simp: trimLeft_def)
qed

lemma canonical_proxy_literals:
  "canonicalHeaderKey ''Traceparent'' = ''Traceparent''" "canonicalHeaderKey ''Tracestate'' = ''Tracestate''"
  "canonicalHeaderKey ''Accept-Encoding'' = ''Accept-Encoding''" "canonicalHeaderKey ''Server'' = ''Server''"
  "canonicalHeaderKey ''Access-Control-Allow-Origin'' = ''Access-Control-Allow-Origin''"
  by code_simp+

lemma templateHeader_authorization: "headerGet (templateHeader tp) ''Authorization'' = headerGet (tp_header tp) ''Authorization''"
  by (simp add: templateHeader_def headerGet_def headerSet_def headerDel_def canonical_proxy_literals Let_def)

section \<open>Properties\<close>

text \<open>C19. The request sent to an OpenAI-compatible provider goes to the scheme and host of the configured base URL, whatever
  the client wrote, with the body unchanged. Its authorization is the provider's key when one is configured;
  otherwise the client's own \<open>Authorization\<close> header, which holds the gateway token, goes upstream.\<close>

theorem compile_openai_request:
  assumes "compile rt tp provider (OpenAIProvider copyBody) s = (Inr c, s')" "urls_ok rt s"
    "rt_ParseURL rt (pr_BaseURL provider) = Some u"
  shows "url_Scheme (cr_url c) = url_Scheme u \<and> url_Host (cr_url c) = url_Host u \<and> cr_host c = url_Host u \<and>
    url_RawQuery (cr_url c) = url_RawQuery (tp_requestURL tp) \<and> cr_body c = tp_upstreamBody tp \<and>
    url_Path (cr_url c) = joinURLPath (url_Path u) (url_Path (tp_requestURL tp)) \<and>
    headerGet (cr_header c) ''Authorization'' =
      (if pr_APIKey provider \<noteq> [] then ''Bearer '' @ pr_APIKey provider else headerGet (tp_header tp) ''Authorization'')"
proof -
  obtain up where p: "parseAndCacheBaseURL rt (pr_BaseURL provider) s = (Some u, up)"
    using parseAndCacheBaseURL_spec(1) [OF assms(2), of "pr_BaseURL provider"] assms(3) by (metis surj_pair)
  have "headerGet (cr_header c) ''Authorization'' =
      (if pr_APIKey provider \<noteq> [] then ''Bearer '' @ pr_APIKey provider else headerGet (templateHeader tp) ''Authorization'')"
    using assms(1) p by (auto simp: compile_def OpenAIProvider_def openAICompileRequest_def)
  then show ?thesis
    using assms(1) p by (auto simp: compile_def OpenAIProvider_def openAICompileRequest_def templateHeader_authorization)
qed

definition demoTemplate :: requestTemplate where
  "demoTemplate = \<lparr>tp_method = ''POST'', tp_requestURL = \<lparr>url_Scheme = [], url_Host = ''gw'', url_Path = ''/v1/x'', url_RawPath = [], url_RawQuery = []\<rparr>,
     tp_header = headerSet (\<lambda>_. None) ''Authorization'' ''Bearer gw-token'', tp_requestID = [], tp_traceParent = [], tp_traceState = [],
     tp_upstreamBody = ''{}''\<rparr>"

theorem compile_openai_request_witness:
  "\<exists>c s'. compile demoRuntime demoTemplate (namedRoute ''openai'' ''https://h'')
      (OpenAIProvider (\<lambda>resp (n :: nat). (([resp_Body resp], None), n))) (emptyUpstream :: nat upstream_state) = (Inr c, s') \<and>
     url_Host (cr_url c) = ''h'' \<and> url_Path (cr_url c) = ''/v1/x'' \<and> headerGet (cr_header c) ''Authorization'' = ''Bearer gw-token''"
proof -
  let ?u = "\<lparr>url_Scheme = ''https'', url_Host = ''h'', url_Path = [], url_RawPath = [], url_RawQuery = []\<rparr>"
  have u: "rt_ParseURL demoRuntime (pr_BaseURL (namedRoute ''openai'' ''https://h'')) = Some ?u" by (simp add: demoRuntime_def)
  obtain c s' where c: "compile demoRuntime demoTemplate (namedRoute ''openai'' ''https://h'')
      (OpenAIProvider (\<lambda>resp (n :: nat). (([resp_Body resp], None), n))) (emptyUpstream :: nat upstream_state) = (Inr c, s')"
    using u by (fastforce simp: compile_def OpenAIProvider_def openAICompileRequest_def parseAndCacheBaseURL_def emptyUpstream_def)
  from compile_openai_request [OF c emptyUpstream_urls u] show ?thesis
    using c by (auto simp: namedRoute_def demoTemplate_def joinURLPath_def)
qed

text \<open>A response of an OpenAI-compatible provider is relayed: its status, its header fields (hop-by-hop fields and \<open>Server\<close>
  left out) and every chunk of its body in order, on a writer that has not answered yet.\<close>

theorem openai_relays_response:
  assumes "openAITranslateResponse copyBody resp m net = ((acts, err), net')" "copyBody resp net = ((chunks, err'), net'')"
    "w_sent w = None" "k \<notin> {''Server'', ''Access-Control-Allow-Origin''}"
  shows "err = err' \<and> w_body (runActions acts w) = w_body w @ map Raw chunks \<and>
    (\<exists>h. w_sent (runActions acts w) = Some (resp_StatusCode resp, h) \<and>
      h k = (if shouldSkipResponseHeader k then w_header w k
             else case resp_Header resp k of Some v \<Rightarrow> Some v | None \<Rightarrow> w_header w k) \<and>
      h ''Server'' = None \<and> h ''Access-Control-Allow-Origin'' = Some [''*''])"
proof -
  let ?pre = "[MergeHeader (copiedHeader (resp_Header resp)), DelHeader ''Server'', SetHeader ''Access-Control-Allow-Origin'' ''*'',
     SendHeader (resp_StatusCode resp)]"
  have acts: "acts = ?pre @ map SendBytes chunks" "err = err'"
    using assms(1,2) by (auto simp: openAITranslateResponse_def)
  let ?w = "runActions ?pre w"
  have sent: "w_sent ?w = Some (resp_StatusCode resp, w_header ?w)"
    using assms(3) by (simp add: runActions_def w_sent_writeHeader)
  have hdr: "w_header ?w = ((w_header w ++ copiedHeader (resp_Header resp))(''Server'' := None))(''Access-Control-Allow-Origin'' \<mapsto> [''*''])"
    by (simp add: runActions_def headerDel_def headerSet_def canonical_proxy_literals)
  have body: "w_body (runActions (map SendBytes cs) v) = w_body v @ map Raw cs" for cs v
    by (induction cs arbitrary: v) (simp_all add: runActions_def)
  have split: "runActions acts w = runActions (map SendBytes chunks) ?w" by (simp add: acts runActions_def)
  have "w_body (runActions acts w) = w_body w @ map Raw chunks" unfolding split body by (simp add: runActions_def)
  moreover have "w_sent (runActions acts w) = Some (resp_StatusCode resp, w_header ?w)"
    unfolding split by (rule openai.run_keeps_sent [OF sent])
  ultimately show ?thesis
    unfolding hdr using assms(4) acts(2) by (simp add: copiedHeader_def map_add_def split: option.split)
qed

theorem openai_relays_response_witness:
  "\<exists>acts. openAITranslateResponse (\<lambda>resp (n :: nat). (([resp_Body resp], None), n))
       \<lparr>resp_StatusCode = 201, resp_Header = headerSet (\<lambda>_. None) ''Te'' ''x'', resp_Body = ''ok''\<rparr> [] 0 = ((acts, None), 0) \<and>
     w_body (runActions acts newWriter) = [Raw ''ok''] \<and>
     (\<exists>h. w_sent (runActions acts newWriter) = Some (201, h) \<and> h ''Te'' = None)"
proof -
  let ?copy = "\<lambda>resp (n :: nat). (([resp_Body resp], None :: go_error option), n)"
  let ?r = "\<lparr>resp_StatusCode = 201, resp_Header = headerSet (\<lambda>_. None) ''Te'' ''x'', resp_Body = ''ok''\<rparr>"
  obtain acts where a: "openAITranslateResponse ?copy ?r [] 0 = ((acts, None), 0)" by (simp add: openAITranslateResponse_def)
  have skip: "shouldSkipResponseHeader ''Te''" by code_simp
  have "w_sent newWriter = None" by (simp add: newWriter_def)
  from openai_relays_response [OF a refl this, of "''Te''"] a skip show ?thesis by (auto simp: newWriter_def)
qed

end
