(* ===== verification/Adapter_Stream.thy ===== *)
theory Adapter_Stream
  imports Adapter_OpenAI
begin

text \<open>
  The stream translator of the Anthropic adapter, \<open>internal/adapter/stream_translator.go\<close>: it reads server-sent events of the
  Anthropic protocol line by line and writes chunks of the OpenAI protocol. Decoding the payload of an event
  (\<open>json.Unmarshal\<close> into an anonymous struct) is a parameter; the texts that are written are spelled out.
\<close>

section \<open>JSON fields\<close>

text \<open>A literal of the source, with the double quote written as a backquote.\<close>

definition ticked :: "bytes \<Rightarrow> bytes" where
  "ticked s = map (\<lambda>c. if c = CHR 0x60 then CHR 0x22 else c) s"

definition appendJSONStringField :: "(nat \<Rightarrow> bool) \<Rightarrow> bytes \<Rightarrow> bytes \<Rightarrow> bytes \<Rightarrow> bytes" where
  "appendJSONStringField table dst key value = dst @ ticked ''`'' @ key @ ticked ''`:'' @ quote table value"

definition appendJSONConstStringField :: "bytes \<Rightarrow> bytes \<Rightarrow> bytes \<Rightarrow> bytes" where
  "appendJSONConstStringField dst key value = dst @ ticked ''`'' @ key @ ticked ''`:`'' @ value @ ticked ''`''"

definition appendJSONIntField :: "bytes \<Rightarrow> bytes \<Rightarrow> int \<Rightarrow> bytes" where
  "appendJSONIntField dst key value = dst @ ticked ''`'' @ key @ ticked ''`:'' @ itoa value"

section \<open>Events\<close>

record anthropicSSEEvent =
  ev_eventType :: bytes
  ev_data :: bytes

definition emptyEvent :: anthropicSSEEvent where
  "emptyEvent = \<lparr>ev_eventType = [], ev_data = []\<rparr>"

definition consume :: "bytes \<Rightarrow> anthropicSSEEvent \<Rightarrow> anthropicSSEEvent" where
  "consume line e =
     (if hasPrefix line ''event:'' then e\<lparr>ev_eventType := trimSpace (drop (length ''event:'') line)\<rparr>
      else if hasPrefix line ''data:'' then
        (let payload = trimSpace (drop (length ''data:'') line) in
         if payload = [] then e
         else e\<lparr>ev_data := (if length (ev_data e) > 0 then ev_data e @ [CHR 0x0A] else ev_data e) @ payload\<rparr>)
      else e)"

definition hasData :: "anthropicSSEEvent \<Rightarrow> bool" where
  "hasData e \<longleftrightarrow> length (ev_data e) > 0"

text \<open>\<open>json.Unmarshal\<close> into the structs of the dispatcher: \<open>None\<close> is a decoding error. For a message delta the error is
  ignored and the decoder yields what the struct holds afterwards.\<close>

record event_decoder =
  jd_Type :: "bytes \<Rightarrow> bytes option"
  jd_MessageStart :: "bytes \<Rightarrow> (bytes \<times> bytes) option"
  jd_BlockStart :: "bytes \<Rightarrow> (int \<times> bytes \<times> bytes \<times> bytes) option"
  jd_BlockDelta :: "bytes \<Rightarrow> (int \<times> bytes \<times> bytes \<times> bytes) option"
  jd_StopReason :: "bytes \<Rightarrow> bytes"

section \<open>Writing chunks\<close>

record anthropicStreamState =
  as_created :: int
  as_msgID :: bytes
  as_model :: bytes
  as_written :: "bytes list"

text \<open>The world of one translation: the decoder, the table of printable characters, and the outcome of the n-th write; a write
  that fails delivers nothing.\<close>

record stream_env =
  se_decode :: event_decoder
  se_table :: "nat \<Rightarrow> bool"
  se_write :: "nat \<Rightarrow> go_error option"

definition streamWrite :: "stream_env \<Rightarrow> bytes \<Rightarrow> anthropicStreamState \<Rightarrow> go_error option \<times> anthropicStreamState" where
  "streamWrite env buf s =
     (case se_write env (length (as_written s)) of
        Some e \<Rightarrow> (Some e, s)
      | None \<Rightarrow> (None, s\<lparr>as_written := as_written s @ [buf]\<rparr>))"

definition chunkText :: "(nat \<Rightarrow> bool) \<Rightarrow> anthropicStreamState \<Rightarrow> bytes \<Rightarrow> bytes option \<Rightarrow> bytes" where
  "chunkText table s deltaJSON finishReason =
     (let buf = ''data: {'';
          buf = appendJSONStringField table buf ''id'' (as_msgID s);
          buf = buf @ '','';
          buf = appendJSONConstStringField buf ''object'' ''chat.completion.chunk'';
          buf = buf @ '','';
          buf = appendJSONIntField buf ''created'' (as_created s);
          buf = buf @ '','';
          buf = appendJSONStringField table buf ''model'' (as_model s);
          buf = buf @ ticked '',`choices`:[{`index`:0,`delta`:'';
          buf = buf @ deltaJSON;
          buf = buf @ ticked '',`finish_reason`:'';
          buf = (case finishReason of Some reason \<Rightarrow> buf @ quote table reason | None \<Rightarrow> buf @ ''null'')
      in buf @ ''}]}'' @ [CHR 0x0A, CHR 0x0A])"

definition writeStreamChunk ::
  "stream_env \<Rightarrow> bytes \<Rightarrow> bytes option \<Rightarrow> anthropicStreamState \<Rightarrow> go_error option \<times> anthropicStreamState" where
  "writeStreamChunk env deltaJSON finishReason s = streamWrite env (chunkText (se_table env) s deltaJSON finishReason) s"

definition sseDoneChunk :: bytes where
  "sseDoneChunk = ''data: [DONE]'' @ [CHR 0x0A, CHR 0x0A]"

definition writeDone :: "stream_env \<Rightarrow> anthropicStreamState \<Rightarrow> go_error option \<times> anthropicStreamState" where
  "writeDone env s = streamWrite env sseDoneChunk s"

definition assistantRoleDelta :: bytes where
  "assistantRoleDelta = ticked ''{`role`:`assistant`,`content`:``}''"

definition textDelta :: "(nat \<Rightarrow> bool) \<Rightarrow> bytes \<Rightarrow> bytes" where
  "textDelta table text = ticked ''{`content`:'' @ quote table text @ ''}''"

definition toolHeaderDelta :: "(nat \<Rightarrow> bool) \<Rightarrow> int \<Rightarrow> bytes \<Rightarrow> bytes \<Rightarrow> bytes" where
  "toolHeaderDelta table index toolID toolName =
     ticked ''{`tool_calls`:[{`index`:'' @ itoa index @ ticked '',`id`:'' @ quote table toolID @
     ticked '',`type`:`function`,`function`:{`name`:'' @ quote table toolName @ ticked '',`arguments`:``}}]}''"

definition toolArgumentDelta :: "(nat \<Rightarrow> bool) \<Rightarrow> int \<Rightarrow> bytes \<Rightarrow> bytes" where
  "toolArgumentDelta table index partialJSON =
     ticked ''{`tool_calls`:[{`index`:'' @ itoa index @ ticked '',`function`:{`arguments`:'' @ quote table partialJSON @ ''}}]}''"

definition stopReasonToFinishReason :: "bytes \<Rightarrow> bytes" where
  "stopReasonToFinishReason reason =
     (if reason = ''tool_use'' then ''tool_calls'' else if reason = ''max_tokens'' then ''length'' else ''stop'')"

section \<open>The dispatcher\<close>

definition dispatchAnthropicEvent ::
  "stream_env \<Rightarrow> bytes \<Rightarrow> bytes \<Rightarrow> anthropicStreamState \<Rightarrow> go_error option \<times> anthropicStreamState" where
  "dispatchAnthropicEvent env evType data s =
     (let table = se_table env; decode = se_decode env in
      if evType = ''message_start'' then
        (let s = (case jd_MessageStart decode data of
                    None \<Rightarrow> s
                  | Some (id', model) \<Rightarrow>
                      (let s = (if id' \<noteq> [] then s\<lparr>as_msgID := id'\<rparr> else s)
                       in if model \<noteq> [] then s\<lparr>as_model := model\<rparr> else s))
         in writeStreamChunk env assistantRoleDelta None s)
      else if evType = ''content_block_start'' then
        (case jd_BlockStart decode data of
           None \<Rightarrow> (None, s)
         | Some (index, type', id', name) \<Rightarrow>
             if type' = ''tool_use'' then writeStreamChunk env (toolHeaderDelta table index id' name) None s else (None, s))
      else if evType = ''content_block_delta'' then
        (case jd_BlockDelta decode data of
           None \<Rightarrow> (None, s)
         | Some (index, type', text, partialJSON) \<Rightarrow>
             if type' = ''text_delta'' then writeStreamChunk env (textDelta table text) None s
             else if type' = ''input_json_delta'' then writeStreamChunk env (toolArgumentDelta table index partialJSON) None s
             else (None, s))
      else if evType = ''message_delta'' then
        writeStreamChunk env ''{}'' (Some (stopReasonToFinishReason (jd_StopReason decode data))) s
      else (None, s))"

definition dispatchAnthropicSSEEvent ::
  "stream_env \<Rightarrow> anthropicSSEEvent \<Rightarrow> anthropicStreamState \<Rightarrow> go_error option \<times> anthropicStreamState" where
  "dispatchAnthropicSSEEvent env event s =
     (let evType = (if ev_eventType event = [] then jd_Type (se_decode env) (ev_data event) else Some (ev_eventType event)) in
      case evType of
        None \<Rightarrow> (None, s)
      | Some evType \<Rightarrow> if evType = [] then (None, s) else dispatchAnthropicEvent env evType (ev_data event) s)"

section \<open>The loop\<close>

text \<open>One line; \<open>Break\<close> is the jump to \<open>done\<close>.\<close>

datatype line_outcome = Continue anthropicSSEEvent anthropicStreamState | Break anthropicStreamState | Fail go_error anthropicStreamState

definition processLine :: "stream_env \<Rightarrow> bytes \<Rightarrow> anthropicSSEEvent \<Rightarrow> anthropicStreamState \<Rightarrow> line_outcome" where
  "processLine env line currentEvent s =
     (if length line = 0 then
        (if hasData currentEvent then
           (if ev_data currentEvent = ''[DONE]'' then Break s
            else (case dispatchAnthropicSSEEvent env currentEvent s of
                    (Some e, s) \<Rightarrow> Fail e s
                  | (None, s) \<Rightarrow> Continue emptyEvent s))
         else Continue emptyEvent s)
      else Continue (consume line currentEvent) s)"

definition trimLine :: "bytes \<Rightarrow> bytes" where
  "trimLine l = trimRight l {CHR 0x0D, CHR 0x0A}"

text \<open>\<open>lines\<close> are the lines that ended in a newline, \<open>rest\<close> what came after the last of them, \<open>end'\<close> the error that ended the
  body (\<open>None\<close> is the end of the stream).\<close>

fun streamLoop ::
  "stream_env \<Rightarrow> bytes list \<Rightarrow> bytes \<Rightarrow> go_error option \<Rightarrow> anthropicSSEEvent \<Rightarrow> anthropicStreamState \<Rightarrow> go_error option \<times> anthropicStreamState" where
  "streamLoop env [] rest end' currentEvent s =
     (case end' of
        Some e \<Rightarrow> (Some e, s)
      | None \<Rightarrow>
          (case processLine env (trimLine rest) currentEvent s of
             Fail e s \<Rightarrow> (Some e, s)
           | Break s \<Rightarrow> writeDone env s
           | Continue _ s \<Rightarrow> writeDone env s))"
| "streamLoop env (line # lines) rest end' currentEvent s =
     (case processLine env (trimLine line) currentEvent s of
        Fail e s \<Rightarrow> (Some e, s)
      | Break s \<Rightarrow> writeDone env s
      | Continue currentEvent s \<Rightarrow> streamLoop env lines rest end' currentEvent s)"

text \<open>Cutting the body at its newlines.\<close>

definition bodyLines :: "bytes \<Rightarrow> bytes list \<times> bytes" where
  "bodyLines body = (let parts = split_on (CHR 0x0A) body in (butlast parts, last parts))"

definition TranslateAnthropicStream ::
  "stream_env \<Rightarrow> int \<Rightarrow> bytes \<Rightarrow> go_error option \<Rightarrow> bytes \<Rightarrow> write_action list \<times> go_error option" where
  "TranslateAnthropicStream env created body end' fallbackModel =
     (let (lines, rest) = bodyLines body;
          s = \<lparr>as_created = created, as_msgID = ''chatcmpl-anthropic-'' @ itoa created, as_model = fallbackModel, as_written = []\<rparr>;
          (err, s) = streamLoop env lines rest end' emptyEvent s
      in ([SetHeader ''Content-Type'' ''text/event-stream'', SetHeader ''Cache-Control'' ''no-cache'', SetHeader ''Connection'' ''keep-alive'',
           SetHeader ''Access-Control-Allow-Origin'' ''*'', DelHeader ''Server'', SendHeader 200] @ map SendBytes (as_written s), err))"

section \<open>Framing\<close>

text \<open>Text without control characters.\<close>

definition printable :: "bytes \<Rightarrow> bool" where
  "printable s \<longleftrightarrow> (\<forall>c\<in>set s. 0x20 \<le> (byte c :: nat))"

lemma printable_simps [simp]:
  "printable []" "printable (c # s) \<longleftrightarrow> 0x20 \<le> (byte c :: nat) \<and> printable s" "printable (s @ t) \<longleftrightarrow> printable s \<and> printable t"
  by (auto simp: printable_def)

lemma hexDigits_printable: "printable (hexDigits n v)"
proof (induction n arbitrary: v)
  case (Suc n)
  have "v mod 16 < 16" by simp
  then have "0x20 \<le> (byte (hexDigit (v mod 16)) :: nat)" by (simp add: hexDigit_def)
  with Suc show ?case by simp
qed simp

lemma encodeRune_printable: "0x20 \<le> r \<Longrightarrow> printable (encodeRune r)"
proof -
  assume r: "0x20 \<le> r"
  define r' where "r' = (if validRune r then r else runeError)"
  have r': "0x20 \<le> r'" "r' \<le> 0x10FFFF" using r by (auto simp: r'_def validRune_def runeError_def)
  then have "r' < 0x800 \<Longrightarrow> r' div 64 < 32" "r' < 0x10000 \<Longrightarrow> r' div 4096 < 16" "r' div 262144 < 8" by auto
  moreover have "encodeRune r = encodeRune r'" by (auto simp: encodeRune_def r'_def Let_def validRune_def runeError_def)
  ultimately show ?thesis using r' unfolding encodeRune_def Let_def
    by (auto simp: validRune_def runeError_def)
qed

lemma escapedRune_printable: "printable (escapedRune table r)"
proof -
  have "isPrintRune table r \<Longrightarrow> 0x20 \<le> r" by (auto simp: isPrintRune_def split: if_splits)
  then show ?thesis by (auto simp: escapedRune_def encodeRune_printable hexDigits_printable simp del: hexDigits.simps)
qed

lemma quoteStep_printable: "printable (fst (quoteStep table s))"
  by (cases s) (auto simp: hexDigits_printable escapedRune_printable simp del: hexDigits.simps decodeRune.simps split: prod.split)

lemma quoteLoop_printable: "printable (quoteLoop table s)"
proof (induction table s rule: quoteLoop.induct)
  case (1 table s)
  show ?case
  proof (cases "s = []")
    case True
    then show ?thesis by (simp add: quoteLoop.simps)
  next
    case False
    obtain out width where q: "quoteStep table s = (out, width)" by fastforce
    with 1 [OF False q [symmetric]] quoteStep_printable [of table s] False show ?thesis by (subst quoteLoop.simps) simp
  qed
qed

lemma quote_printable: "printable (quote table s)"
  by (simp add: quote_def quoteLoop_printable)

lemma digits_printable: "printable (nat_digits n)"
proof (induction n rule: nat_digits.induct)
  case (1 n)
  then show ?case by (subst nat_digits.simps) simp
qed

lemma itoa_printable: "printable (itoa i)"
  by (simp add: itoa_def digits_printable)

text \<open>A server-sent event of one data line.\<close>

definition sse_frame :: "bytes \<Rightarrow> bool" where
  "sse_frame c \<longleftrightarrow> (\<exists>x. c = ''data: '' @ x @ [CHR 0x0A, CHR 0x0A] \<and> printable x)"

lemma ticked_printable: "printable s \<Longrightarrow> printable (ticked s)"
  by (auto simp: printable_def ticked_def)

lemma chunk_frame:
  assumes "printable delta"
  shows "sse_frame (chunkText table s delta reason)"
proof -
  have lit: "printable (ticked ''`'')" "printable (ticked ''`:'')" "printable (ticked ''`:`'')" "printable (ticked '',`choices`:[{`index`:0,`delta`:'')"
    "printable (ticked '',`finish_reason`:'')" by (simp_all add: ticked_def)
  show ?thesis unfolding sse_frame_def
    using assms lit
    by (cases reason)
      (auto simp: chunkText_def appendJSONStringField_def appendJSONConstStringField_def appendJSONIntField_def Let_def
        quote_printable itoa_printable intro!: exI)
qed

lemma delta_printable:
  "printable assistantRoleDelta" "printable (textDelta table t)" "printable (toolHeaderDelta table i a b)" "printable (toolArgumentDelta table i a)"
  "printable ''{}''"
  by (simp_all add: assistantRoleDelta_def textDelta_def toolHeaderDelta_def toolArgumentDelta_def quote_printable itoa_printable ticked_def)

text \<open>A chunk is not the end marker.\<close>

lemma chunk_not_done: "chunkText table s delta reason \<noteq> sseDoneChunk"
proof -
  have "chunkText table s delta reason ! 6 = CHR ''{''"
    by (cases reason) (simp_all add: chunkText_def Let_def appendJSONStringField_def appendJSONConstStringField_def appendJSONIntField_def nth_append)
  moreover have "sseDoneChunk ! 6 \<noteq> CHR ''{''" by (simp add: sseDoneChunk_def)
  ultimately show ?thesis by metis
qed

text \<open>Every write outside \<open>writeDone\<close> is a framed chunk.\<close>

definition chunks_ok :: "bytes list \<Rightarrow> bool" where
  "chunks_ok cs \<longleftrightarrow> (\<forall>c\<in>set cs. sse_frame c \<and> c \<noteq> sseDoneChunk)"

lemma chunks_ok_snoc [simp]: "chunks_ok (cs @ [c]) \<longleftrightarrow> chunks_ok cs \<and> sse_frame c \<and> c \<noteq> sseDoneChunk"
  by (auto simp: chunks_ok_def)

lemma writeStreamChunk_ok:
  assumes "writeStreamChunk env delta reason s = (err, s')" "chunks_ok (as_written s)" "printable delta"
  shows "chunks_ok (as_written s')"
  using assms chunk_frame chunk_not_done
  by (auto simp: writeStreamChunk_def streamWrite_def split: option.splits)

lemma dispatch_ok:
  assumes "dispatchAnthropicSSEEvent env event s = (err, s')" "chunks_ok (as_written s)"
  shows "chunks_ok (as_written s')"
proof -
  have "dispatchAnthropicEvent env ty data s = (err, s') \<Longrightarrow> chunks_ok (as_written s')" for ty data
    using assms(2) writeStreamChunk_ok delta_printable
    by (auto simp: dispatchAnthropicEvent_def Let_def split: if_splits option.splits)
  with assms show ?thesis by (auto simp: dispatchAnthropicSSEEvent_def Let_def split: if_splits option.splits)
qed

lemma processLine_ok:
  assumes "chunks_ok (as_written s)"
  shows "case processLine env line ev s of Continue _ s' \<Rightarrow> chunks_ok (as_written s') | Break s' \<Rightarrow> chunks_ok (as_written s') | Fail _ s' \<Rightarrow> chunks_ok (as_written s')"
  using assms dispatch_ok by (auto simp: processLine_def split: option.splits prod.splits)

lemma writeDone_result:
  assumes "writeDone env s = (err, s')"
  shows "as_written s' = (if err = None then as_written s @ [sseDoneChunk] else as_written s)"
proof (cases "se_write env (length (as_written s))")
  case (Some e)
  with assms have "err = Some e" "s' = s" by (simp_all add: writeDone_def streamWrite_def)
  then show ?thesis by simp
qed (use assms in \<open>auto simp: writeDone_def streamWrite_def\<close>)

lemma streamLoop_ok:
  assumes "streamLoop env lines rest end' ev s = (err, s')" "chunks_ok (as_written s)"
  shows "\<exists>cs. chunks_ok cs \<and> as_written s' = (if err = None then cs @ [sseDoneChunk] else cs)"
  using assms
proof (induction lines arbitrary: ev s)
  case Nil
  show ?case
  proof (cases end')
    case (Some e)
    with Nil show ?thesis by auto
  next
    case None
    with Nil processLine_ok [OF Nil.prems(2), of env "trimLine rest" ev] show ?thesis
      by (auto split: line_outcome.splits dest!: writeDone_result)
  qed
next
  case (Cons line lines)
  note ok = processLine_ok [OF Cons.prems(2), of env "trimLine line" ev]
  show ?case
  proof (cases "processLine env (trimLine line) ev s")
    case (Continue ev1 s1)
    with ok Cons.prems(1) Cons.IH [of ev1 s1] show ?thesis by simp
  qed (use ok Cons.prems(1) in \<open>auto dest!: writeDone_result\<close>)
qed

section \<open>The events of a stream\<close>

text \<open>The reference: the events that blank lines delimit, in order.\<close>

fun sseEvents :: "bytes list \<Rightarrow> anthropicSSEEvent \<Rightarrow> anthropicSSEEvent list" where
  "sseEvents [] ev = []"
| "sseEvents (line # lines) ev =
     (if line = [] then (if ev_data ev = [] then [] else [ev]) @ sseEvents lines emptyEvent else sseEvents lines (consume line ev))"

text \<open>Translating a list of events one after the other, up to the end marker of the upstream or the first failed write.\<close>

fun translateEvents :: "stream_env \<Rightarrow> anthropicSSEEvent list \<Rightarrow> anthropicStreamState \<Rightarrow> go_error option \<times> anthropicStreamState" where
  "translateEvents env [] s = (None, s)"
| "translateEvents env (ev # evs) s =
     (if ev_data ev = ''[DONE]'' then (None, s)
      else (case dispatchAnthropicSSEEvent env ev s of
              (Some e, s) \<Rightarrow> (Some e, s)
            | (None, s) \<Rightarrow> translateEvents env evs s))"

definition thenDone :: "stream_env \<Rightarrow> go_error option \<times> anthropicStreamState \<Rightarrow> go_error option \<times> anthropicStreamState" where
  "thenDone env res = (case res of (Some e, s) \<Rightarrow> (Some e, s) | (None, s) \<Rightarrow> writeDone env s)"

lemma streamLoop_events:
  "streamLoop env lines rest None ev s = thenDone env (translateEvents env (sseEvents (map trimLine (lines @ [rest])) ev) s)"
proof (induction lines arbitrary: ev s)
  case Nil
  show ?case
    by (cases "dispatchAnthropicSSEEvent env ev s"; cases "fst (dispatchAnthropicSSEEvent env ev s)")
      (auto simp: processLine_def hasData_def thenDone_def)
next
  case (Cons line lines)
  show ?case
    by (cases "dispatchAnthropicSSEEvent env ev s"; cases "fst (dispatchAnthropicSSEEvent env ev s)")
      (auto simp: processLine_def hasData_def Cons.IH thenDone_def)
qed

section \<open>The translator answers\<close>

text \<open>As part of an adapter: reading the body is a parameter, as is the outcome of the writes.\<close>

definition streamAdapter ::
  "('net \<Rightarrow> stream_env) \<Rightarrow> ('net \<Rightarrow> int) \<Rightarrow> (http_response \<Rightarrow> 'net \<Rightarrow> (bytes \<times> go_error option) \<times> 'net) \<Rightarrow> http_response \<Rightarrow> bytes \<Rightarrow> 'net
     \<Rightarrow> (write_action list \<times> go_error option) \<times> 'net" where
  "streamAdapter env now readBody resp modelName net =
     (case readBody resp net of ((body, end'), net') \<Rightarrow> (TranslateAnthropicStream (env net) (now net) body end' modelName, net'))"

interpretation stream: answering_adapter "streamAdapter env now readBody" "\<lambda>_. 200" for env now readBody
proof unfold_locales
  fix resp m and net net' :: 'a and acts err
  assume "streamAdapter env now readBody resp m net = ((acts, err), net')"
  then obtain chunks where "acts = [SetHeader ''Content-Type'' ''text/event-stream'', SetHeader ''Cache-Control'' ''no-cache'',
      SetHeader ''Connection'' ''keep-alive'', SetHeader ''Access-Control-Allow-Origin'' ''*'', DelHeader ''Server''] @ SendHeader 200 # map SendBytes chunks"
    by (auto simp: streamAdapter_def TranslateAnthropicStream_def Let_def split: prod.splits)
  then show "\<exists>pre post. acts = pre @ SendHeader 200 # post \<and>
      (\<forall>a\<in>set pre. case a of SendHeader _ \<Rightarrow> False | SendBytes _ \<Rightarrow> False | _ \<Rightarrow> True)"
    by (intro exI conjI) (assumption, simp)
qed

section \<open>Properties\<close>

definition openingActions :: "write_action list" where
  "openingActions = [SetHeader ''Content-Type'' ''text/event-stream'', SetHeader ''Cache-Control'' ''no-cache'', SetHeader ''Connection'' ''keep-alive'',
     SetHeader ''Access-Control-Allow-Origin'' ''*'', DelHeader ''Server'', SendHeader 200]"

definition openingState :: "int \<Rightarrow> bytes \<Rightarrow> anthropicStreamState" where
  "openingState created fallbackModel =
     \<lparr>as_created = created, as_msgID = ''chatcmpl-anthropic-'' @ itoa created, as_model = fallbackModel, as_written = []\<rparr>"

lemma translate_shape:
  assumes "TranslateAnthropicStream env created body end' m = (acts, err)"
  obtains s where "streamLoop env (fst (bodyLines body)) (snd (bodyLines body)) end' emptyEvent (openingState created m) = (err, s)"
    "acts = openingActions @ map SendBytes (as_written s)"
  using assms by (auto simp: TranslateAnthropicStream_def Let_def openingState_def openingActions_def split: prod.splits)

text \<open>C27. The translated stream is well framed, whatever the upstream sends: after the header every write is one server-sent event with a
  single data line (no control character of a text, name or argument can break the frame), and the end marker is written
  exactly once, as the last chunk, when the translation ends without an error, and never otherwise.\<close>

theorem stream_well_framed:
  assumes "TranslateAnthropicStream env created body end' m = (acts, err)"
  shows "\<exists>cs. acts = openingActions @ map SendBytes cs \<and> (\<forall>c\<in>set cs. sse_frame c) \<and>
    (err = None \<longrightarrow> cs \<noteq> [] \<and> last cs = sseDoneChunk \<and> sseDoneChunk \<notin> set (butlast cs)) \<and> (err \<noteq> None \<longrightarrow> sseDoneChunk \<notin> set cs)"
proof (rule translate_shape [OF assms])
  fix s
  assume loop: "streamLoop env (fst (bodyLines body)) (snd (bodyLines body)) end' emptyEvent (openingState created m) = (err, s)"
    and acts: "acts = openingActions @ map SendBytes (as_written s)"
  have "chunks_ok (as_written (openingState created m))" by (simp add: openingState_def chunks_ok_def)
  from streamLoop_ok [OF loop this] obtain cs where cs: "chunks_ok cs" "as_written s = (if err = None then cs @ [sseDoneChunk] else cs)" by blast
  have "sse_frame sseDoneChunk" unfolding sse_frame_def sseDoneChunk_def by (rule exI [of _ "''[DONE]''"]) simp
  with cs acts show ?thesis by (intro exI [of _ "as_written s"]) (auto simp: chunks_ok_def)
qed

text \<open>A decoder that takes every payload for a text delta, and a client that stays.\<close>

definition echoEnv :: stream_env where
  "echoEnv = \<lparr>se_decode = \<lparr>jd_Type = (\<lambda>_. Some ''content_block_delta''), jd_MessageStart = (\<lambda>_. None), jd_BlockStart = (\<lambda>_. None),
      jd_BlockDelta = (\<lambda>d. Some (0, ''text_delta'', d, [])), jd_StopReason = (\<lambda>_. [])\<rparr>, se_table = (\<lambda>_. False), se_write = (\<lambda>_. None)\<rparr>"

definition helloStream :: bytes where
  "helloStream = ''data: hello'' @ [CHR 0x0A] @ ''data: you'' @ [CHR 0x0A, CHR 0x0A]"

theorem stream_well_framed_witness:
  "\<exists>acts cs. TranslateAnthropicStream echoEnv 7 helloStream None ''m'' = (acts, None) \<and> acts = openingActions @ map SendBytes cs \<and>
     (\<forall>c\<in>set cs. sse_frame c) \<and> last cs = sseDoneChunk"
proof -
  have e: "snd (TranslateAnthropicStream echoEnv 7 helloStream None ''m'') = None" by code_simp
  obtain acts where t: "TranslateAnthropicStream echoEnv 7 helloStream None ''m'' = (acts, None)" using e by (metis prod.collapse)
  from stream_well_framed [OF t] t show ?thesis by blast
qed

text \<open>C28. The line-by-line translator implements the event semantics: on a body that ends regularly it writes what translating the events of the
  stream one by one writes, followed by the end marker, where an event is what stands between blank lines.\<close>

theorem stream_translates_events:
  assumes "TranslateAnthropicStream env created body None m = (acts, err)"
  shows "\<exists>s. thenDone env (translateEvents env (sseEvents (map trimLine (split_on (CHR 0x0A) body)) emptyEvent) (openingState created m)) = (err, s) \<and>
    acts = openingActions @ map SendBytes (as_written s)"
proof (rule translate_shape [OF assms])
  fix s
  assume loop: "streamLoop env (fst (bodyLines body)) (snd (bodyLines body)) None emptyEvent (openingState created m) = (err, s)"
    and acts: "acts = openingActions @ map SendBytes (as_written s)"
  have "fst (bodyLines body) @ [snd (bodyLines body)] = split_on (CHR 0x0A) body" by (simp add: bodyLines_def Let_def)
  with loop acts show ?thesis by (auto simp: streamLoop_events)
qed

theorem stream_translates_events_witness:
  "\<exists>acts s. TranslateAnthropicStream echoEnv 7 helloStream None ''m'' = (acts, None) \<and> acts = openingActions @ map SendBytes (as_written s) \<and>
     length (as_written s) = 2 \<and> thenDone echoEnv (translateEvents echoEnv [\<lparr>ev_eventType = [], ev_data = ''hello'' @ [CHR 0x0A] @ ''you''\<rparr>] (openingState 7 ''m'')) = (None, s)"
proof -
  have e: "snd (TranslateAnthropicStream echoEnv 7 helloStream None ''m'') = None" by code_simp
  obtain acts where t: "TranslateAnthropicStream echoEnv 7 helloStream None ''m'' = (acts, None)" using e by (metis prod.collapse)
  have evs: "sseEvents (map trimLine (split_on (CHR 0x0A) helloStream)) emptyEvent = [\<lparr>ev_eventType = [], ev_data = ''hello'' @ [CHR 0x0A] @ ''you''\<rparr>]"
    by code_simp
  have len: "length (as_written (snd (thenDone echoEnv (translateEvents echoEnv
      [\<lparr>ev_eventType = [], ev_data = ''hello'' @ [CHR 0x0A] @ ''you''\<rparr>] (openingState 7 ''m''))))) = 2" by code_simp
  from stream_translates_events [OF t] len t show ?thesis unfolding evs by fastforce
qed

end
