(* ===== verification/Adapter_Quote.thy ===== *)
theory Adapter_Quote
  imports Adapter_Scan Adapter_Stream
begin

text \<open>
  What the adapter writes, its own scanner and the body scanner read: \<open>strconv.AppendQuote\<close> produces a string of the grammar that
  stands for the text it was given, \<open>strconv.AppendInt\<close> an integer of the grammar.
\<close>

section \<open>Strings\<close>

lemma string_chars_append: "string_chars a \<Longrightarrow> string_chars b \<Longrightarrow> string_chars (a @ b)"
  by (induction a rule: string_chars.induct) (auto split: if_splits list.splits)

text \<open>Text the string loop passes byte by byte.\<close>

definition plain_chars :: "bytes \<Rightarrow> bool" where
  "plain_chars s \<longleftrightarrow> printable s \<and> CHR 0x22 \<notin> set s \<and> CHR 0x5C \<notin> set s"

lemma plain_chars_string_chars: "plain_chars s \<Longrightarrow> string_chars s"
  by (induction s) (auto simp: plain_chars_def)

lemma hexDigit_plain: "n < 16 \<Longrightarrow> hexDigit n \<noteq> CHR 0x22 \<and> hexDigit n \<noteq> CHR 0x5C"
  using hexDigit_unhex [of n] by (auto simp: unhex_def inRange_def)

lemma hexDigits_plain: "plain_chars (hexDigits n v)"
proof (induction n arbitrary: v)
  case (Suc n)
  have m: "v mod 16 < 16" by simp
  from Suc [of "v div 16"] hexDigit_plain [OF m] hexDigits_printable [of "Suc n" v] show ?case
    by (auto simp: plain_chars_def)
qed (simp add: plain_chars_def)

lemma encodeRune_high: "0x80 \<le> r \<Longrightarrow> c \<in> set (encodeRune r) \<Longrightarrow> 0x80 \<le> (byte c :: nat)"
proof -
  assume r: "0x80 \<le> r" and c: "c \<in> set (encodeRune r)"
  define r' where "r' = (if validRune r then r else runeError)"
  have r': "0x80 \<le> r'" "r' \<le> 0x10FFFF" using r by (auto simp: r'_def validRune_def runeError_def)
  then have "r' < 0x800 \<Longrightarrow> r' div 64 < 32" "r' < 0x10000 \<Longrightarrow> r' div 4096 < 16" "r' div 262144 < 8" by auto
  moreover have "encodeRune r = encodeRune r'" by (auto simp: encodeRune_def r'_def Let_def validRune_def runeError_def)
  moreover have "validRune r'" by (simp add: r'_def validRune_def runeError_def)
  then have "encodeRune r' =
      (if r' < 0x80 then [char_of r']
       else if r' < 0x800 then [char_of (0xC0 + r' div 64), char_of (0x80 + r' mod 64)]
       else if r' < 0x10000 then [char_of (0xE0 + r' div 4096), char_of (0x80 + r' div 64 mod 64), char_of (0x80 + r' mod 64)]
       else [char_of (0xF0 + r' div 262144), char_of (0x80 + r' div 4096 mod 64), char_of (0x80 + r' div 64 mod 64),
             char_of (0x80 + r' mod 64)])"
    by (simp add: encodeRune_def)
  ultimately show ?thesis using r' c by (auto split: if_splits)
qed

lemma encodeRune_plain:
  assumes "0x20 \<le> r" "r \<noteq> 0x22" "r \<noteq> 0x5C"
  shows "plain_chars (encodeRune r)"
proof (cases "r < 0x80")
  case True
  then have "encodeRune r = [char_of r]" by (simp add: encodeRune_def validRune_def)
  with True assms show ?thesis by (auto simp: plain_chars_def dest: arg_cong [where f = "byte :: char \<Rightarrow> nat"])
next
  case False
  then show ?thesis
    using encodeRune_printable [OF assms(1)] encodeRune_high [of r "CHR 0x22"] encodeRune_high [of r "CHR 0x5C"]
    by (auto simp: plain_chars_def)
qed

lemma string_chars_escape: "string_chars (CHR 0x5C # c # s) = string_chars s"
  by simp

lemma escapedRune_chars: "string_chars (escapedRune table r)"
proof -
  have "isPrintRune table r \<Longrightarrow> 0x20 \<le> r" by (auto simp: isPrintRune_def split: if_splits)
  then show ?thesis
    by (auto simp: escapedRune_def encodeRune_plain hexDigits_plain plain_chars_string_chars simp del: hexDigits.simps)
qed

lemma quoteStep_chars: "string_chars (fst (quoteStep table s))"
  by (cases s)
     (auto simp: hexDigits_plain plain_chars_string_chars escapedRune_chars simp del: hexDigits.simps decodeRune.simps split: prod.split)

text \<open>A step that writes no backslash copies what it read.\<close>

lemma escapedRune_verbatim: "CHR 0x5C \<notin> set (escapedRune table r) \<Longrightarrow> escapedRune table r = encodeRune r"
  by (auto simp: escapedRune_def split: if_splits)

lemma quoteStep_verbatim:
  assumes "quoteStep table s = (out, w)" "s \<noteq> []" "CHR 0x5C \<notin> set out"
  shows "out = take w s"
proof -
  obtain a u where s: "s = a # u" using assms(2) by (cases s) auto
  show ?thesis
  proof (cases "0x80 \<le> byte a")
    case False
    then have "out = escapedRune table (byte a)" "w = 1" using assms(1,3) s by (auto simp: Let_def split: if_splits)
    moreover have "encodeRune (byte a) = [a]" using False by (simp add: encodeRune_def validRune_def)
    ultimately show ?thesis using escapedRune_verbatim [of table "byte a"] assms(3) s by simp
  next
    case True
    obtain r n where d: "decodeRune (a # u) = (r, n)" by fastforce
    have bad: "\<not> (n = 1 \<and> r = runeError)" using assms(1,3) s d True by (auto simp del: decodeRune.simps)
    from encode_decode [OF d True bad, of "[]"] obtain v where "a # u = encodeRune r @ v" "n = length (encodeRune r)" by blast
    moreover have "out = escapedRune table r" "w = n"
      using assms(1) s d True bad by (auto simp del: decodeRune.simps)
    ultimately show ?thesis using escapedRune_verbatim [of table r] assms(3) s by simp
  qed
qed

lemma quoteLoop_chars:
  "string_chars (quoteLoop table s) \<and> (CHR 0x5C \<notin> set (quoteLoop table s) \<longrightarrow> quoteLoop table s = s)"
proof (induction table s rule: quoteLoop.induct)
  case (1 table s)
  show ?case
  proof (cases "s = []")
    case True
    then show ?thesis by (simp add: quoteLoop.simps)
  next
    case False
    obtain out w where q: "quoteStep table s = (out, w)" by fastforce
    have "quoteLoop table s = out @ quoteLoop table (drop w s)" using False q by (simp add: quoteLoop.simps [of table s])
    with 1 [OF False q [symmetric]] quoteStep_chars [of table s] quoteStep_verbatim [OF q False] q show ?thesis
      by (auto simp: string_chars_append)
  qed
qed

lemma string_token_quote: "string_token (quote table s) s"
  using quoteLoop_chars [of table s] unquote_quote [of table s] by (auto simp: string_token_def quote_def)

lemma string_token_plain: "plain_chars s \<Longrightarrow> string_token (CHR 0x22 # s @ [CHR 0x22]) s"
  using plain_chars_string_chars [of s] by (auto simp: string_token_def plain_chars_def)

section \<open>Integers\<close>

lemma nat_digits_value: "json_digits (nat_digits n) \<and> digitsValue (nat_digits n) = int n"
proof (induction n rule: nat_digits.induct)
  case (1 n)
  show ?case
  proof (cases "n < 10")
    case True
    then show ?thesis by (auto simp: json_digits_def digitsValue_def isJSONDigit_def nat_digits.simps [of n])
  next
    case False
    with 1 show ?thesis
      by (simp add: nat_digits.simps [of n] json_digits_def digitsValue_def isJSONDigit_def) presburger
  qed
qed

lemma int_token_itoa: "- (2 ^ 63) \<le> i \<Longrightarrow> i < 2 ^ 63 \<Longrightarrow> int_token (itoa i) i"
proof -
  assume i: "- (2 ^ 63) \<le> i" "i < 2 ^ 63"
  note d = nat_digits_value [of "nat (- i)"] nat_digits_value [of "nat i"]
  have "\<not> hasPrefix (nat_digits (nat i)) ''-''"
    using d(2) by (auto simp: hasPrefix_iff json_digits_def isJSONDigit_def)
  with i d have "atoi (itoa i) = Inr i"
    by (auto simp: atoi_def itoa_def Let_def hasPrefix_iff)
  with d show ?thesis
    by (auto simp: int_token_def itoa_def intro: exI [of _ "''-''"] exI [of _ "[] :: bytes"])
qed

lemma wrap64_range: "- (2 ^ 63) \<le> (i + 2 ^ 63) mod 2 ^ 64 - (2 ^ 63 :: int)" "(i + 2 ^ 63) mod 2 ^ 64 - (2 ^ 63 :: int) < 2 ^ 63"
  using pos_mod_sign [of "2 ^ 64 :: int" "i + 2 ^ 63"] pos_mod_bound [of "2 ^ 64 :: int" "i + 2 ^ 63"] by simp_all

section \<open>Compact documents\<close>

text \<open>Objects and arrays without white space, as the adapter writes them: the text behind the opening bracket.\<close>

definition compact_key :: "bytes \<Rightarrow> bytes" where
  "compact_key k = CHR 0x22 # k @ [CHR 0x22, CHR '':'']"

fun compact_members :: "(bytes \<times> bytes) list \<Rightarrow> bytes" where
  "compact_members [] = ''}''"
| "compact_members [(k, v)] = compact_key k @ v @ ''}''"
| "compact_members ((k, v) # m # ms) = compact_key k @ v @ CHR '','' # compact_members (m # ms)"

fun compact_elements :: "bytes list \<Rightarrow> bytes" where
  "compact_elements [] = '']''"
| "compact_elements [v] = v @ '']''"
| "compact_elements (v # w # vs) = v @ CHR '','' # compact_elements (w # vs)"

lemma json_ws_Nil [simp]: "json_ws []"
  by (simp add: json_ws_def)

lemma compact_member: "compact_key k @ v = member_text [] (CHR 0x22 # k @ [CHR 0x22]) [] [] v []"
  by (simp add: compact_key_def member_text_def)

lemma compact_object_doc: "(\<And>k v. (k, v) \<in> set kvs \<Longrightarrow> plain_chars k) \<Longrightarrow> object_doc kvs (compact_members kvs)"
proof (induction kvs rule: compact_members.induct)
  case 1
  then show ?case using object_close [of "[]"] by simp
next
  case (2 k v)
  then have "plain_chars k" by simp
  with object_last [of "[]" "CHR 0x22 # k @ [CHR 0x22]" k "[]" "[]" "[]" v] show ?case
    by (simp add: string_token_plain compact_key_def member_text_def)
next
  case (3 k v m ms)
  then have "object_doc (m # ms) (compact_members (m # ms))" "plain_chars k" by auto
  with object_more [of "[]" "CHR 0x22 # k @ [CHR 0x22]" k "[]" "[]" "[]" "m # ms" _ v] show ?case
    by (simp add: string_token_plain compact_key_def member_text_def)
qed

lemma compact_array_doc: "array_doc vs (compact_elements vs)"
proof (induction vs rule: compact_elements.induct)
  case 1
  then show ?case using array_close [of "[]"] by simp
next
  case (2 v)
  then show ?case using array_last [of "[]" "[]" v] by simp
next
  case (3 v w vs)
  then show ?case using array_more [of "[]" "[]" "w # vs" "compact_elements (w # vs)" v] by simp
qed

section \<open>Looking into a document\<close>

text \<open>A document as a reader sees it: the members of an object, a string, an integer, an object or the objects of an array under a
  key.\<close>

definition reads_object :: "bytes \<Rightarrow> (bytes \<times> bytes) list \<Rightarrow> bool" where
  "reads_object t kvs \<longleftrightarrow> (\<exists>m. t = CHR ''{'' # m \<and> object_doc kvs m)"

definition string_at :: "(bytes \<times> bytes) list \<Rightarrow> bytes \<Rightarrow> bytes \<Rightarrow> bool" where
  "string_at kvs k s \<longleftrightarrow> (\<exists>v. map_of kvs k = Some v \<and> string_token v s)"

definition int_at :: "(bytes \<times> bytes) list \<Rightarrow> bytes \<Rightarrow> int \<Rightarrow> bool" where
  "int_at kvs k i \<longleftrightarrow> (\<exists>v. map_of kvs k = Some v \<and> int_token v i)"

definition object_at :: "(bytes \<times> bytes) list \<Rightarrow> bytes \<Rightarrow> (bytes \<times> bytes) list \<Rightarrow> bool" where
  "object_at kvs k kvs' \<longleftrightarrow> (\<exists>v. map_of kvs k = Some v \<and> reads_object v kvs')"

definition objects_at :: "(bytes \<times> bytes) list \<Rightarrow> bytes \<Rightarrow> (bytes \<times> bytes) list list \<Rightarrow> bool" where
  "objects_at kvs k kvss \<longleftrightarrow> (\<exists>e vs. map_of kvs k = Some (CHR ''['' # e) \<and> array_doc vs e \<and> list_all2 reads_object vs kvss)"

lemma reads_compact: "list_all (\<lambda>(k, v). plain_chars k) kvs \<Longrightarrow> reads_object (CHR ''{'' # compact_members kvs) kvs"
  unfolding reads_object_def by (auto intro!: compact_object_doc simp: list_all_iff)

lemma string_at_quote: "map_of kvs k = Some (quote table s) \<Longrightarrow> string_at kvs k s"
  by (auto simp: string_at_def string_token_quote)

lemma int_at_itoa: "map_of kvs k = Some (itoa i) \<Longrightarrow> - (2 ^ 63) \<le> i \<Longrightarrow> i < 2 ^ 63 \<Longrightarrow> int_at kvs k i"
  using int_token_itoa [of i] by (auto simp: int_at_def)

lemma object_at_compact:
  "map_of kvs k = Some (CHR ''{'' # compact_members kvs') \<Longrightarrow> list_all (\<lambda>(k, v). plain_chars k) kvs' \<Longrightarrow> object_at kvs k kvs'"
  unfolding object_at_def by (intro exI conjI, assumption) (rule reads_compact)

lemma objects_at_compact:
  assumes "map_of kvs k = Some (CHR ''['' # compact_elements (map (\<lambda>o'. CHR ''{'' # compact_members o') kvss))"
    and "list_all (list_all (\<lambda>(k, v). plain_chars k)) kvss"
  shows "objects_at kvs k kvss"
  unfolding objects_at_def
proof (intro exI conjI)
  show "array_doc (map (\<lambda>o'. CHR ''{'' # compact_members o') kvss) (compact_elements (map (\<lambda>o'. CHR ''{'' # compact_members o') kvss))"
    by (rule compact_array_doc)
  show "list_all2 reads_object (map (\<lambda>o'. CHR ''{'' # compact_members o') kvss) kvss"
    using assms(2) by (induction kvss) (auto intro: reads_compact)
qed (rule assms(1))

lemma plain_chars_code: "plain_chars s \<longleftrightarrow> list_all (\<lambda>c. 0x20 \<le> (byte c :: nat) \<and> c \<noteq> CHR 0x22 \<and> c \<noteq> CHR 0x5C) s"
  by (auto simp: plain_chars_def printable_def list_all_iff)

end
