(* ===== verification/Adapter_Text.thy ===== *)
theory Adapter_Text
  imports Adapter_Quote
begin

text \<open>
  The text answer of the Anthropic adapter, the first half of \<open>internal/adapter/anthropic_response_fast.go\<close>: the common answer
  of the Messages API, text blocks only, is read without decoding the document and written as an OpenAI answer. What the parser
  does not recognise it leaves to the general path, so its result \<open>ok\<close> is an option here. The parser is shown to read every
  document of the shape it is written for, however the document is spelled and in whatever order its members stand.
\<close>

section \<open>A text block\<close>

text \<open>The variables are \<open>blockType\<close> and \<open>blockText\<close>.\<close>

definition textBlockField :: "bytes \<Rightarrow> nat \<Rightarrow> bytes \<Rightarrow> bytes \<times> bytes \<Rightarrow> (bytes \<times> bytes) parsed" where
  "textBlockField data idx key block =
     (let (blockType, blockText) = block in
      if key = ''type'' then andThen (scanAdapterJSONString data idx) (\<lambda>(value, next). Inr (Some ((value, blockText), next)))
      else if key = ''text'' then andThen (scanAdapterJSONString data idx) (\<lambda>(value, next). Inr (Some ((blockType, value), next)))
      else andThen (skipAdapterJSONValue data idx) (\<lambda>next. Inr (Some (block, next))))"

lemma textBlockField_forward: "field_forward textBlockField"
  by (intro allI reads_forwardI)
     (auto simp: textBlockField_def andThen_Inr_iff split: if_splits prod.splits
      dest: scanJSONString_progress skipAdapterJSONValue_progress)

definition textBlockClose :: "bytes \<times> bytes \<Rightarrow> nat \<Rightarrow> bytes parsed" where
  "textBlockClose block idx =
     (let (blockType, blockText) = block in if blockType \<noteq> ''text'' then Inr None else Inr (Some (blockText, idx + 1)))"

text \<open>What the parsers return when a turn leaves the loop without a closing bracket.\<close>

definition parseStop :: "adapter_error option \<Rightarrow> 'a parsed" where
  "parseStop e = (case e of None \<Rightarrow> Inr None | Some e \<Rightarrow> Inl e)"

function textBlockLoop :: "bytes \<Rightarrow> nat \<Rightarrow> bytes \<times> bytes \<Rightarrow> bytes parsed" where
  "textBlockLoop data idx block =
     (case objectTurn textBlockField data idx block of
        TurnError e \<Rightarrow> parseStop (Some e)
      | NotThisShape \<Rightarrow> parseStop None
      | CloseAt block idx \<Rightarrow> textBlockClose block idx
      | GoOn block idx \<Rightarrow> textBlockLoop data idx block)"
  by pat_completeness auto
termination textBlockLoop
  by (relation "measure (\<lambda>(data, idx, b). length data - idx)") (simp_all add: objectTurn_less [OF textBlockField_forward])

declare textBlockLoop.simps [simp del]

interpretation text_block: object_loop textBlockField textBlockLoop textBlockClose parseStop
  by unfold_locales (use textBlockField_forward in blast, rule textBlockLoop.simps)

definition parseAnthropicTextBlock :: "bytes \<Rightarrow> nat \<Rightarrow> bytes parsed" where
  "parseAnthropicTextBlock data idx =
     (if idx \<ge> length data \<or> data ! idx \<noteq> CHR ''{'' then Inr None else textBlockLoop data (idx + 1) ([], []))"

lemma parseStop_Some [simp]: "parseStop e \<noteq> Inr (Some x)" "Inr (Some x) \<noteq> parseStop e"
  by (simp_all add: parseStop_def split: option.split)

lemma parseAnthropicTextBlock_progress:
  "parseAnthropicTextBlock data idx = Inr (Some (t, n)) \<Longrightarrow> idx < n \<and> n \<le> length data"
  using text_block.loop_result [of data "idx + 1" "([], [])"]
  by (auto simp: parseAnthropicTextBlock_def textBlockClose_def split: if_splits prod.splits)

section \<open>The content array\<close>

text \<open>The variables \<open>text\<close>, \<open>builder\<close> and \<open>multi\<close> of the loop.\<close>

record content_text =
  ct_text :: bytes
  ct_builder :: bytes
  ct_multi :: bool

definition addBlockText :: "bytes \<Rightarrow> content_text \<Rightarrow> content_text" where
  "addBlockText blockText c =
     (if \<not> ct_multi c \<and> ct_text c = [] then c\<lparr>ct_text := blockText\<rparr>
      else
        (let c = (if \<not> ct_multi c then c\<lparr>ct_builder := ct_builder c @ ct_text c, ct_multi := True\<rparr> else c)
         in c\<lparr>ct_builder := ct_builder c @ blockText\<rparr>))"

definition finalText :: "content_text \<Rightarrow> bytes" where
  "finalText c = (if ct_multi c then ct_builder c else ct_text c)"

definition contentElement :: "bytes \<Rightarrow> nat \<Rightarrow> content_text \<Rightarrow> content_text parsed" where
  "contentElement data idx c =
     andThen (parseAnthropicTextBlock data idx) (\<lambda>r. Inr (map_option (\<lambda>(blockText, next). (addBlockText blockText c, next)) r))"

lemma contentElement_forward: "reads_forward contentElement"
  by (rule reads_forwardI) (auto simp: contentElement_def andThen_Inr_iff dest: parseAnthropicTextBlock_progress)

function contentArrayLoop :: "bytes \<Rightarrow> nat \<Rightarrow> content_text \<Rightarrow> bytes parsed" where
  "contentArrayLoop data idx c =
     (case arrayTurn contentElement data idx c of
        TurnError e \<Rightarrow> parseStop (Some e)
      | NotThisShape \<Rightarrow> parseStop None
      | CloseAt c idx \<Rightarrow> Inr (Some (finalText c, idx + 1))
      | GoOn c idx \<Rightarrow> contentArrayLoop data idx c)"
  by pat_completeness auto
termination contentArrayLoop
  by (relation "measure (\<lambda>(data, idx, c). length data - idx)") (simp_all add: arrayTurn_less [OF contentElement_forward])

declare contentArrayLoop.simps [simp del]

interpretation content_array: array_loop contentElement contentArrayLoop "\<lambda>c idx. Inr (Some (finalText c, idx + 1))" parseStop
  by unfold_locales (rule contentElement_forward, rule contentArrayLoop.simps)

definition noText :: content_text where
  "noText = \<lparr>ct_text = [], ct_builder = [], ct_multi = False\<rparr>"

definition parseAnthropicTextContentArray :: "bytes \<Rightarrow> nat \<Rightarrow> bytes parsed" where
  "parseAnthropicTextContentArray data idx =
     (if idx \<ge> length data \<or> data ! idx \<noteq> CHR ''['' then Inr None else contentArrayLoop data (idx + 1) noText)"

lemma parseAnthropicTextContentArray_progress:
  "parseAnthropicTextContentArray data idx = Inr (Some (t, n)) \<Longrightarrow> idx < n \<and> n \<le> length data"
  using content_array.loop_result [of data "idx + 1" noText] by (auto simp: parseAnthropicTextContentArray_def split: if_splits)

section \<open>The usage object\<close>

record usage_counts =
  uc_input :: int
  uc_output :: int
  uc_haveInput :: bool
  uc_haveOutput :: bool

definition usageField :: "bytes \<Rightarrow> nat \<Rightarrow> bytes \<Rightarrow> usage_counts \<Rightarrow> usage_counts parsed" where
  "usageField data idx key u =
     (if key = ''input_tokens'' then
        andThen (scanAdapterJSONInt data idx) (\<lambda>(value, next). Inr (Some (u\<lparr>uc_input := value, uc_haveInput := True\<rparr>, next)))
      else if key = ''output_tokens'' then
        andThen (scanAdapterJSONInt data idx) (\<lambda>(value, next). Inr (Some (u\<lparr>uc_output := value, uc_haveOutput := True\<rparr>, next)))
      else andThen (skipAdapterJSONValue data idx) (\<lambda>next. Inr (Some (u, next))))"

lemma usageField_forward: "field_forward usageField"
  by (intro allI reads_forwardI)
     (auto simp: usageField_def andThen_Inr_iff split: if_splits dest: scanAdapterJSONInt_progress skipAdapterJSONValue_progress)

definition usageClose :: "usage_counts \<Rightarrow> nat \<Rightarrow> (int \<times> int) parsed" where
  "usageClose u idx = (if uc_haveInput u \<and> uc_haveOutput u then Inr (Some ((uc_input u, uc_output u), idx + 1)) else Inr None)"

function usageLoop :: "bytes \<Rightarrow> nat \<Rightarrow> usage_counts \<Rightarrow> (int \<times> int) parsed" where
  "usageLoop data idx u =
     (case objectTurn usageField data idx u of
        TurnError e \<Rightarrow> parseStop (Some e)
      | NotThisShape \<Rightarrow> parseStop None
      | CloseAt u idx \<Rightarrow> usageClose u idx
      | GoOn u idx \<Rightarrow> usageLoop data idx u)"
  by pat_completeness auto
termination usageLoop
  by (relation "measure (\<lambda>(data, idx, u). length data - idx)") (simp_all add: objectTurn_less [OF usageField_forward])

declare usageLoop.simps [simp del]

interpretation usage_object: object_loop usageField usageLoop usageClose parseStop
  by unfold_locales (use usageField_forward in blast, rule usageLoop.simps)

definition noUsage :: usage_counts where
  "noUsage = \<lparr>uc_input = 0, uc_output = 0, uc_haveInput = False, uc_haveOutput = False\<rparr>"

definition parseAnthropicUsageObject :: "bytes \<Rightarrow> nat \<Rightarrow> (int \<times> int) parsed" where
  "parseAnthropicUsageObject data idx =
     (if idx \<ge> length data \<or> data ! idx \<noteq> CHR ''{'' then Inr None else usageLoop data (idx + 1) noUsage)"

lemma parseAnthropicUsageObject_progress:
  "parseAnthropicUsageObject data idx = Inr (Some (t, n)) \<Longrightarrow> idx < n \<and> n \<le> length data"
  using usage_object.loop_result [of data "idx + 1" noUsage]
  by (auto simp: parseAnthropicUsageObject_def usageClose_def split: if_splits)

section \<open>The answer\<close>

record anthropicTextOnlyResponse =
  tr_ID :: bytes
  tr_Model :: bytes
  tr_Text :: bytes
  tr_StopReason :: bytes
  tr_InputTokens :: int
  tr_OutputTokens :: int

record answer_fields =
  af_resp :: anthropicTextOnlyResponse
  af_haveID :: bool
  af_haveModel :: bool
  af_haveContent :: bool
  af_haveUsage :: bool

definition answerField :: "bytes \<Rightarrow> nat \<Rightarrow> bytes \<Rightarrow> answer_fields \<Rightarrow> answer_fields parsed" where
  "answerField data idx key a =
     (if key = ''id'' then
        andThen (scanAdapterJSONString data idx) (\<lambda>(value, next).
          Inr (Some (a\<lparr>af_resp := (af_resp a)\<lparr>tr_ID := value\<rparr>, af_haveID := True\<rparr>, next)))
      else if key = ''model'' then
        andThen (scanAdapterJSONString data idx) (\<lambda>(value, next).
          Inr (Some (a\<lparr>af_resp := (af_resp a)\<lparr>tr_Model := value\<rparr>, af_haveModel := True\<rparr>, next)))
      else if key = ''stop_reason'' then
        andThen (scanAdapterJSONStringOrNull data idx) (\<lambda>(value, next).
          Inr (Some (a\<lparr>af_resp := (af_resp a)\<lparr>tr_StopReason := value\<rparr>\<rparr>, next)))
      else if key = ''content'' then
        andThen (parseAnthropicTextContentArray data idx) (\<lambda>r. Inr (map_option (\<lambda>(text, next).
          (a\<lparr>af_resp := (af_resp a)\<lparr>tr_Text := text\<rparr>, af_haveContent := True\<rparr>, next)) r))
      else if key = ''usage'' then
        andThen (parseAnthropicUsageObject data idx) (\<lambda>r. Inr (map_option (\<lambda>((input, output), next).
          (a\<lparr>af_resp := (af_resp a)\<lparr>tr_InputTokens := input, tr_OutputTokens := output\<rparr>, af_haveUsage := True\<rparr>, next)) r))
      else if key = ''error'' then Inr None
      else andThen (skipAdapterJSONValue data idx) (\<lambda>next. Inr (Some (a, next))))"

lemma answerField_forward: "field_forward answerField"
proof (intro allI reads_forwardI)
  fix key data idx a a' n
  assume "answerField data idx key a = Inr (Some (a', n))"
  then have "(\<exists>v. scanJSONString data idx = Inr (v, n)) \<or> (\<exists>v. scanAdapterJSONStringOrNull data idx = Inr (v, n)) \<or>
      (\<exists>v. parseAnthropicTextContentArray data idx = Inr (Some (v, n))) \<or>
      (\<exists>v. parseAnthropicUsageObject data idx = Inr (Some (v, n))) \<or> skipAdapterJSONValue data idx = Inr n"
    unfolding answerField_def by (simp add: andThen_Inr_iff split: if_split_asm) force+
  then show "idx < n \<and> n \<le> length data"
    by (elim disjE exE)
       (drule scanJSONString_progress scanAdapterJSONStringOrNull_progress parseAnthropicTextContentArray_progress
          parseAnthropicUsageObject_progress skipAdapterJSONValue_progress, simp)+
qed

definition answerClose :: "answer_fields \<Rightarrow> nat \<Rightarrow> anthropicTextOnlyResponse option" where
  "answerClose a idx =
     (if \<not> af_haveID a \<or> \<not> af_haveModel a \<or> \<not> af_haveContent a \<or> \<not> af_haveUsage a then None else Some (af_resp a))"

text \<open>The error result of the source is always \<open>nil\<close>: an answer that is not of the shape gives \<open>None\<close>.\<close>

function answerLoop :: "bytes \<Rightarrow> nat \<Rightarrow> answer_fields \<Rightarrow> anthropicTextOnlyResponse option" where
  "answerLoop data idx a =
     (case objectTurn answerField data idx a of
        TurnError _ \<Rightarrow> None
      | NotThisShape \<Rightarrow> None
      | CloseAt a idx \<Rightarrow> answerClose a idx
      | GoOn a idx \<Rightarrow> answerLoop data idx a)"
  by pat_completeness auto
termination answerLoop
  by (relation "measure (\<lambda>(data, idx, a). length data - idx)") (simp_all add: objectTurn_less [OF answerField_forward])

declare answerLoop.simps [simp del]

interpretation answer_object: object_loop answerField answerLoop answerClose "\<lambda>_. None"
  by unfold_locales (use answerField_forward in blast, rule answerLoop.simps)

definition emptyAnswer :: answer_fields where
  "emptyAnswer =
     \<lparr>af_resp = \<lparr>tr_ID = [], tr_Model = [], tr_Text = [], tr_StopReason = [], tr_InputTokens = 0, tr_OutputTokens = 0\<rparr>,
      af_haveID = False, af_haveModel = False, af_haveContent = False, af_haveUsage = False\<rparr>"

definition parseAnthropicTextOnlyResponse :: "bytes \<Rightarrow> anthropicTextOnlyResponse option" where
  "parseAnthropicTextOnlyResponse data =
     (let idx = skipAdapterJSONWhitespace data 0 in
      if idx \<ge> length data \<or> data ! idx \<noteq> CHR ''{'' then None
      else answerLoop data (idx + 1) emptyAnswer)"

text \<open>The sum of two \<open>int\<close> values wraps at 64 bits.\<close>

definition wrap64 :: "int \<Rightarrow> int" where
  "wrap64 i = (i + 2 ^ 63) mod 2 ^ 64 - 2 ^ 63"

definition textCompletion :: "(nat \<Rightarrow> bool) \<Rightarrow> int \<Rightarrow> anthropicTextOnlyResponse \<Rightarrow> bytes" where
  "textCompletion table created resp =
     ticked ''{`id`:'' @ quote table (tr_ID resp) @
     ticked '',`object`:`chat.completion`,`created`:'' @ itoa created @
     ticked '',`model`:'' @ quote table (tr_Model resp) @
     ticked '',`choices`:[{`index`:0,`message`:{`role`:`assistant`,`content`:'' @ quote table (tr_Text resp) @
     ticked ''},`finish_reason`:'' @ quote table (stopReasonToFinishReason (tr_StopReason resp)) @
     ticked ''}],`usage`:{`prompt_tokens`:'' @ itoa (tr_InputTokens resp) @
     ticked '',`completion_tokens`:'' @ itoa (tr_OutputTokens resp) @
     ticked '',`total_tokens`:'' @ itoa (wrap64 (tr_InputTokens resp + tr_OutputTokens resp)) @
     ''}}''"

definition translateAnthropicTextOnlyToOpenAI :: "(nat \<Rightarrow> bool) \<Rightarrow> int \<Rightarrow> bytes \<Rightarrow> bytes option" where
  "translateAnthropicTextOnlyToOpenAI table created data =
     (if contains data (ticked ''`tool_use`'') \<or> contains data (ticked ''`error`'') then None
      else map_option (textCompletion table created) (parseAnthropicTextOnlyResponse data))"

section \<open>Documents of the text answer\<close>

text \<open>
  The members of a block, of the usage object and of the answer, each with the texts that spell it and with its effect. A member
  that stands twice counts the second time.
\<close>

datatype block_member = BlockType bytes | BlockText bytes | BlockOther bytes

fun spells_block_member :: "block_member \<Rightarrow> bytes \<times> bytes \<Rightarrow> bool" where
  "spells_block_member (BlockType s) (k, v) \<longleftrightarrow> k = ''type'' \<and> string_token v s"
| "spells_block_member (BlockText s) (k, v) \<longleftrightarrow> k = ''text'' \<and> string_token v s"
| "spells_block_member (BlockOther key) (k, v) \<longleftrightarrow> k = key \<and> key \<notin> {''type'', ''text''} \<and> plain_value v"

fun block_effect :: "block_member \<Rightarrow> bytes \<times> bytes \<Rightarrow> bytes \<times> bytes" where
  "block_effect (BlockType s) (ty, tx) = (s, tx)"
| "block_effect (BlockText s) (ty, tx) = (ty, s)"
| "block_effect (BlockOther key) b = b"

definition spells_text_block :: "bytes \<Rightarrow> bytes \<Rightarrow> bool" where
  "spells_text_block t v \<longleftrightarrow> (\<exists>bs kvs m. v = CHR ''{'' # m \<and> object_doc kvs m \<and> list_all2 spells_block_member bs kvs \<and>
     fold block_effect bs ([], []) = (''text'', t))"

datatype usage_member = InputTokens int | OutputTokens int | UsageOther bytes

fun spells_usage_member :: "usage_member \<Rightarrow> bytes \<times> bytes \<Rightarrow> bool" where
  "spells_usage_member (InputTokens i) (k, v) \<longleftrightarrow> k = ''input_tokens'' \<and> int_token v i"
| "spells_usage_member (OutputTokens i) (k, v) \<longleftrightarrow> k = ''output_tokens'' \<and> int_token v i"
| "spells_usage_member (UsageOther key) (k, v) \<longleftrightarrow> k = key \<and> key \<notin> {''input_tokens'', ''output_tokens''} \<and> plain_value v"

fun usage_effect :: "usage_member \<Rightarrow> usage_counts \<Rightarrow> usage_counts" where
  "usage_effect (InputTokens i) u = u\<lparr>uc_input := i, uc_haveInput := True\<rparr>"
| "usage_effect (OutputTokens i) u = u\<lparr>uc_output := i, uc_haveOutput := True\<rparr>"
| "usage_effect (UsageOther key) u = u"

definition spells_usage :: "int \<Rightarrow> int \<Rightarrow> bytes \<Rightarrow> bool" where
  "spells_usage i j v \<longleftrightarrow> (\<exists>us kvs m. v = CHR ''{'' # m \<and> object_doc kvs m \<and> list_all2 spells_usage_member us kvs \<and>
     fold usage_effect us noUsage = \<lparr>uc_input = i, uc_output = j, uc_haveInput = True, uc_haveOutput = True\<rparr>)"

datatype answer_member =
    IdMember bytes
  | ModelMember bytes
  | StopMember "bytes option"
  | ContentMember "bytes list"
  | UsageMember int int
  | OtherMember bytes

fun spells_answer_member :: "answer_member \<Rightarrow> bytes \<times> bytes \<Rightarrow> bool" where
  "spells_answer_member (IdMember s) (k, v) \<longleftrightarrow> k = ''id'' \<and> string_token v s"
| "spells_answer_member (ModelMember s) (k, v) \<longleftrightarrow> k = ''model'' \<and> string_token v s"
| "spells_answer_member (StopMember s) (k, v) \<longleftrightarrow> k = ''stop_reason'' \<and> (case s of None \<Rightarrow> v = ''null'' | Some s \<Rightarrow> string_token v s)"
| "spells_answer_member (ContentMember ts) (k, v) \<longleftrightarrow>
     k = ''content'' \<and> (\<exists>vs e. v = CHR ''['' # e \<and> array_doc vs e \<and> list_all2 spells_text_block ts vs)"
| "spells_answer_member (UsageMember i j) (k, v) \<longleftrightarrow> k = ''usage'' \<and> spells_usage i j v"
| "spells_answer_member (OtherMember key) (k, v) \<longleftrightarrow>
     k = key \<and> key \<notin> {''id'', ''model'', ''stop_reason'', ''content'', ''usage'', ''error''} \<and> plain_value v"

fun answer_effect :: "answer_member \<Rightarrow> anthropicTextOnlyResponse \<Rightarrow> anthropicTextOnlyResponse" where
  "answer_effect (IdMember s) r = r\<lparr>tr_ID := s\<rparr>"
| "answer_effect (ModelMember s) r = r\<lparr>tr_Model := s\<rparr>"
| "answer_effect (StopMember s) r = r\<lparr>tr_StopReason := (case s of None \<Rightarrow> [] | Some s \<Rightarrow> s)\<rparr>"
| "answer_effect (ContentMember ts) r = r\<lparr>tr_Text := concat ts\<rparr>"
| "answer_effect (UsageMember i j) r = r\<lparr>tr_InputTokens := i, tr_OutputTokens := j\<rparr>"
| "answer_effect (OtherMember key) r = r"

text \<open>The four members the answer must have.\<close>

definition complete_answer :: "answer_member list \<Rightarrow> bool" where
  "complete_answer doc \<longleftrightarrow> (\<exists>s. IdMember s \<in> set doc) \<and> (\<exists>s. ModelMember s \<in> set doc) \<and> (\<exists>ts. ContentMember ts \<in> set doc) \<and>
     (\<exists>i j. UsageMember i j \<in> set doc)"

section \<open>Reading them\<close>

lemma reads_string:
  "string_token v x \<Longrightarrow>
    reads_value (\<lambda>data idx s. andThen (scanAdapterJSONString data idx) (\<lambda>(value, next). Inr (Some (g value s, next)))) v s (g x s)"
  using string_token_shape [of v x] by (auto simp: reads_value_def value_start_def scanJSONString_complete)

lemma reads_int:
  "int_token v x \<Longrightarrow>
    reads_value (\<lambda>data idx s. andThen (scanAdapterJSONInt data idx) (\<lambda>(value, next). Inr (Some (g value s, next)))) v s (g x s)"
  using int_token_start [of v x] by (auto simp: reads_value_def value_start_def scanAdapterJSONInt_complete)

lemma reads_skipped:
  "plain_value v \<Longrightarrow> reads_value (\<lambda>data idx s. andThen (skipAdapterJSONValue data idx) (\<lambda>next. Inr (Some (s, next)))) v s s"
  using plain_value_start [of v] by (auto simp: reads_value_def skipAdapterJSONValue_complete)

lemma reads_members_fold:
  assumes "list_all2 spells doc kvs"
    and "\<And>x k v s. spells x (k, v) \<Longrightarrow> reads_value (\<lambda>data idx. field data idx k) v s (effect x s)"
  shows "reads_members field kvs s (fold effect doc s)"
  using assms(1)
proof (induction arbitrary: s rule: list_all2_induct)
  case (Cons x xs y ys)
  then show ?case using assms(2) by (cases y) fastforce
qed simp

lemma reads_elements_fold:
  assumes "list_all2 spells doc vs" and "\<And>x v s. spells x v \<Longrightarrow> reads_value element v s (effect x s)"
  shows "reads_elements element vs s (fold effect doc s)"
  using assms(1) by (induction arbitrary: s rule: list_all2_induct) (use assms(2) in fastforce)+

lemma block_member_reads:
  "spells_block_member x (k, v) \<Longrightarrow> reads_value (\<lambda>data idx. textBlockField data idx k) v s (block_effect x s)"
proof (cases x)
  case (BlockType t)
  assume "spells_block_member x (k, v)"
  with BlockType have "string_token v t" "k = ''type''" by simp_all
  then show ?thesis
    using reads_string [of v t "\<lambda>value s. (value, snd s)" s] BlockType
    by (cases s) (simp add: textBlockField_def [abs_def] case_prod_beta)
next
  case (BlockText t)
  assume "spells_block_member x (k, v)"
  with BlockText have "string_token v t" "k = ''text''" by simp_all
  then show ?thesis
    using reads_string [of v t "\<lambda>value s. (fst s, value)" s] BlockText
    by (cases s) (simp add: textBlockField_def [abs_def] case_prod_beta)
next
  case (BlockOther key)
  assume "spells_block_member x (k, v)"
  with BlockOther show ?thesis
    using reads_skipped [of v s] by (simp add: textBlockField_def [abs_def] case_prod_beta)
qed

lemma text_block_reads:
  assumes "spells_text_block t v" "value_end r"
  shows "parseAnthropicTextBlock (p @ v @ r) (length p) = Inr (Some (t, length p + length v))"
proof -
  from assms(1) obtain bs kvs m where v: "v = CHR ''{'' # m" "object_doc kvs m" "list_all2 spells_block_member bs kvs"
    "fold block_effect bs ([], []) = (''text'', t)" by (auto simp: spells_text_block_def)
  have "reads_members textBlockField kvs ([], []) (fold block_effect bs ([], []))"
    by (rule reads_members_fold [OF v(3)]) (rule block_member_reads)
  from text_block.loop_reads [OF v(2) this, of "p @ ''{''" r] show ?thesis
    using nth_after [of "v @ r" p] text_nonempty(1) [OF v(2)] by (simp add: parseAnthropicTextBlock_def v textBlockClose_def)
qed

lemma usage_member_reads:
  "spells_usage_member x (k, v) \<Longrightarrow> reads_value (\<lambda>data idx. usageField data idx k) v s (usage_effect x s)"
proof (cases x)
  case (InputTokens i)
  assume "spells_usage_member x (k, v)"
  with InputTokens show ?thesis
    using reads_int [of v i "\<lambda>value u. u\<lparr>uc_input := value, uc_haveInput := True\<rparr>" s] by (simp add: usageField_def [abs_def])
next
  case (OutputTokens i)
  assume "spells_usage_member x (k, v)"
  with OutputTokens show ?thesis
    using reads_int [of v i "\<lambda>value u. u\<lparr>uc_output := value, uc_haveOutput := True\<rparr>" s] by (simp add: usageField_def [abs_def])
next
  case (UsageOther key)
  assume "spells_usage_member x (k, v)"
  with UsageOther show ?thesis using reads_skipped [of v s] by (simp add: usageField_def [abs_def])
qed

lemma usage_reads:
  assumes "spells_usage i j v"
  shows "parseAnthropicUsageObject (p @ v @ r) (length p) = Inr (Some ((i, j), length p + length v))"
proof -
  from assms(1) obtain us kvs m where v: "v = CHR ''{'' # m" "object_doc kvs m" "list_all2 spells_usage_member us kvs"
    "fold usage_effect us noUsage = \<lparr>uc_input = i, uc_output = j, uc_haveInput = True, uc_haveOutput = True\<rparr>"
    by (auto simp: spells_usage_def)
  have "reads_members usageField kvs noUsage (fold usage_effect us noUsage)"
    by (rule reads_members_fold [OF v(3)]) (rule usage_member_reads)
  from usage_object.loop_reads [OF v(2) this, of "p @ ''{''" r] show ?thesis
    using nth_after [of "v @ r" p] text_nonempty(1) [OF v(2)] by (simp add: parseAnthropicUsageObject_def v usageClose_def)
qed

text \<open>The builder concatenates the blocks, whichever of its variables holds the text.\<close>

lemma finalText_fold: "ct_multi c \<or> ct_builder c = [] \<Longrightarrow> finalText (fold addBlockText ts c) = finalText c @ concat ts"
proof (induction ts arbitrary: c)
  case (Cons t ts)
  have "ct_multi (addBlockText t c) \<or> ct_builder (addBlockText t c) = []" "finalText (addBlockText t c) = finalText c @ t"
    using Cons.prems by (auto simp: addBlockText_def finalText_def Let_def)
  with Cons.IH [of "addBlockText t c"] show ?case by simp
qed simp

lemma content_reads:
  assumes "array_doc vs e" "list_all2 spells_text_block ts vs"
  shows "parseAnthropicTextContentArray (p @ (CHR ''['' # e) @ r) (length p) = Inr (Some (concat ts, length p + length (CHR ''['' # e)))"
proof -
  have el: "reads_value contentElement v c (addBlockText t c)" if "spells_text_block t v" for t v c
    using text_block_reads [OF that] that by (auto simp: reads_value_def contentElement_def spells_text_block_def value_start_def)
  have "reads_elements contentElement vs noText (fold addBlockText ts noText)"
    by (rule reads_elements_fold [OF assms(2)]) (rule el)
  from content_array.loop_reads [OF assms(1) this, of "p @ ''[''" r] show ?thesis
    using nth_after [of "(CHR ''['' # e) @ r" p] text_nonempty(2) [OF assms(1)]
    by (simp add: parseAnthropicTextContentArray_def finalText_fold noText_def) (simp add: finalText_def)
qed

text \<open>The flags and the answer that a document leaves behind.\<close>

fun member_effect :: "answer_member \<Rightarrow> answer_fields \<Rightarrow> answer_fields" where
  "member_effect (IdMember s) a = a\<lparr>af_resp := answer_effect (IdMember s) (af_resp a), af_haveID := True\<rparr>"
| "member_effect (ModelMember s) a = a\<lparr>af_resp := answer_effect (ModelMember s) (af_resp a), af_haveModel := True\<rparr>"
| "member_effect (StopMember s) a = a\<lparr>af_resp := answer_effect (StopMember s) (af_resp a)\<rparr>"
| "member_effect (ContentMember ts) a = a\<lparr>af_resp := answer_effect (ContentMember ts) (af_resp a), af_haveContent := True\<rparr>"
| "member_effect (UsageMember i j) a = a\<lparr>af_resp := answer_effect (UsageMember i j) (af_resp a), af_haveUsage := True\<rparr>"
| "member_effect (OtherMember key) a = a"

lemma answer_member_reads:
  assumes "spells_answer_member x (k, v)"
  shows "reads_value (\<lambda>data idx. answerField data idx k) v s (member_effect x s)"
proof (cases x)
  case (IdMember t)
  with assms show ?thesis
    using reads_string [of v t "\<lambda>value a. a\<lparr>af_resp := (af_resp a)\<lparr>tr_ID := value\<rparr>, af_haveID := True\<rparr>" s]
    by (simp add: answerField_def [abs_def])
next
  case (ModelMember t)
  with assms show ?thesis
    using reads_string [of v t "\<lambda>value a. a\<lparr>af_resp := (af_resp a)\<lparr>tr_Model := value\<rparr>, af_haveModel := True\<rparr>" s]
    by (simp add: answerField_def [abs_def])
next
  case (StopMember t)
  have start: "v \<noteq> [] \<and> value_start (hd v)"
    using assms StopMember string_token_shape by (auto simp: value_start_def split: option.splits)
  have "scanAdapterJSONStringOrNull (p @ v @ r) (length p) = Inr (case t of None \<Rightarrow> [] | Some t \<Rightarrow> t, length p + length v)" for p r
  proof -
    have hd: "(p @ v @ r) ! length p = hd v" using nth_after [of "v @ r" p] start by simp
    then show ?thesis
      using assms StopMember scanJSONString_complete [of v _ p r] skipJSONLiteral_complete [of p v r] string_token_shape [of v]
      by (auto simp: scanAdapterJSONStringOrNull_def split: option.splits)
  qed
  with start assms StopMember show ?thesis by (simp add: reads_value_def answerField_def)
next
  case (ContentMember ts)
  with assms obtain vs e where v: "v = CHR ''['' # e" "array_doc vs e" "list_all2 spells_text_block ts vs" "k = ''content''" by auto
  show ?thesis
    using content_reads [OF v(2,3)] by (simp add: reads_value_def answerField_def v(1,4) ContentMember value_start_def)
next
  case (UsageMember i j)
  with assms have v: "spells_usage i j v" "k = ''usage''" by auto
  then have "v \<noteq> [] \<and> value_start (hd v)" by (auto simp: spells_usage_def value_start_def)
  then show ?thesis
    using usage_reads [OF v(1)] by (simp add: reads_value_def answerField_def v(2) UsageMember)
next
  case (OtherMember key)
  with assms show ?thesis using reads_skipped [of v s] by (simp add: answerField_def [abs_def])
qed

lemma member_effect_fold:
  "af_resp (fold member_effect doc a) = fold answer_effect doc (af_resp a)"
  "af_haveID (fold member_effect doc a) \<longleftrightarrow> af_haveID a \<or> (\<exists>s. IdMember s \<in> set doc)"
  "af_haveModel (fold member_effect doc a) \<longleftrightarrow> af_haveModel a \<or> (\<exists>s. ModelMember s \<in> set doc)"
  "af_haveContent (fold member_effect doc a) \<longleftrightarrow> af_haveContent a \<or> (\<exists>ts. ContentMember ts \<in> set doc)"
  "af_haveUsage (fold member_effect doc a) \<longleftrightarrow> af_haveUsage a \<or> (\<exists>i j. UsageMember i j \<in> set doc)"
proof (induction doc arbitrary: a)
  case (Cons x doc)
  { case 1 show ?case using Cons.IH(1) by (cases x) simp_all }
  { case 2 show ?case using Cons.IH(2) by (cases x) auto }
  { case 3 show ?case using Cons.IH(3) by (cases x) auto }
  { case 4 show ?case using Cons.IH(4) by (cases x) auto }
  { case 5 show ?case using Cons.IH(5) by (cases x) auto }
qed simp_all

lemma parse_document:
  assumes "json_ws w" "object_doc kvs m" "list_all2 spells_answer_member doc kvs"
  shows "parseAnthropicTextOnlyResponse (w @ CHR ''{'' # m @ rest) =
    (if complete_answer doc then Some (fold answer_effect doc (af_resp emptyAnswer)) else None)"
proof -
  have "reads_members answerField kvs emptyAnswer (fold member_effect doc emptyAnswer)"
    by (rule reads_members_fold [OF assms(3)]) (rule answer_member_reads)
  from answer_object.loop_reads [OF assms(2) this, of "w @ ''{''" rest]
  have "answerLoop (w @ CHR ''{'' # m @ rest) (length w + 1) emptyAnswer =
      (if complete_answer doc then Some (fold answer_effect doc (af_resp emptyAnswer)) else None)"
    by (simp add: answerClose_def member_effect_fold complete_answer_def) (auto simp: emptyAnswer_def)
  then show ?thesis
    using skipJSONWhitespace_complete [OF assms(1), of "CHR ''{'' # m @ rest" "[]"] nth_after [of "CHR ''{'' # m @ rest" w]
    by (simp add: parseAnthropicTextOnlyResponse_def no_space_ahead_def isJSONSpace_def)
qed


text \<open>A text in quotes, and a document with two blocks, one of them with its members in the other order.\<close>

abbreviation quoted :: "bytes \<Rightarrow> bytes" where
  "quoted s \<equiv> CHR 0x22 # s @ [CHR 0x22]"

definition demoBlocks :: "bytes list" where
  "demoBlocks = [CHR ''{'' # compact_members [(''type'', quoted ''text''), (''text'', quoted ''a'')],
     CHR ''{'' # compact_members [(''text'', quoted ''b''), (''type'', quoted ''text'')]]"

definition demoUsage :: bytes where
  "demoUsage = CHR ''{'' # compact_members [(''input_tokens'', ''7''), (''output_tokens'', ''2'')]"

definition demoMembers :: "(bytes \<times> bytes) list" where
  "demoMembers = [(''id'', quoted ''m1''), (''type'', quoted ''message''), (''content'', CHR ''['' # compact_elements demoBlocks),
     (''usage'', demoUsage), (''model'', quoted ''c3'')]"

definition demoAnswer :: bytes where
  "demoAnswer = CHR ''{'' # compact_members demoMembers"

lemma spells_text_block_compact:
  assumes "(kvs, bs) \<in> {([(''type'', quoted ''text''), (''text'', quoted t)], [BlockType ''text'', BlockText t]),
    ([(''text'', quoted t), (''type'', quoted ''text'')], [BlockText t, BlockType ''text''])}" "plain_chars t"
  shows "spells_text_block t (CHR ''{'' # compact_members kvs)"
  unfolding spells_text_block_def
proof (intro exI conjI)
  show "object_doc kvs (compact_members kvs)" by (rule compact_object_doc) (use assms in \<open>auto simp: plain_chars_code\<close>)
  show "list_all2 spells_block_member bs kvs" using assms string_token_plain [of t] string_token_plain [of "''text''"]
    by (auto simp: plain_chars_code)
  show "fold block_effect bs ([], []) = (''text'', t)" using assms by auto
qed simp

lemma demo_usage: "spells_usage 7 2 demoUsage"
  unfolding spells_usage_def
proof (intro exI conjI)
  show "object_doc [(''input_tokens'', ''7''), (''output_tokens'', ''2'')] (compact_members [(''input_tokens'', ''7''), (''output_tokens'', ''2'')])"
    by (rule compact_object_doc) (auto simp: plain_chars_code)
  have "int_token (itoa 7) 7" "int_token (itoa 2) 2" by (rule int_token_itoa; simp)+
  moreover have "itoa 7 = ''7''" "itoa 2 = ''2''" by code_simp+
  ultimately show "list_all2 spells_usage_member [InputTokens 7, OutputTokens 2] [(''input_tokens'', ''7''), (''output_tokens'', ''2'')]"
    by simp
qed (simp_all add: demoUsage_def noUsage_def)

lemma demo_document:
  "object_doc demoMembers (compact_members demoMembers)"
  "list_all2 spells_answer_member [IdMember ''m1'', OtherMember ''type'', ContentMember [''a'', ''b''], UsageMember 7 2, ModelMember ''c3'']
     demoMembers"
proof -
  show "object_doc demoMembers (compact_members demoMembers)"
    by (rule compact_object_doc) (auto simp: demoMembers_def plain_chars_code)
  have s: "string_token (quoted t) t" if "t \<in> {''m1'', ''c3'', ''message''}" for t
    using that by (intro string_token_plain) (auto simp: plain_chars_code)
  have "list_all2 spells_text_block [''a'', ''b''] demoBlocks"
    unfolding demoBlocks_def list_all2_Cons list_all2_Nil
    by (intro conjI refl; rule spells_text_block_compact) (auto simp: plain_chars_code)
  moreover have "array_doc demoBlocks (compact_elements demoBlocks)" by (rule compact_array_doc)
  moreover have "string_token (quoted ''m1'') ''m1''" "string_token (quoted ''c3'') ''c3''" "string_token (quoted ''message'') ''message''"
    by (rule s; simp)+
  ultimately show "list_all2 spells_answer_member
      [IdMember ''m1'', OtherMember ''type'', ContentMember [''a'', ''b''], UsageMember 7 2, ModelMember ''c3''] demoMembers"
    using demo_usage plain_string [of "quoted ''message''"] by (auto simp: demoMembers_def)
qed


end
