(* ===== verification/Chat_Model.thy ===== *)
theory Chat_Model
  imports Go_Prelude
begin

text \<open>
  The data of the two protocols the Anthropic adapter translates between: the chat types of \<open>internal/model/gateway.go\<close> and the
  Anthropic types at the end of \<open>internal/adapter/anthropic_provider.go\<close>. A pointer field is an option. Decoding and encoding
  these types is \<open>encoding/json\<close>, which the adapter receives as a parameter.
\<close>

section \<open>Values of type any\<close>

text \<open>What \<open>encoding/json\<close> stores into an \<open>any\<close>, and a raw message, which is also assigned to one. A number is kept as its text.\<close>

datatype go_any =
    AnyNil
  | AnyBool bool
  | AnyNumber bytes
  | AnyString bytes
  | AnyArray "go_any list"
  | AnyObject "(bytes \<times> go_any) list"
  | AnyRaw bytes

section \<open>OpenAI\<close>

record ImageURL =
  iu_URL :: bytes
  iu_Detail :: bytes

record ContentPart =
  cp_Type :: bytes
  cp_Text :: bytes
  cp_ImageURL :: "ImageURL option"

record ToolCallFunction =
  tf_Name :: bytes
  tf_Arguments :: bytes

record ToolCall =
  tc_ID :: bytes
  tc_Type :: bytes
  tc_Function :: ToolCallFunction

text \<open>The content of a message is a raw message: the text of a JSON value, empty when the member is missing.\<close>

record RichMessage =
  rm_Role :: bytes
  rm_Content :: bytes
  rm_ToolCalls :: "ToolCall list"
  rm_ToolCallID :: bytes
  rm_Name :: bytes

record ToolFunction =
  fn_Name :: bytes
  fn_Description :: bytes
  fn_Parameters :: go_any

record Tool =
  tl_Type :: bytes
  tl_Function :: ToolFunction

record JSONSchemaFormat =
  js_Name :: bytes
  js_Description :: bytes
  js_Schema :: bytes
  js_Strict :: bool

record ResponseFormat =
  rf_Type :: bytes
  rf_JSONSchema :: "JSONSchemaFormat option"

text \<open>A \<open>float32\<close> is compared with zero and printed; it is kept as the decimal text \<open>strconv.AppendFloat\<close> prints for it.\<close>

type_synonym float32 = bytes

definition isZeroFloat :: "float32 \<Rightarrow> bool" where
  "isZeroFloat f \<longleftrightarrow> f = ''0'' \<or> f = ''-0''"

record ChatCompletionRequest =
  rq_Model :: bytes
  rq_Messages :: "RichMessage list"
  rq_Temperature :: float32
  rq_Stream :: bool
  rq_MaxTokens :: int
  rq_TopP :: float32
  rq_Stop :: "bytes list"
  rq_PresencePenalty :: float32
  rq_FrequencyPenalty :: float32
  rq_Tools :: "Tool list"
  rq_ResponseFormat :: "ResponseFormat option"

record Usage =
  us_PromptTokens :: int
  us_CompletionTokens :: int
  us_TotalTokens :: int

record ChatCompletionChoice =
  ch_Index :: int
  ch_Message :: RichMessage
  ch_FinishReason :: bytes

record ChatCompletionResponse =
  cr_ID :: bytes
  cr_Object :: bytes
  cr_Created :: int
  cr_Model :: bytes
  cr_Choices :: "ChatCompletionChoice list"
  cr_Usage :: Usage

section \<open>Anthropic\<close>

record AnthropicImageSource =
  src_Type :: bytes
  src_MediaType :: bytes
  src_Data :: bytes
  src_URL :: bytes

record AnthropicContentBlock =
  bk_Type :: bytes
  bk_Text :: bytes
  bk_ID :: bytes
  bk_Name :: bytes
  bk_Input :: go_any
  bk_ToolUseID :: bytes
  bk_ToolContent :: go_any
  bk_Source :: "AnthropicImageSource option"

definition emptyBlock :: AnthropicContentBlock where
  "emptyBlock =
     \<lparr>bk_Type = [], bk_Text = [], bk_ID = [], bk_Name = [], bk_Input = AnyNil, bk_ToolUseID = [], bk_ToolContent = AnyNil, bk_Source = None\<rparr>"

text \<open>The content of a message is a string or a list of blocks.\<close>

datatype message_content = ContentText bytes | ContentBlocks "AnthropicContentBlock list"

record AnthropicMessage =
  am_Role :: bytes
  am_Content :: message_content

record AnthropicTool =
  at_Name :: bytes
  at_Description :: bytes
  at_InputSchema :: go_any

record AnthropicRequest =
  ar_Model :: bytes
  ar_Messages :: "AnthropicMessage list"
  ar_MaxTokens :: int
  ar_Temperature :: float32
  ar_Stream :: bool
  ar_System :: bytes
  ar_TopP :: float32
  ar_StopSequences :: "bytes list"
  ar_Tools :: "AnthropicTool list"

record AnthropicUsage =
  au_InputTokens :: int
  au_OutputTokens :: int

record AnthropicError =
  ae_Type :: bytes
  ae_Message :: bytes

record AnthropicResponse =
  an_ID :: bytes
  an_Type :: bytes
  an_Role :: bytes
  an_Model :: bytes
  an_Content :: "AnthropicContentBlock list"
  an_StopReason :: bytes
  an_Usage :: AnthropicUsage
  an_Error :: "AnthropicError option"

end
