(* ===== verification/Adapter_Response.thy ===== *)
theory Adapter_Response
  imports Adapter_Text Chat_Model
begin

text \<open>
  Translating a complete answer: \<open>internal/adapter/anthropic_response_tool_fast.go\<close> and \<open>TranslateAnthropicToOpenAI\<close> of
  \<open>internal/adapter/anthropic_provider.go\<close>. There are three paths: the scanner for text answers, a decoder into small structs for
  answers with tool calls, and the general path. The decoders and encoders of \<open>encoding/json\<close> are the parameter \<open>json_codec\<close>.
\<close>

section \<open>Decoders\<close>

record anthropicToolUseContentRef =
  rf_BlockType :: bytes
  rf_Text :: bytes
  rf_ID :: bytes
  rf_Name :: bytes
  rf_Input :: bytes

record anthropicToolUseResponse =
  tu_ID :: bytes
  tu_Model :: bytes
  tu_StopReason :: bytes
  tu_Usage :: AnthropicUsage
  tu_Error :: "AnthropicError option"
  tu_Content :: "anthropicToolUseContentRef list"

text \<open>\<open>json.Unmarshal\<close> into the two response types and \<open>json.Marshal\<close> of an \<open>any\<close>, of a string (neither error is looked at) and of
  a completion.\<close>

record json_codec =
  jc_ToolUse :: "bytes \<Rightarrow> anthropicToolUseResponse option"
  jc_Response :: "bytes \<Rightarrow> (go_error, AnthropicResponse) result"
  jc_MarshalAny :: "go_any \<Rightarrow> bytes"
  jc_MarshalString :: "bytes \<Rightarrow> bytes"
  jc_MarshalCompletion :: "ChatCompletionResponse \<Rightarrow> (go_error, bytes) result"

section \<open>Tool answers\<close>

definition normalizeJSONRawMessage :: "bytes \<Rightarrow> bytes" where
  "normalizeJSONRawMessage raw = (if length raw = 0 then ''null'' else raw)"

definition quotedJSONByte :: "char \<Rightarrow> bytes" where
  "quotedJSONByte b =
     (if b = CHR 0x5C \<or> b = CHR 0x22 then [CHR 0x5C, b]
      else if b = CHR 0x08 then CHR 0x5C # ''b''
      else if b = CHR 0x0C then CHR 0x5C # ''f''
      else if b = CHR 0x0A then CHR 0x5C # ''n''
      else if b = CHR 0x0D then CHR 0x5C # ''r''
      else if b = CHR 0x09 then CHR 0x5C # ''t''
      else if byte b < (0x20 :: nat) then CHR 0x5C # ''u00'' @ [hexDigit (byte b div 16), hexDigit (byte b mod 16)]
      else [b])"

definition appendQuotedJSONBytes :: "bytes \<Rightarrow> bytes \<Rightarrow> bytes" where
  "appendQuotedJSONBytes dst raw = dst @ [CHR 0x22] @ concat (map quotedJSONByte raw) @ [CHR 0x22]"

text \<open>The first loop over the blocks: \<open>None\<close> for a block of another type, otherwise the length of the text and the number of tool
  calls.\<close>

fun countBlocks :: "anthropicToolUseContentRef list \<Rightarrow> nat \<Rightarrow> nat \<Rightarrow> (nat \<times> nat) option" where
  "countBlocks [] textLen toolCount = Some (textLen, toolCount)"
| "countBlocks (block # blocks) textLen toolCount =
     (if rf_BlockType block = ''text'' then countBlocks blocks (textLen + length (rf_Text block)) toolCount
      else if rf_BlockType block = ''tool_use'' then countBlocks blocks textLen (toolCount + 1)
      else None)"

definition blocksText :: "anthropicToolUseContentRef list \<Rightarrow> nat \<Rightarrow> bytes" where
  "blocksText blocks textLen =
     (if textLen > 0 then concat (map rf_Text (filter (\<lambda>block. rf_BlockType block = ''text'') blocks)) else [])"

fun toolCallLoop :: "(nat \<Rightarrow> bool) \<Rightarrow> anthropicToolUseContentRef list \<Rightarrow> nat \<Rightarrow> bytes \<Rightarrow> bytes" where
  "toolCallLoop table [] toolIndex out = out"
| "toolCallLoop table (block # blocks) toolIndex out =
     (if rf_BlockType block \<noteq> ''tool_use'' then toolCallLoop table blocks toolIndex out
      else
        (let out = (if toolIndex > 0 then out @ '','' else out);
             out = out @ ticked ''{`id`:'';
             out = out @ quote table (rf_ID block);
             out = out @ ticked '',`type`:`function`,`function`:{`name`:'';
             out = out @ quote table (rf_Name block);
             out = out @ ticked '',`arguments`:'';
             out = appendQuotedJSONBytes out (normalizeJSONRawMessage (rf_Input block));
             out = out @ ''}}''
         in toolCallLoop table blocks (toolIndex + 1) out))"

definition toolCompletion :: "(nat \<Rightarrow> bool) \<Rightarrow> int \<Rightarrow> anthropicToolUseResponse \<Rightarrow> bytes \<Rightarrow> bytes" where
  "toolCompletion table created resp text =
     (let out = ''{'';
          out = appendJSONStringField table out ''id'' (tu_ID resp);
          out = out @ '','';
          out = appendJSONConstStringField out ''object'' ''chat.completion'';
          out = out @ '','';
          out = appendJSONIntField out ''created'' created;
          out = out @ '','';
          out = appendJSONStringField table out ''model'' (tu_Model resp);
          out = out @ ticked '',`choices`:[{`index`:0,`message`:{`role`:`assistant`,`content`:'';
          out = out @ quote table text;
          out = out @ ticked '',`tool_calls`:['';
          out = toolCallLoop table (tu_Content resp) 0 out;
          out = out @ ticked '']},`finish_reason`:'';
          out = out @ quote table (stopReasonToFinishReason (tu_StopReason resp));
          out = out @ ticked ''}],`usage`:{`prompt_tokens`:'';
          out = out @ itoa (au_InputTokens (tu_Usage resp));
          out = out @ ticked '',`completion_tokens`:'';
          out = out @ itoa (au_OutputTokens (tu_Usage resp));
          out = out @ ticked '',`total_tokens`:'';
          out = out @ itoa (wrap64 (au_InputTokens (tu_Usage resp) + au_OutputTokens (tu_Usage resp)))
      in out @ ''}}'')"

definition translateAnthropicToolUseToOpenAI :: "(nat \<Rightarrow> bool) \<Rightarrow> int \<Rightarrow> json_codec \<Rightarrow> bytes \<Rightarrow> bytes option" where
  "translateAnthropicToolUseToOpenAI table created codec data =
     (if \<not> contains data (ticked ''`tool_use`'') then None
      else (case jc_ToolUse codec data of
        None \<Rightarrow> None
      | Some resp \<Rightarrow>
          if tu_Error resp \<noteq> None then None
          else (case countBlocks (tu_Content resp) 0 0 of
            None \<Rightarrow> None
          | Some (textLen, toolCount) \<Rightarrow>
              if toolCount = 0 then None
              else Some (toolCompletion table created resp (blocksText (tu_Content resp) textLen)))))"

section \<open>The general path\<close>

text \<open>The loop over the blocks.\<close>

fun collectBlocks :: "json_codec \<Rightarrow> AnthropicContentBlock list \<Rightarrow> bytes \<Rightarrow> ToolCall list \<Rightarrow> bytes \<times> ToolCall list" where
  "collectBlocks codec [] textContent toolCalls = (textContent, toolCalls)"
| "collectBlocks codec (block # blocks) textContent toolCalls =
     (if bk_Type block = ''text'' then collectBlocks codec blocks (textContent @ bk_Text block) toolCalls
      else if bk_Type block = ''tool_use'' then
        collectBlocks codec blocks textContent
          (toolCalls @ [\<lparr>tc_ID = bk_ID block, tc_Type = ''function'',
             tc_Function = \<lparr>tf_Name = bk_Name block, tf_Arguments = jc_MarshalAny codec (bk_Input block)\<rparr>\<rparr>])
      else collectBlocks codec blocks textContent toolCalls)"

definition openAICompletion :: "json_codec \<Rightarrow> int \<Rightarrow> AnthropicResponse \<Rightarrow> ChatCompletionResponse" where
  "openAICompletion codec created ar =
     (let (textContent, toolCalls) = collectBlocks codec (an_Content ar) [] [];
          msg = \<lparr>rm_Role = ''assistant'', rm_Content = jc_MarshalString codec textContent, rm_ToolCalls = toolCalls, rm_ToolCallID = [], rm_Name = []\<rparr>
      in \<lparr>cr_ID = an_ID ar, cr_Object = ''chat.completion'', cr_Created = created, cr_Model = an_Model ar,
          cr_Choices = [\<lparr>ch_Index = 0, ch_Message = msg, ch_FinishReason = stopReasonToFinishReason (an_StopReason ar)\<rparr>],
          cr_Usage = \<lparr>us_PromptTokens = au_InputTokens (an_Usage ar), us_CompletionTokens = au_OutputTokens (an_Usage ar),
            us_TotalTokens = wrap64 (au_InputTokens (an_Usage ar) + au_OutputTokens (an_Usage ar))\<rparr>\<rparr>)"

text \<open>\<open>fmt.Errorf\<close> with and without a wrapped error.\<close>

definition wrapError :: "bytes \<Rightarrow> go_error \<Rightarrow> go_error" where
  "wrapError prefix e = e\<lparr>ge_Error := prefix @ '': '' @ ge_Error e\<rparr>"

definition plainError :: "bytes \<Rightarrow> go_error" where
  "plainError text = \<lparr>ge_Error = text, ge_Is = [], ge_Timeout = False\<rparr>"

definition TranslateAnthropicToOpenAI :: "(nat \<Rightarrow> bool) \<Rightarrow> int \<Rightarrow> json_codec \<Rightarrow> bytes \<Rightarrow> (go_error, bytes) result" where
  "TranslateAnthropicToOpenAI table created codec data =
     (case translateAnthropicTextOnlyToOpenAI table created data of
        Some out \<Rightarrow> Inr out
      | None \<Rightarrow>
          (case translateAnthropicToolUseToOpenAI table created codec data of
             Some out \<Rightarrow> Inr out
           | None \<Rightarrow>
               (case jc_Response codec data of
                  Inl e \<Rightarrow> Inl (wrapError ''unmarshal anthropic response'' e)
                | Inr ar \<Rightarrow>
                    (case an_Error ar of
                       Some ae \<Rightarrow> Inl (plainError (''anthropic error '' @ ae_Type ae @ '': '' @ ae_Message ae))
                     | None \<Rightarrow> jc_MarshalCompletion codec (openAICompletion codec created ar)))))"

section \<open>JSON strings\<close>

text \<open>A reference decoder for the text between the quotes of a JSON string (RFC 8259), escapes of the basic plane only.\<close>

definition jsonEscape :: "char \<Rightarrow> bytes \<Rightarrow> (bytes \<times> bytes) option" where
  "jsonEscape d t =
     (if d = CHR 0x22 \<or> d = CHR 0x5C \<or> d = CHR ''/'' then Some ([d], t)
      else if d = CHR ''b'' then Some ([CHR 0x08], t)
      else if d = CHR ''f'' then Some ([CHR 0x0C], t)
      else if d = CHR ''n'' then Some ([CHR 0x0A], t)
      else if d = CHR ''r'' then Some ([CHR 0x0D], t)
      else if d = CHR ''t'' then Some ([CHR 0x09], t)
      else if d = CHR ''u'' then map_option (\<lambda>(v, u). (encodeRune v, u)) (readDigits unhex 16 4 0 t)
      else None)"

lemma jsonEscape_length: "jsonEscape d t = Some (x, u) \<Longrightarrow> length u \<le> length t"
  by (auto simp: jsonEscape_def split: if_splits dest: readDigits_length)

fun jsonChar :: "bytes \<Rightarrow> (bytes \<times> bytes) option" where
  "jsonChar [] = None"
| "jsonChar (c # s) =
     (if c = CHR 0x5C then (case s of [] \<Rightarrow> None | d # t \<Rightarrow> jsonEscape d t)
      else if c = CHR 0x22 \<or> byte c < (0x20 :: nat) then None
      else Some ([c], s))"

lemma jsonChar_length: "jsonChar s = Some (x, u) \<Longrightarrow> length u < length s"
  by (cases s) (auto split: if_splits list.splits dest: jsonEscape_length)

function jsonUnescape :: "bytes \<Rightarrow> bytes option" where
  "jsonUnescape s =
     (if s = [] then Some []
      else (case jsonChar s of None \<Rightarrow> None | Some (x, u) \<Rightarrow> map_option ((@) x) (jsonUnescape u)))"
  by pat_completeness auto
termination
  by (relation "measure length") (auto dest: jsonChar_length)

declare jsonUnescape.simps [simp del]

definition json_string :: "bytes \<Rightarrow> bytes \<Rightarrow> bool" where
  "json_string t s \<longleftrightarrow> (\<exists>cs. t = CHR 0x22 # cs @ [CHR 0x22] \<and> jsonUnescape cs = Some s)"

lemma hexDigits_four:
  "hexDigits 4 v = [hexDigit (v div 4096 mod 16), hexDigit (v div 256 mod 16), hexDigit (v div 16 mod 16), hexDigit (v mod 16)]"
proof -
  have four: "(4 :: nat) = Suc (Suc (Suc (Suc 0)))" by simp
  show ?thesis unfolding four by (simp add: div_mult2_eq [symmetric])
qed

lemma hexDigit_zero: "hexDigit 0 = CHR ''0''"
  by code_simp

lemma jsonChar_quoted: "jsonChar (quotedJSONByte b @ t) = Some ([b], t)"
proof (cases "b \<in> {CHR 0x5C, CHR 0x22, CHR 0x08, CHR 0x0C, CHR 0x0A, CHR 0x0D, CHR 0x09} \<or> 0x20 \<le> (byte b :: nat)")
  case True
  then show ?thesis by (auto simp: quotedJSONByte_def jsonEscape_def)
next
  case False
  then have b: "byte b < (0x20 :: nat)" by simp
  have "hexDigits 4 (byte b) = CHR ''0'' # CHR ''0'' # [hexDigit (byte b div 16), hexDigit (byte b mod 16)]"
    using b hexDigit_zero by (simp add: hexDigits_four)
  then have "readDigits unhex 16 4 0 (CHR ''0'' # CHR ''0'' # hexDigit (byte b div 16) # hexDigit (byte b mod 16) # t) = Some (byte b, t)"
    using readDigits_hex [of "byte b" 4 t] b by simp
  moreover have "encodeRune (byte b) = [b]" using b by (simp add: encodeRune_def validRune_def)
  ultimately show ?thesis using False by (simp add: quotedJSONByte_def jsonEscape_def)
qed

lemma json_string_quoted: "json_string (appendQuotedJSONBytes [] raw) raw"
proof -
  have ne: "quotedJSONByte b \<noteq> []" for b by (simp add: quotedJSONByte_def)
  have "jsonUnescape (concat (map quotedJSONByte raw)) = Some raw"
  proof (induction raw)
    case (Cons b raw)
    then show ?case by (subst jsonUnescape.simps) (simp add: ne jsonChar_quoted)
  qed (simp add: jsonUnescape.simps)
  then show ?thesis by (simp add: json_string_def appendQuotedJSONBytes_def)
qed

section \<open>Reading a completion\<close>

text \<open>The answer as its reader sees it. The arguments of a tool call are read by a decoder of JSON strings.\<close>

definition tool_call_at :: "(bytes \<times> bytes) list \<Rightarrow> ToolCall \<Rightarrow> bool" where
  "tool_call_at kvs tc \<longleftrightarrow> string_at kvs ''id'' (tc_ID tc) \<and> string_at kvs ''type'' (tc_Type tc) \<and>
     (\<exists>f. object_at kvs ''function'' f \<and> string_at f ''name'' (tf_Name (tc_Function tc)) \<and>
        (\<exists>v. map_of f ''arguments'' = Some v \<and> json_string v (tf_Arguments (tc_Function tc))))"

definition tool_calls_at :: "(bytes \<times> bytes) list \<Rightarrow> ToolCall list \<Rightarrow> bool" where
  "tool_calls_at message tcs \<longleftrightarrow>
     (if tcs = [] then map_of message ''tool_calls'' = None
      else (\<exists>kvss. objects_at message ''tool_calls'' kvss \<and> list_all2 tool_call_at kvss tcs))"

definition usage_at :: "(bytes \<times> bytes) list \<Rightarrow> Usage \<Rightarrow> bool" where
  "usage_at kvs u \<longleftrightarrow> (\<exists>usage. object_at kvs ''usage'' usage \<and> int_at usage ''prompt_tokens'' (us_PromptTokens u) \<and>
     int_at usage ''completion_tokens'' (us_CompletionTokens u) \<and> int_at usage ''total_tokens'' (us_TotalTokens u))"

definition choice_at :: "json_codec \<Rightarrow> (bytes \<times> bytes) list \<Rightarrow> ChatCompletionChoice \<Rightarrow> bool" where
  "choice_at codec kvs c \<longleftrightarrow> int_at kvs ''index'' (ch_Index c) \<and> string_at kvs ''finish_reason'' (ch_FinishReason c) \<and>
     (\<exists>message text. object_at kvs ''message'' message \<and> string_at message ''role'' (rm_Role (ch_Message c)) \<and>
        string_at message ''content'' text \<and> rm_Content (ch_Message c) = jc_MarshalString codec text \<and>
        tool_calls_at message (rm_ToolCalls (ch_Message c)))"

definition reads_completion :: "json_codec \<Rightarrow> bytes \<Rightarrow> ChatCompletionResponse \<Rightarrow> bool" where
  "reads_completion codec out c \<longleftrightarrow> (\<exists>top choices. reads_object out top \<and> string_at top ''id'' (cr_ID c) \<and>
     string_at top ''object'' (cr_Object c) \<and> int_at top ''created'' (cr_Created c) \<and> string_at top ''model'' (cr_Model c) \<and>
     objects_at top ''choices'' choices \<and> list_all2 (choice_at codec) choices (cr_Choices c) \<and> usage_at top (cr_Usage c))"

text \<open>Both fast paths write the same frame around their message.\<close>

definition completionMembers ::
  "(nat \<Rightarrow> bool) \<Rightarrow> bytes \<Rightarrow> int \<Rightarrow> bytes \<Rightarrow> (bytes \<times> bytes) list \<Rightarrow> bytes \<Rightarrow> int \<Rightarrow> int \<Rightarrow> int \<Rightarrow> (bytes \<times> bytes) list" where
  "completionMembers table id' created model message reason i j t =
     [(''id'', quote table id'), (''object'', quoted ''chat.completion''), (''created'', itoa created), (''model'', quote table model),
      (''choices'', CHR ''['' # compact_elements [CHR ''{'' # compact_members
         [(''index'', ''0''), (''message'', CHR ''{'' # compact_members message), (''finish_reason'', quote table reason)]]),
      (''usage'', CHR ''{'' # compact_members
         [(''prompt_tokens'', itoa i), (''completion_tokens'', itoa j), (''total_tokens'', itoa t)])]"

definition messageMembers :: "(nat \<Rightarrow> bool) \<Rightarrow> bytes \<Rightarrow> (bytes \<times> bytes) list" where
  "messageMembers table text = [(''role'', quoted ''assistant''), (''content'', quote table text)]"

lemma textCompletion_members:
  "textCompletion table created resp = CHR ''{'' # compact_members
     (completionMembers table (tr_ID resp) created (tr_Model resp) (messageMembers table (tr_Text resp))
        (stopReasonToFinishReason (tr_StopReason resp)) (tr_InputTokens resp) (tr_OutputTokens resp)
        (wrap64 (tr_InputTokens resp + tr_OutputTokens resp)))"
  by (simp add: textCompletion_def completionMembers_def messageMembers_def ticked_def compact_key_def)

text \<open>The tool calls a message carries, as members.\<close>

definition toolCallMembers :: "(nat \<Rightarrow> bool) \<Rightarrow> anthropicToolUseContentRef \<Rightarrow> (bytes \<times> bytes) list" where
  "toolCallMembers table block =
     [(''id'', quote table (rf_ID block)), (''type'', quoted ''function''), (''function'', CHR ''{'' # compact_members
        [(''name'', quote table (rf_Name block)),
         (''arguments'', appendQuotedJSONBytes [] (normalizeJSONRawMessage (rf_Input block)))])]"

definition toolBlocks :: "anthropicToolUseContentRef list \<Rightarrow> anthropicToolUseContentRef list" where
  "toolBlocks blocks = filter (\<lambda>b. rf_BlockType b = ''tool_use'') blocks"

lemma compact_elements_Cons: "compact_elements (v # vs) = v @ (if vs = [] then [] else '','') @ compact_elements vs"
  by (cases vs) simp_all

lemma toolCallLoop_elements:
  "toolCallLoop table blocks n out @ '']'' =
     (let vs = map (\<lambda>b. CHR ''{'' # compact_members (toolCallMembers table b)) (toolBlocks blocks)
      in out @ (if n > 0 \<and> vs \<noteq> [] then '','' else []) @ compact_elements vs)"
proof (induction blocks arbitrary: n out)
  case Nil
  then show ?case by (simp add: toolBlocks_def)
next
  case (Cons b blocks)
  show ?case
  proof (cases "rf_BlockType b = ''tool_use''")
    case True
    show ?thesis
      using True by (simp add: Cons.IH Let_def compact_elements_Cons toolBlocks_def toolCallMembers_def appendQuotedJSONBytes_def ticked_def compact_key_def
          del: compact_elements.simps)
  next
    case False
    then show ?thesis by (simp add: Cons.IH toolBlocks_def)
  qed
qed

lemma toolCompletion_members:
  "toolCompletion table created resp text = CHR ''{'' # compact_members
     (completionMembers table (tu_ID resp) created (tu_Model resp)
        (messageMembers table text @ [(''tool_calls'', CHR ''['' # compact_elements
           (map (\<lambda>b. CHR ''{'' # compact_members (toolCallMembers table b)) (toolBlocks (tu_Content resp))))])
        (stopReasonToFinishReason (tu_StopReason resp)) (au_InputTokens (tu_Usage resp)) (au_OutputTokens (tu_Usage resp))
        (wrap64 (au_InputTokens (tu_Usage resp) + au_OutputTokens (tu_Usage resp))))"
  using toolCallLoop_elements [of table "tu_Content resp" 0]
  by (simp add: toolCompletion_def completionMembers_def messageMembers_def ticked_def compact_key_def appendJSONStringField_def
      appendJSONConstStringField_def appendJSONIntField_def Let_def)

definition int64 :: "int \<Rightarrow> bool" where
  "int64 i \<longleftrightarrow> - (2 ^ 63) \<le> i \<and> i < 2 ^ 63"

lemma int64_wrap64 [simp]: "int64 (wrap64 i)"
  using wrap64_range [of i] by (simp add: int64_def wrap64_def)

lemma int_at_int64: "map_of kvs k = Some (itoa i) \<Longrightarrow> int64 i \<Longrightarrow> int_at kvs k i"
  by (simp add: int_at_itoa int64_def)

lemma string_at_quoted: "map_of kvs k = Some (quoted s) \<Longrightarrow> plain_chars s \<Longrightarrow> string_at kvs k s"
  by (auto simp: string_at_def intro: string_token_plain)

lemma completionMembers_reads:
  assumes "int64 created" "int64 i" "int64 j" "int64 t"
    and message: "list_all (\<lambda>(k, v). plain_chars k) message" "map_of message ''role'' = Some (quoted ''assistant'')"
      "string_at message ''content'' text" "tool_calls_at message tcs"
  shows "reads_completion codec (CHR ''{'' # compact_members (completionMembers table id' created model message reason i j t))
    \<lparr>cr_ID = id', cr_Object = ''chat.completion'', cr_Created = created, cr_Model = model,
     cr_Choices = [\<lparr>ch_Index = 0, ch_Message = \<lparr>rm_Role = ''assistant'', rm_Content = jc_MarshalString codec text, rm_ToolCalls = tcs,
       rm_ToolCallID = [], rm_Name = []\<rparr>, ch_FinishReason = reason\<rparr>],
     cr_Usage = \<lparr>us_PromptTokens = i, us_CompletionTokens = j, us_TotalTokens = t\<rparr>\<rparr>"
proof -
  let ?usage = "[(''prompt_tokens'', itoa i), (''completion_tokens'', itoa j), (''total_tokens'', itoa t)]"
  let ?choice = "[(''index'', ''0''), (''message'', CHR ''{'' # compact_members message), (''finish_reason'', quote table reason)]"
  let ?top = "completionMembers table id' created model message reason i j t"
  have "itoa 0 = ''0''" by code_simp
  then have index: "int_at ?choice ''index'' 0" by (intro int_at_int64) (simp_all add: int64_def)
  have "choice_at codec ?choice \<lparr>ch_Index = 0, ch_Message = \<lparr>rm_Role = ''assistant'', rm_Content = jc_MarshalString codec text,
      rm_ToolCalls = tcs, rm_ToolCallID = [], rm_Name = []\<rparr>, ch_FinishReason = reason\<rparr>"
    unfolding choice_at_def ChatCompletionChoice.simps RichMessage.simps
  proof (intro exI conjI)
    show "object_at ?choice ''message'' message" by (rule object_at_compact) (simp_all add: message(1))
    show "string_at ?choice ''finish_reason'' reason" by (rule string_at_quote) simp
    show "string_at message ''role'' ''assistant''" by (rule string_at_quoted [OF message(2)]) (simp add: plain_chars_code)
  qed (use index message in simp_all)
  moreover have "objects_at ?top ''choices'' [?choice]"
    by (rule objects_at_compact) (simp_all add: completionMembers_def plain_chars_code)
  moreover have "usage_at ?top \<lparr>us_PromptTokens = i, us_CompletionTokens = j, us_TotalTokens = t\<rparr>"
    unfolding usage_at_def Usage.simps
    by (intro exI [of _ ?usage] conjI object_at_compact int_at_int64) (use assms in \<open>simp_all add: completionMembers_def plain_chars_code\<close>)
  moreover have "reads_object (CHR ''{'' # compact_members ?top) ?top"
    by (rule reads_compact) (simp add: completionMembers_def plain_chars_code)
  moreover have "string_at ?top ''id'' id'" "string_at ?top ''model'' model"
    by (rule string_at_quote; simp add: completionMembers_def)+
  moreover have "string_at ?top ''object'' ''chat.completion''"
    by (rule string_at_quoted) (simp_all add: completionMembers_def plain_chars_code)
  moreover have "int_at ?top ''created'' created" by (rule int_at_int64) (simp_all add: completionMembers_def assms)
  ultimately show ?thesis unfolding reads_completion_def ChatCompletionResponse.simps by fastforce
qed

lemma collectBlocks_eq:
  "collectBlocks codec blocks acc tcs =
    (acc @ concat (map bk_Text (filter (\<lambda>b. bk_Type b = ''text'') blocks)),
     tcs @ map (\<lambda>b. \<lparr>tc_ID = bk_ID b, tc_Type = ''function'',
        tc_Function = \<lparr>tf_Name = bk_Name b, tf_Arguments = jc_MarshalAny codec (bk_Input b)\<rparr>\<rparr>) (filter (\<lambda>b. bk_Type b = ''tool_use'') blocks))"
  by (induction blocks arbitrary: acc tcs) auto

lemma countBlocks_eq:
  "countBlocks blocks n m = Some (n', m') \<Longrightarrow>
    n' = n + length (concat (map rf_Text (filter (\<lambda>b. rf_BlockType b = ''text'') blocks))) \<and> m' = m + length (toolBlocks blocks)"
  by (induction blocks arbitrary: n m) (fastforce simp: toolBlocks_def split: if_splits)+

text \<open>
  The decoders read one document in the same way: the scanner for text answers and the two struct decoders find the same id, model,
  stop reason and counters and the same blocks, and the input of a tool call is written by \<open>json.Marshal\<close> as it stands in the
  document (it is compact, with sorted keys; otherwise the fast path relays the spelling of the upstream).
\<close>

definition same_block :: "json_codec \<Rightarrow> anthropicToolUseContentRef \<Rightarrow> AnthropicContentBlock \<Rightarrow> bool" where
  "same_block codec r b \<longleftrightarrow> rf_BlockType r = bk_Type b \<and> rf_Text r = bk_Text b \<and> rf_ID r = bk_ID b \<and> rf_Name r = bk_Name b \<and>
     (bk_Type b = ''tool_use'' \<longrightarrow> jc_MarshalAny codec (bk_Input b) = normalizeJSONRawMessage (rf_Input r))"

definition decoders_agree :: "json_codec \<Rightarrow> bytes \<Rightarrow> AnthropicResponse \<Rightarrow> bool" where
  "decoders_agree codec data ar \<longleftrightarrow>
     (\<forall>t. parseAnthropicTextOnlyResponse data = Some t \<and> \<not> contains data (ticked ''`tool_use`'') \<longrightarrow>
        tr_ID t = an_ID ar \<and> tr_Model t = an_Model ar \<and> tr_StopReason t = an_StopReason ar \<and>
        tr_InputTokens t = au_InputTokens (an_Usage ar) \<and> tr_OutputTokens t = au_OutputTokens (an_Usage ar) \<and>
        (\<forall>b\<in>set (an_Content ar). bk_Type b = ''text'') \<and> concat (map bk_Text (an_Content ar)) = tr_Text t) \<and>
     (\<forall>r. jc_ToolUse codec data = Some r \<longrightarrow>
        tu_ID r = an_ID ar \<and> tu_Model r = an_Model ar \<and> tu_StopReason r = an_StopReason ar \<and> tu_Usage r = an_Usage ar \<and>
        list_all2 (same_block codec) (tu_Content r) (an_Content ar))"

lemma text_path_reads:
  assumes agree: "decoders_agree codec data ar" and out: "translateAnthropicTextOnlyToOpenAI table created data = Some out"
    and range: "int64 created" "int64 (au_InputTokens (an_Usage ar))" "int64 (au_OutputTokens (an_Usage ar))"
  shows "reads_completion codec out (openAICompletion codec created ar)"
proof -
  from out obtain t where t: "parseAnthropicTextOnlyResponse data = Some t \<and> \<not> contains data (ticked ''`tool_use`'')" "out = textCompletion table created t"
    by (auto simp: translateAnthropicTextOnlyToOpenAI_def split: if_splits)
  with agree have eq: "tr_ID t = an_ID ar" "tr_Model t = an_Model ar" "tr_StopReason t = an_StopReason ar"
    "tr_InputTokens t = au_InputTokens (an_Usage ar)" "tr_OutputTokens t = au_OutputTokens (an_Usage ar)"
    and blocks: "\<forall>b\<in>set (an_Content ar). bk_Type b = ''text''" "concat (map bk_Text (an_Content ar)) = tr_Text t"
    by (auto simp: decoders_agree_def)
  have "filter (\<lambda>b. bk_Type b = ''text'') (an_Content ar) = an_Content ar" "filter (\<lambda>b. bk_Type b = ''tool_use'') (an_Content ar) = []"
    using blocks(1) by (auto simp: filter_id_conv filter_empty_conv)
  then have c: "collectBlocks codec (an_Content ar) [] [] = (tr_Text t, [])" using blocks(2) by (simp add: collectBlocks_eq)
  have m: "list_all (\<lambda>(k, v). plain_chars k) (messageMembers table (tr_Text t))"
    "map_of (messageMembers table (tr_Text t)) ''role'' = Some (quoted ''assistant'')"
    "tool_calls_at (messageMembers table (tr_Text t)) []"
    by (simp_all add: messageMembers_def plain_chars_code tool_calls_at_def)
  have "string_at (messageMembers table (tr_Text t)) ''content'' (tr_Text t)"
    by (rule string_at_quote) (simp add: messageMembers_def)
  from completionMembers_reads [OF range int64_wrap64 m(1,2) this m(3)] show ?thesis
    by (simp add: t(2) textCompletion_members eq openAICompletion_def c)
qed

lemma tool_calls_read:
  assumes "list_all2 (same_block codec) rs bs"
  shows "list_all2 tool_call_at (map (toolCallMembers table) (toolBlocks rs))
    (map (\<lambda>b. \<lparr>tc_ID = bk_ID b, tc_Type = ''function'',
       tc_Function = \<lparr>tf_Name = bk_Name b, tf_Arguments = jc_MarshalAny codec (bk_Input b)\<rparr>\<rparr>) (filter (\<lambda>b. bk_Type b = ''tool_use'') bs))"
  using assms
proof (induction rule: list_all2_induct)
  case (Cons r rs b bs)
  let ?f = "[(''name'', quote table (rf_Name r)), (''arguments'', appendQuotedJSONBytes [] (normalizeJSONRawMessage (rf_Input r)))]"
  have "tool_call_at (toolCallMembers table r) \<lparr>tc_ID = bk_ID b, tc_Type = ''function'',
      tc_Function = \<lparr>tf_Name = bk_Name b, tf_Arguments = jc_MarshalAny codec (bk_Input b)\<rparr>\<rparr>" if "bk_Type b = ''tool_use''"
    unfolding tool_call_at_def ToolCall.simps ToolCallFunction.simps
  proof (intro exI conjI)
    show "string_at (toolCallMembers table r) ''id'' (bk_ID b)"
      by (rule string_at_quote) (use Cons.hyps(1) in \<open>simp add: toolCallMembers_def same_block_def\<close>)
    show "string_at (toolCallMembers table r) ''type'' ''function''"
      by (rule string_at_quoted) (simp_all add: toolCallMembers_def plain_chars_code)
    show "object_at (toolCallMembers table r) ''function'' ?f" by (rule object_at_compact) (simp_all add: toolCallMembers_def plain_chars_code)
    show "string_at ?f ''name'' (bk_Name b)" by (rule string_at_quote) (use Cons.hyps(1) in \<open>simp add: same_block_def\<close>)
    show "map_of ?f ''arguments'' = Some (appendQuotedJSONBytes [] (normalizeJSONRawMessage (rf_Input r)))" by simp
    show "json_string (appendQuotedJSONBytes [] (normalizeJSONRawMessage (rf_Input r))) (jc_MarshalAny codec (bk_Input b))"
      using Cons.hyps(1) that json_string_quoted by (simp add: same_block_def)
  qed
  with Cons show ?case by (auto simp: toolBlocks_def same_block_def)
qed (simp add: toolBlocks_def)

lemma same_texts:
  "list_all2 (same_block codec) rs bs \<Longrightarrow>
    concat (map rf_Text (filter (\<lambda>b. rf_BlockType b = ''text'') rs)) = concat (map bk_Text (filter (\<lambda>b. bk_Type b = ''text'') bs))"
  by (induction rule: list_all2_induct) (auto simp: same_block_def)

lemma tool_path_reads:
  assumes agree: "decoders_agree codec data ar" and tool: "translateAnthropicToolUseToOpenAI table created codec data = Some out"
    and range: "int64 created" "int64 (au_InputTokens (an_Usage ar))" "int64 (au_OutputTokens (an_Usage ar))"
  shows "reads_completion codec out (openAICompletion codec created ar)"
proof -
  from tool obtain r n m where r: "jc_ToolUse codec data = Some r" "countBlocks (tu_Content r) 0 0 = Some (n, m)" "m \<noteq> 0"
    "out = toolCompletion table created r (blocksText (tu_Content r) n)"
    by (auto simp: translateAnthropicToolUseToOpenAI_def split: if_splits option.splits)
  with agree have eq: "tu_ID r = an_ID ar" "tu_Model r = an_Model ar" "tu_StopReason r = an_StopReason ar" "tu_Usage r = an_Usage ar"
    and blocks: "list_all2 (same_block codec) (tu_Content r) (an_Content ar)"
    by (auto simp: decoders_agree_def)
  define content where "content = concat (map rf_Text (filter (\<lambda>b. rf_BlockType b = ''text'') (tu_Content r)))"
  define tcs where "tcs = snd (collectBlocks codec (an_Content ar) [] [])"
  have blocks_text: "blocksText (tu_Content r) n = content" using countBlocks_eq [OF r(2)] by (auto simp: blocksText_def content_def)
  have c: "collectBlocks codec (an_Content ar) [] [] = (content, tcs)"
    using same_texts [OF blocks] by (simp add: tcs_def collectBlocks_eq content_def)
  define vs where "vs = map (\<lambda>b. CHR ''{'' # compact_members (toolCallMembers table b)) (toolBlocks (tu_Content r))"
  let ?message = "messageMembers table content @ [(''tool_calls'', CHR ''['' # compact_elements vs)]"
  have "objects_at ?message ''tool_calls'' (map (toolCallMembers table) (toolBlocks (tu_Content r)))"
    by (rule objects_at_compact) (simp_all add: messageMembers_def vs_def comp_def list_all_iff toolCallMembers_def plain_chars_code)
  moreover have "list_all2 tool_call_at (map (toolCallMembers table) (toolBlocks (tu_Content r))) tcs"
    using tool_calls_read [OF blocks] by (simp add: tcs_def collectBlocks_eq)
  moreover have "toolBlocks (tu_Content r) \<noteq> []" using countBlocks_eq [OF r(2)] r(3) by auto
  ultimately have "tool_calls_at ?message tcs" by (auto simp: tool_calls_at_def)
  moreover have "list_all (\<lambda>(k, v). plain_chars k) ?message" "map_of ?message ''role'' = Some (quoted ''assistant'')"
    by (simp_all add: messageMembers_def plain_chars_code)
  moreover have "string_at ?message ''content'' content" by (rule string_at_quote) (simp add: messageMembers_def)
  ultimately show ?thesis
    using completionMembers_reads [OF range int64_wrap64, of ?message content tcs] by (simp add: r(4) blocks_text toolCompletion_members eq openAICompletion_def c vs_def)
qed

section \<open>Properties\<close>


definition demoToolAnswer :: bytes where
  "demoToolAnswer = ticked ''{`id`:`m`,`model`:`c`,`content`:[{`type`:`tool_use`,`id`:`t`,`name`:`f`,`input`:{`a`:1}}],`stop_reason`:`tool_use`,`usage`:{`input_tokens`:1,`output_tokens`:2}}''"

definition demoCodec :: json_codec where
  "demoCodec =
     \<lparr>jc_ToolUse = (\<lambda>_. Some \<lparr>tu_ID = ''m'', tu_Model = ''c'', tu_StopReason = ''tool_use'', tu_Usage = \<lparr>au_InputTokens = 1, au_OutputTokens = 2\<rparr>,
        tu_Error = None, tu_Content = [\<lparr>rf_BlockType = ''tool_use'', rf_Text = [], rf_ID = ''t'', rf_Name = ''f'', rf_Input = ticked ''{`a`:1}''\<rparr>]\<rparr>),
      jc_Response = (\<lambda>_. Inr \<lparr>an_ID = ''m'', an_Type = [], an_Role = [], an_Model = ''c'',
        an_Content = [emptyBlock\<lparr>bk_Type := ''tool_use'', bk_ID := ''t'', bk_Name := ''f'', bk_Input := AnyObject [(''a'', AnyNumber ''1'')]\<rparr>],
        an_StopReason = ''tool_use'', an_Usage = \<lparr>au_InputTokens = 1, au_OutputTokens = 2\<rparr>, an_Error = None\<rparr>),
      jc_MarshalAny = (\<lambda>_. ticked ''{`a`:1}''), jc_MarshalString = quote (\<lambda>_. True), jc_MarshalCompletion = (\<lambda>_. Inl (plainError []))\<rparr>"


lemma quote_bell: "quote table [CHR 0x07] = [CHR 0x22, CHR 0x5C, CHR ''a'', CHR 0x22]"
  by (simp add: quote_def quoteLoop.simps escapedRune_def isPrintRune_def runeError_def)

text \<open>Control characters break the answer: \<open>strconv.AppendQuote\<close> writes escapes of Go, and the text of a bell character, which an
  upstream may send as \<open>\u0007\<close>, becomes a string that no decoder of JSON accepts, in a chunk of a stream and in the content of a
  complete answer.\<close>

theorem go_escapes_break_json:
  "\<not> (\<exists>s. json_string (quote table [CHR 0x07]) s) \<and>
   textDelta table [CHR 0x07] = ticked ''{`content`:`'' @ [CHR 0x5C] @ ticked ''a`}'' \<and>
   (\<exists>top message. reads_object (textCompletion table created
        \<lparr>tr_ID = ''m'', tr_Model = ''c'', tr_Text = [CHR 0x07], tr_StopReason = [], tr_InputTokens = 1, tr_OutputTokens = 1\<rparr>) top \<and>
      (\<exists>choice. objects_at top ''choices'' [choice] \<and> object_at choice ''message'' message) \<and>
      map_of message ''content'' = Some (quote table [CHR 0x07]))"
proof (intro conjI)
  have "jsonUnescape [CHR 0x5C, CHR ''a''] = None" by (simp add: jsonUnescape.simps jsonEscape_def)
  then show "\<not> (\<exists>s. json_string (quote table [CHR 0x07]) s)" by (simp add: json_string_def quote_bell)
  show "textDelta table [CHR 0x07] = ticked ''{`content`:`'' @ [CHR 0x5C] @ ticked ''a`}''"
    by (simp add: textDelta_def quote_bell ticked_def)
  let ?message = "messageMembers table [CHR 0x07]"
  let ?top = "completionMembers table ''m'' created ''c'' ?message ''stop'' 1 1 2"
  have "textCompletion table created
      \<lparr>tr_ID = ''m'', tr_Model = ''c'', tr_Text = [CHR 0x07], tr_StopReason = [], tr_InputTokens = 1, tr_OutputTokens = 1\<rparr> =
      CHR ''{'' # compact_members ?top"
    by (simp add: textCompletion_members stopReasonToFinishReason_def wrap64_def)
  moreover have "reads_object (CHR ''{'' # compact_members ?top) ?top"
    by (rule reads_compact) (simp add: completionMembers_def plain_chars_code)
  moreover have "objects_at ?top ''choices'' [[(''index'', ''0''), (''message'', CHR ''{'' # compact_members ?message), (''finish_reason'', quote table ''stop'')]]"
    by (rule objects_at_compact) (simp_all add: completionMembers_def plain_chars_code)
  moreover have "object_at [(''index'', ''0''), (''message'', CHR ''{'' # compact_members ?message), (''finish_reason'', quote table ''stop'')] ''message'' ?message"
    by (rule object_at_compact) (simp_all add: messageMembers_def plain_chars_code)
  moreover have "map_of ?message ''content'' = Some (quote table [CHR 0x07])" by (simp add: messageMembers_def)
  ultimately show "\<exists>top message. reads_object (textCompletion table created
        \<lparr>tr_ID = ''m'', tr_Model = ''c'', tr_Text = [CHR 0x07], tr_StopReason = [], tr_InputTokens = 1, tr_OutputTokens = 1\<rparr>) top \<and>
      (\<exists>choice. objects_at top ''choices'' [choice] \<and> object_at choice ''message'' message) \<and>
      map_of message ''content'' = Some (quote table [CHR 0x07])" by metis
qed

end
