(* ===== verification/Adapter_Request.thy ===== *)
theory Adapter_Request
  imports Adapter_Response
begin

text \<open>
  Translating a request: \<open>internal/adapter/anthropic_request_fast.go\<close>, \<open>anthropic_request_content.go\<close> and the request half of
  \<open>anthropic_provider.go\<close>. A request without tools, tool results and structured content is written directly; every other one goes
  through the Anthropic types and \<open>json.Marshal\<close>. The decoders and encoders of \<open>encoding/json\<close> are the parameter \<open>request_codec\<close>.
\<close>

section \<open>The codec\<close>

text \<open>\<open>json.Unmarshal\<close> into a request, a string and a list of parts, \<open>json.Valid\<close>, \<open>json.MarshalIndent\<close> of a raw message (its error
  is not looked at) and \<open>json.Marshal\<close> of an Anthropic request.\<close>

record request_codec =
  jq_Request :: "bytes \<Rightarrow> (go_error, ChatCompletionRequest) result"
  jq_String :: "bytes \<Rightarrow> bytes option"
  jq_Parts :: "bytes \<Rightarrow> ContentPart list option"
  jq_Valid :: "bytes \<Rightarrow> bool"
  jq_Indent :: "bytes \<Rightarrow> bytes"
  jq_Marshal :: "AnthropicRequest \<Rightarrow> (go_error, bytes) result"

section \<open>Message content\<close>

datatype openAIMessageContent = MessageString bytes | MessageParts "ContentPart list"

definition decodeOpenAIMessageContent :: "request_codec \<Rightarrow> bytes \<Rightarrow> openAIMessageContent option" where
  "decodeOpenAIMessageContent codec raw =
     (let trimmed = trimSpace raw in
      if length trimmed = 0 then Some (MessageString [])
      else if trimmed ! 0 = CHR 0x22 then map_option MessageString (jq_String codec trimmed)
      else if trimmed ! 0 = CHR ''['' then map_option MessageParts (jq_Parts codec trimmed)
      else None)"

fun textOnly :: "openAIMessageContent \<Rightarrow> bytes" where
  "textOnly (MessageString t) = t"
| "textOnly (MessageParts parts) =
     (if length parts = 0 then []
      else if sum_list (map (\<lambda>part. length (cp_Text part)) (filter (\<lambda>part. cp_Type part = ''text'') parts)) = 0 then []
      else concat (map cp_Text (filter (\<lambda>part. cp_Type part = ''text'') parts)))"

definition anthropicPartBlocks :: "ContentPart \<Rightarrow> AnthropicContentBlock list" where
  "anthropicPartBlocks part =
     (if cp_Type part = ''text'' then [emptyBlock\<lparr>bk_Type := ''text'', bk_Text := cp_Text part\<rparr>]
      else if cp_Type part = ''image_url'' then
        (case cp_ImageURL part of
           None \<Rightarrow> []
         | Some img \<Rightarrow> [emptyBlock\<lparr>bk_Type := ''image'',
             bk_Source := Some \<lparr>src_Type = ''url'', src_MediaType = [], src_Data = [], src_URL = iu_URL img\<rparr>\<rparr>])
      else [])"

fun anthropicBlocks :: "openAIMessageContent \<Rightarrow> AnthropicContentBlock list" where
  "anthropicBlocks (MessageString t) = []"
| "anthropicBlocks (MessageParts parts) = concat (map anthropicPartBlocks parts)"

definition toolCallArgumentsAsInput :: "request_codec \<Rightarrow> bytes \<Rightarrow> go_any" where
  "toolCallArgumentsAsInput codec arguments = (if jq_Valid codec arguments then AnyRaw arguments else AnyString arguments)"

definition contentAsString :: "request_codec \<Rightarrow> bytes \<Rightarrow> bytes" where
  "contentAsString codec raw = (case decodeOpenAIMessageContent codec raw of None \<Rightarrow> [] | Some content \<Rightarrow> textOnly content)"

definition translateUserMessage :: "request_codec \<Rightarrow> RichMessage \<Rightarrow> AnthropicMessage" where
  "translateUserMessage codec msg =
     (if length (rm_Content msg) = 0 then \<lparr>am_Role = ''user'', am_Content = ContentText []\<rparr>
      else (case decodeOpenAIMessageContent codec (rm_Content msg) of
        None \<Rightarrow> \<lparr>am_Role = ''user'', am_Content = ContentText (rm_Content msg)\<rparr>
      | Some (MessageString t) \<Rightarrow> \<lparr>am_Role = ''user'', am_Content = ContentText t\<rparr>
      | Some (MessageParts parts) \<Rightarrow> \<lparr>am_Role = ''user'', am_Content = ContentBlocks (anthropicBlocks (MessageParts parts))\<rparr>))"

definition translateAssistantMessage :: "request_codec \<Rightarrow> RichMessage \<Rightarrow> AnthropicMessage" where
  "translateAssistantMessage codec msg =
     (let textContent = contentAsString codec (rm_Content msg) in
      if length (rm_ToolCalls msg) = 0 then \<lparr>am_Role = ''assistant'', am_Content = ContentText textContent\<rparr>
      else
        (let blocks = (if textContent \<noteq> [] then [emptyBlock\<lparr>bk_Type := ''text'', bk_Text := textContent\<rparr>] else []);
             blocks = blocks @ map (\<lambda>tc. emptyBlock\<lparr>bk_Type := ''tool_use'', bk_ID := tc_ID tc, bk_Name := tf_Name (tc_Function tc),
               bk_Input := toolCallArgumentsAsInput codec (tf_Arguments (tc_Function tc))\<rparr>) (rm_ToolCalls msg)
         in \<lparr>am_Role = ''assistant'', am_Content = ContentBlocks blocks\<rparr>))"

definition translateToolResultMessage :: "request_codec \<Rightarrow> RichMessage \<Rightarrow> AnthropicMessage" where
  "translateToolResultMessage codec msg =
     \<lparr>am_Role = ''user'', am_Content = ContentBlocks [emptyBlock\<lparr>bk_Type := ''tool_result'', bk_ToolUseID := rm_ToolCallID msg,
        bk_ToolContent := AnyString (contentAsString codec (rm_Content msg))\<rparr>]\<rparr>"

section \<open>The response format\<close>

definition newline :: bytes where
  "newline = [CHR 0x0A]"

definition jsonObjectDirective :: bytes where
  "jsonObjectDirective = newline @ newline @ ''IMPORTANT: You must respond with a valid JSON object only. '' @
     ''Do not include any explanation, markdown formatting, or text outside the JSON object.''"

definition schemaDirective :: "request_codec \<Rightarrow> bytes \<Rightarrow> bytes \<Rightarrow> bytes" where
  "schemaDirective codec schemaDesc schema =
     newline @ newline @ ''IMPORTANT: Respond ONLY with a valid JSON object'' @ schemaDesc @ '' that strictly conforms '' @
     ''to the following JSON Schema. Do not include any explanation or text outside '' @
     ''the JSON object.'' @ newline @ newline @ ''Schema:'' @ newline @ replicate 3 (CHR 0x60) @ ''json'' @ newline @
     jq_Indent codec schema @ newline @ replicate 3 (CHR 0x60)"

definition namedDirective :: "(nat \<Rightarrow> bool) \<Rightarrow> bytes \<Rightarrow> bytes \<Rightarrow> bytes" where
  "namedDirective table name schemaDesc =
     newline @ newline @ ''IMPORTANT: Respond ONLY with a valid JSON object named '' @ quote table name @ schemaDesc @ ''. '' @
     ''Do not include any explanation or text outside the JSON object.''"

definition adaptResponseFormatForAnthropic :: "(nat \<Rightarrow> bool) \<Rightarrow> request_codec \<Rightarrow> ResponseFormat \<Rightarrow> AnthropicRequest \<Rightarrow> AnthropicRequest" where
  "adaptResponseFormatForAnthropic table codec rf req =
     (if rf_Type rf = ''json_object'' then req\<lparr>ar_System := ar_System req @ jsonObjectDirective\<rparr>
      else if rf_Type rf = ''json_schema'' then
        (case rf_JSONSchema rf of
           None \<Rightarrow> req\<lparr>ar_System := ar_System req @ jsonObjectDirective\<rparr>
         | Some js \<Rightarrow>
             (let schemaDesc = (if js_Description js \<noteq> [] then '' ('' @ js_Description js @ '')'' else []);
                  directive = (if length (js_Schema js) > 0 then schemaDirective codec schemaDesc (js_Schema js)
                               else namedDirective table (js_Name js) schemaDesc)
              in req\<lparr>ar_System := ar_System req @ directive\<rparr>))
      else req)"

section \<open>The general path\<close>

definition translateTool :: "Tool \<Rightarrow> AnthropicTool" where
  "translateTool t =
     \<lparr>at_Name = fn_Name (tl_Function t), at_Description = fn_Description (tl_Function t), at_InputSchema = fn_Parameters (tl_Function t)\<rparr>"

text \<open>One turn of the loop over the messages.\<close>

definition addMessage :: "request_codec \<Rightarrow> RichMessage \<Rightarrow> AnthropicRequest \<Rightarrow> AnthropicRequest" where
  "addMessage codec msg req =
     (if rm_Role msg = ''system'' then req\<lparr>ar_System := contentAsString codec (rm_Content msg)\<rparr>
      else if rm_Role msg = ''tool'' then req\<lparr>ar_Messages := ar_Messages req @ [translateToolResultMessage codec msg]\<rparr>
      else if rm_Role msg = ''assistant'' then req\<lparr>ar_Messages := ar_Messages req @ [translateAssistantMessage codec msg]\<rparr>
      else req\<lparr>ar_Messages := ar_Messages req @ [translateUserMessage codec msg]\<rparr>)"

definition anthropicRequest :: "(nat \<Rightarrow> bool) \<Rightarrow> request_codec \<Rightarrow> ChatCompletionRequest \<Rightarrow> AnthropicRequest" where
  "anthropicRequest table codec openAIReq =
     (let req = \<lparr>ar_Model = rq_Model openAIReq, ar_Messages = [], ar_MaxTokens = rq_MaxTokens openAIReq,
            ar_Temperature = rq_Temperature openAIReq, ar_Stream = rq_Stream openAIReq, ar_System = [], ar_TopP = rq_TopP openAIReq,
            ar_StopSequences = [], ar_Tools = []\<rparr>;
          req = (if ar_MaxTokens req = 0 then req\<lparr>ar_MaxTokens := 4096\<rparr> else req);
          req = (if length (rq_Stop openAIReq) > 0 then req\<lparr>ar_StopSequences := rq_Stop openAIReq\<rparr> else req);
          req = req\<lparr>ar_Tools := map translateTool (rq_Tools openAIReq)\<rparr>;
          req = fold (addMessage codec) (rq_Messages openAIReq) req
      in case rq_ResponseFormat openAIReq of
           None \<Rightarrow> req
         | Some rf \<Rightarrow> adaptResponseFormatForAnthropic table codec rf req)"

section \<open>The direct path\<close>

definition rawMessageAsSimpleString :: "request_codec \<Rightarrow> bytes \<Rightarrow> bytes option" where
  "rawMessageAsSimpleString codec raw = (if length raw = 0 then Some [] else jq_String codec raw)"

record anthropicSimpleMessage =
  sm_role :: bytes
  sm_content :: bytes

fun simpleMessages ::
  "request_codec \<Rightarrow> RichMessage list \<Rightarrow> bytes \<Rightarrow> anthropicSimpleMessage list \<Rightarrow> (bytes \<times> anthropicSimpleMessage list) option" where
  "simpleMessages codec [] system messages = Some (system, messages)"
| "simpleMessages codec (msg # msgs) system messages =
     (if length (rm_ToolCalls msg) \<noteq> 0 \<or> rm_ToolCallID msg \<noteq> [] \<or> rm_Name msg \<noteq> [] then None
      else (case rawMessageAsSimpleString codec (rm_Content msg) of
        None \<Rightarrow> None
      | Some content \<Rightarrow>
          if rm_Role msg = ''system'' then simpleMessages codec msgs content messages
          else if rm_Role msg = ''user'' \<or> rm_Role msg = ''assistant'' then
            simpleMessages codec msgs system (messages @ [\<lparr>sm_role = rm_Role msg, sm_content = content\<rparr>])
          else None))"

definition appendJSONFloat32Field :: "bytes \<Rightarrow> bytes \<Rightarrow> float32 \<Rightarrow> bytes" where
  "appendJSONFloat32Field dst key value = dst @ ticked ''`'' @ key @ ticked ''`:'' @ value"

definition appendJSONBoolField :: "bytes \<Rightarrow> bytes \<Rightarrow> bool \<Rightarrow> bytes" where
  "appendJSONBoolField dst key value = dst @ ticked ''`'' @ key @ ticked ''`:'' @ (if value then ''true'' else ''false'')"

fun appendStringElements :: "(nat \<Rightarrow> bool) \<Rightarrow> bytes list \<Rightarrow> nat \<Rightarrow> bytes \<Rightarrow> bytes" where
  "appendStringElements table [] i dst = dst"
| "appendStringElements table (value # values) i dst =
     (let dst = (if i > 0 then dst @ '','' else dst) in appendStringElements table values (i + 1) (dst @ quote table value))"

definition appendJSONStringArrayField :: "(nat \<Rightarrow> bool) \<Rightarrow> bytes \<Rightarrow> bytes \<Rightarrow> bytes list \<Rightarrow> bytes" where
  "appendJSONStringArrayField table dst key values =
     appendStringElements table values 0 (dst @ ticked ''`'' @ key @ ticked ''`:['') @ '']''"

fun appendSimpleMessages :: "(nat \<Rightarrow> bool) \<Rightarrow> anthropicSimpleMessage list \<Rightarrow> nat \<Rightarrow> bytes \<Rightarrow> bytes" where
  "appendSimpleMessages table [] i buf = buf"
| "appendSimpleMessages table (msg # msgs) i buf =
     (let buf = (if i > 0 then buf @ '','' else buf);
          buf = buf @ ''{'';
          buf = appendJSONStringField table buf ''role'' (sm_role msg);
          buf = buf @ '','';
          buf = appendJSONStringField table buf ''content'' (sm_content msg);
          buf = buf @ ''}''
      in appendSimpleMessages table msgs (i + 1) buf)"

definition simpleRequestText :: "(nat \<Rightarrow> bool) \<Rightarrow> ChatCompletionRequest \<Rightarrow> bytes \<Rightarrow> anthropicSimpleMessage list \<Rightarrow> bytes" where
  "simpleRequestText table req system messages =
     (let maxTokens = (if rq_MaxTokens req = 0 then 4096 else rq_MaxTokens req);
          buf = ''{'';
          buf = appendJSONStringField table buf ''model'' (rq_Model req);
          buf = buf @ '','';
          buf = appendJSONIntField buf ''max_tokens'' maxTokens;
          buf = (if \<not> isZeroFloat (rq_Temperature req) then appendJSONFloat32Field (buf @ '','') ''temperature'' (rq_Temperature req) else buf);
          buf = (if rq_Stream req then appendJSONBoolField (buf @ '','') ''stream'' True else buf);
          buf = (if \<not> isZeroFloat (rq_TopP req) then appendJSONFloat32Field (buf @ '','') ''top_p'' (rq_TopP req) else buf);
          buf = (if system \<noteq> [] then appendJSONStringField table (buf @ '','') ''system'' system else buf);
          buf = (if length (rq_Stop req) \<noteq> 0 then appendJSONStringArrayField table (buf @ '','') ''stop_sequences'' (rq_Stop req) else buf);
          buf = buf @ ticked '',`messages`:['';
          buf = appendSimpleMessages table messages 0 buf
      in buf @ '']}'')"

definition translateOpenAIToAnthropicSimple :: "(nat \<Rightarrow> bool) \<Rightarrow> request_codec \<Rightarrow> ChatCompletionRequest \<Rightarrow> bytes option" where
  "translateOpenAIToAnthropicSimple table codec req =
     (if length (rq_Tools req) \<noteq> 0 then None
      else if (case rq_ResponseFormat req of None \<Rightarrow> False | Some rf \<Rightarrow> rf_Type rf \<noteq> [] \<and> rf_Type rf \<noteq> ''text'') then None
      else (case simpleMessages codec (rq_Messages req) [] [] of
        None \<Rightarrow> None
      | Some (system, messages) \<Rightarrow>
          if length messages = 0 then None else Some (simpleRequestText table req system messages)))"

definition TranslateOpenAIToAnthropicBody :: "(nat \<Rightarrow> bool) \<Rightarrow> request_codec \<Rightarrow> bytes \<Rightarrow> (go_error, bytes) result" where
  "TranslateOpenAIToAnthropicBody table codec bodyBytes =
     (if length bodyBytes = 0 then Inl (plainError ''empty request body'')
      else (case jq_Request codec bodyBytes of
        Inl e \<Rightarrow> Inl e
      | Inr openAIReq \<Rightarrow>
          (case translateOpenAIToAnthropicSimple table codec openAIReq of
             Some body \<Rightarrow> Inr body
           | None \<Rightarrow> jq_Marshal codec (anthropicRequest table codec openAIReq))))"

section \<open>Reading a request\<close>

text \<open>A request as its reader sees it. A member that \<open>omitempty\<close> leaves out is missing.\<close>

definition message_at :: "(bytes \<times> bytes) list \<Rightarrow> AnthropicMessage \<Rightarrow> bool" where
  "message_at kvs m \<longleftrightarrow> string_at kvs ''role'' (am_Role m) \<and>
     (case am_Content m of ContentText t \<Rightarrow> string_at kvs ''content'' t | ContentBlocks _ \<Rightarrow> False)"

definition strings_at :: "(bytes \<times> bytes) list \<Rightarrow> bytes \<Rightarrow> bytes list \<Rightarrow> bool" where
  "strings_at kvs k ss \<longleftrightarrow> (\<exists>e vs. map_of kvs k = Some (CHR ''['' # e) \<and> array_doc vs e \<and> list_all2 string_token vs ss)"

definition reads_request :: "bytes \<Rightarrow> AnthropicRequest \<Rightarrow> bool" where
  "reads_request out r \<longleftrightarrow> (\<exists>kvs messages. reads_object out kvs \<and> string_at kvs ''model'' (ar_Model r) \<and>
     int_at kvs ''max_tokens'' (ar_MaxTokens r) \<and>
     map_of kvs ''temperature'' = (if isZeroFloat (ar_Temperature r) then None else Some (ar_Temperature r)) \<and>
     map_of kvs ''stream'' = (if ar_Stream r then Some ''true'' else None) \<and>
     map_of kvs ''top_p'' = (if isZeroFloat (ar_TopP r) then None else Some (ar_TopP r)) \<and>
     (if ar_System r = [] then map_of kvs ''system'' = None else string_at kvs ''system'' (ar_System r)) \<and>
     (if ar_StopSequences r = [] then map_of kvs ''stop_sequences'' = None else strings_at kvs ''stop_sequences'' (ar_StopSequences r)) \<and>
     ar_Tools r = [] \<and> map_of kvs ''tools'' = None \<and>
     objects_at kvs ''messages'' messages \<and> list_all2 message_at messages (ar_Messages r))"

definition simpleMessageMembers :: "(nat \<Rightarrow> bool) \<Rightarrow> anthropicSimpleMessage \<Rightarrow> (bytes \<times> bytes) list" where
  "simpleMessageMembers table m = [(''role'', quote table (sm_role m)), (''content'', quote table (sm_content m))]"

definition requestMembers :: "(nat \<Rightarrow> bool) \<Rightarrow> ChatCompletionRequest \<Rightarrow> bytes \<Rightarrow> anthropicSimpleMessage list \<Rightarrow> (bytes \<times> bytes) list" where
  "requestMembers table req system messages =
     [(''model'', quote table (rq_Model req)), (''max_tokens'', itoa (if rq_MaxTokens req = 0 then 4096 else rq_MaxTokens req))] @
     (if isZeroFloat (rq_Temperature req) then [] else [(''temperature'', rq_Temperature req)]) @
     (if rq_Stream req then [(''stream'', ''true'')] else []) @
     (if isZeroFloat (rq_TopP req) then [] else [(''top_p'', rq_TopP req)]) @
     (if system = [] then [] else [(''system'', quote table system)]) @
     (if rq_Stop req = [] then [] else [(''stop_sequences'', CHR ''['' # compact_elements (map (quote table) (rq_Stop req)))]) @
     [(''messages'', CHR ''['' # compact_elements (map (\<lambda>m. CHR ''{'' # compact_members (simpleMessageMembers table m)) messages))]"

lemma appendSimpleMessages_elements:
  "appendSimpleMessages table msgs n buf @ '']'' =
     buf @ (if n > 0 \<and> msgs \<noteq> [] then '','' else []) @
     compact_elements (map (\<lambda>m. CHR ''{'' # compact_members (simpleMessageMembers table m)) msgs)"
proof (induction msgs arbitrary: n buf)
  case (Cons m msgs)
  then show ?case
    by (simp add: Let_def compact_elements_Cons simpleMessageMembers_def ticked_def compact_key_def appendJSONStringField_def
        del: compact_elements.simps)
qed simp

lemma appendStringElements_elements:
  "appendStringElements table values n dst @ '']'' =
     dst @ (if n > 0 \<and> values \<noteq> [] then '','' else []) @ compact_elements (map (quote table) values)"
proof (induction "values" arbitrary: n dst)
  case (Cons v "values")
  then show ?case by (simp add: Let_def compact_elements_Cons del: compact_elements.simps)
qed simp

lemma compact_members_Cons: "compact_members ((k, v) # ms) = compact_key k @ v @ (if ms = [] then ''}'' else CHR '','' # compact_members ms)"
  by (cases ms) simp_all

lemma simpleRequestText_members:
  "simpleRequestText table req system messages = CHR ''{'' # compact_members (requestMembers table req system messages)"
proof -
  have m: "appendSimpleMessages table messages 0 buf @ '']}'' =
      buf @ compact_elements (map (\<lambda>m. CHR ''{'' # compact_members (simpleMessageMembers table m)) messages) @ ''}''" for buf
    using appendSimpleMessages_elements [of table messages 0 buf] by simp
  show ?thesis
    unfolding simpleRequestText_def Let_def m
    by (simp add: requestMembers_def compact_members_Cons appendStringElements_elements appendJSONStringArrayField_def
        appendJSONStringField_def appendJSONIntField_def appendJSONFloat32Field_def appendJSONBoolField_def ticked_def compact_key_def
        del: compact_members.simps compact_elements.simps)
qed

section \<open>The two paths\<close>

text \<open>\<open>json.Unmarshal\<close> into a string succeeds on a JSON string and on \<open>null\<close>, which leaves the string empty; white space around the
  value makes no difference.\<close>

definition string_decoder :: "request_codec \<Rightarrow> bool" where
  "string_decoder codec \<longleftrightarrow> (\<forall>raw s. jq_String codec raw = Some s \<longrightarrow>
     trimSpace raw = ''null'' \<and> s = [] \<or>
     trimSpace raw \<noteq> [] \<and> hd (trimSpace raw) = CHR 0x22 \<and> jq_String codec (trimSpace raw) = Some s)"

definition textMessage :: "anthropicSimpleMessage \<Rightarrow> AnthropicMessage" where
  "textMessage m = \<lparr>am_Role = sm_role m, am_Content = ContentText (sm_content m)\<rparr>"

lemma simple_string_cases:
  assumes "string_decoder codec" "rawMessageAsSimpleString codec raw = Some s"
  obtains (empty) "raw = []" "s = []" | (null) "trimSpace raw = ''null''" "s = []"
  | (string) "raw \<noteq> []" "decodeOpenAIMessageContent codec raw = Some (MessageString s)"
proof (cases "raw = []")
  case False
  then have "jq_String codec raw = Some s" using assms(2) by (simp add: rawMessageAsSimpleString_def)
  with assms(1) consider "trimSpace raw = ''null''" "s = []"
    | "trimSpace raw \<noteq> []" "hd (trimSpace raw) = CHR 0x22" "jq_String codec (trimSpace raw) = Some s"
    unfolding string_decoder_def by blast
  then show ?thesis
    by cases (use False that in \<open>auto simp: decodeOpenAIMessageContent_def Let_def hd_conv_nth\<close>)
qed (use assms that in \<open>simp add: rawMessageAsSimpleString_def\<close>)

lemma simple_string_content:
  assumes "string_decoder codec" "rawMessageAsSimpleString codec raw = Some s"
  shows "contentAsString codec raw = s"
  using assms by (cases rule: simple_string_cases) (simp_all add: contentAsString_def decodeOpenAIMessageContent_def)

lemma simple_user_message:
  assumes "string_decoder codec" "rawMessageAsSimpleString codec (rm_Content msg) = Some s" "trimSpace (rm_Content msg) \<noteq> ''null''"
  shows "translateUserMessage codec msg = \<lparr>am_Role = ''user'', am_Content = ContentText s\<rparr>"
  using assms(1,2) by (cases rule: simple_string_cases) (use assms(3) in \<open>simp_all add: translateUserMessage_def\<close>)

lemma simple_messages_agree:
  assumes "string_decoder codec" "simpleMessages codec msgs sys acc = Some (sys', acc')"
    and "\<forall>m\<in>set msgs. rm_Role m = ''user'' \<longrightarrow> trimSpace (rm_Content m) \<noteq> ''null''"
    and "ar_System req = sys" "ar_Messages req = map textMessage acc"
  shows "fold (addMessage codec) msgs req = req\<lparr>ar_System := sys', ar_Messages := map textMessage acc'\<rparr>"
  using assms(2-5)
proof (induction msgs arbitrary: sys acc req)
  case Nil
  then show ?case by simp
next
  case (Cons m msgs)
  then obtain s where plain: "rm_ToolCalls m = []" and s: "rawMessageAsSimpleString codec (rm_Content m) = Some s"
    by (auto split: if_splits option.splits)
  note content = simple_string_content [OF assms(1) s] simple_user_message [OF assms(1) s]
  have "rm_Role m = ''system'' \<or> rm_Role m = ''user'' \<or> rm_Role m = ''assistant''"
    using Cons.prems(1) s by (auto split: if_splits)
  then consider "rm_Role m = ''system''" | "rm_Role m = ''user''" | "rm_Role m = ''assistant''" by blast
  then show ?case
  proof cases
    case 1
    with Cons.prems plain s have "simpleMessages codec msgs s acc = Some (sys', acc')" by (simp split: if_splits)
    from Cons.IH [OF this, of "req\<lparr>ar_System := s\<rparr>"] Cons.prems 1 content(1) show ?thesis by (simp add: addMessage_def)
  next
    case 2
    with Cons.prems plain s have "simpleMessages codec msgs sys (acc @ [\<lparr>sm_role = ''user'', sm_content = s\<rparr>]) = Some (sys', acc')"
      by (simp split: if_splits)
    from Cons.IH [OF this, of "req\<lparr>ar_Messages := ar_Messages req @ [\<lparr>am_Role = ''user'', am_Content = ContentText s\<rparr>]\<rparr>"] Cons.prems 2 content(2)
    show ?thesis by (simp add: addMessage_def textMessage_def)
  next
    case 3
    with Cons.prems plain s have "simpleMessages codec msgs sys (acc @ [\<lparr>sm_role = ''assistant'', sm_content = s\<rparr>]) = Some (sys', acc')"
      by (simp split: if_splits)
    from Cons.IH [OF this, of "req\<lparr>ar_Messages := ar_Messages req @ [\<lparr>am_Role = ''assistant'', am_Content = ContentText s\<rparr>]\<rparr>"] Cons.prems 3
      content(1) plain
    show ?thesis by (simp add: addMessage_def textMessage_def translateAssistantMessage_def)
  qed
qed

lemma simple_request_fields:
  assumes "string_decoder codec" "translateOpenAIToAnthropicSimple table codec req = Some out"
    and "\<forall>m\<in>set (rq_Messages req). rm_Role m = ''user'' \<longrightarrow> trimSpace (rm_Content m) \<noteq> ''null''"
  obtains system messages where "out = simpleRequestText table req system messages"
    "anthropicRequest table codec req = \<lparr>ar_Model = rq_Model req, ar_Messages = map textMessage messages,
       ar_MaxTokens = (if rq_MaxTokens req = 0 then 4096 else rq_MaxTokens req), ar_Temperature = rq_Temperature req,
       ar_Stream = rq_Stream req, ar_System = system, ar_TopP = rq_TopP req, ar_StopSequences = rq_Stop req, ar_Tools = []\<rparr>"
proof -
  from assms(2) obtain system messages where s: "simpleMessages codec (rq_Messages req) [] [] = Some (system, messages)"
    "out = simpleRequestText table req system messages" "rq_Tools req = []"
    and rf: "case rq_ResponseFormat req of None \<Rightarrow> True | Some rf \<Rightarrow> rf_Type rf = [] \<or> rf_Type rf = ''text''"
    by (auto simp: translateOpenAIToAnthropicSimple_def split: if_splits option.splits)
  have rf: "(case rq_ResponseFormat req of None \<Rightarrow> r | Some rf \<Rightarrow> adaptResponseFormatForAnthropic table codec rf r) = r" for r
    using rf by (auto simp: adaptResponseFormatForAnthropic_def split: option.splits)
  note agree = simple_messages_agree [OF assms(1) s(1) assms(3)]
  show ?thesis
    by (rule that [OF s(2)]) (simp add: anthropicRequest_def Let_def rf agree s(3))
qed

lemma strings_at_compact: "map_of kvs k = Some (CHR ''['' # compact_elements (map (quote table) ss)) \<Longrightarrow> strings_at kvs k ss"
  unfolding strings_at_def
  by (intro exI conjI, assumption, rule compact_array_doc) (simp add: list_all2_conv_all_nth string_token_quote)

lemma simple_text_reads:
  assumes "int64 (rq_MaxTokens req)"
  shows "reads_request (simpleRequestText table req system messages)
    \<lparr>ar_Model = rq_Model req, ar_Messages = map textMessage messages,
     ar_MaxTokens = (if rq_MaxTokens req = 0 then 4096 else rq_MaxTokens req), ar_Temperature = rq_Temperature req,
     ar_Stream = rq_Stream req, ar_System = system, ar_TopP = rq_TopP req, ar_StopSequences = rq_Stop req, ar_Tools = []\<rparr>"
proof -
  let ?kvs = "requestMembers table req system messages"
  have messages: "list_all2 message_at (map (simpleMessageMembers table) messages) (map textMessage messages)"
    by (auto simp: list_all2_conv_all_nth message_at_def textMessage_def simpleMessageMembers_def intro!: string_at_quote)
  have object: "reads_object (simpleRequestText table req system messages) ?kvs"
    unfolding simpleRequestText_members by (rule reads_compact) (simp add: requestMembers_def plain_chars_code)
  have tokens: "int_at ?kvs ''max_tokens'' (if rq_MaxTokens req = 0 then 4096 else rq_MaxTokens req)"
    by (rule int_at_int64) (use assms in \<open>simp_all add: requestMembers_def int64_def\<close>)
  have model: "string_at ?kvs ''model'' (rq_Model req)" by (rule string_at_quote) (simp add: requestMembers_def)
  have array: "objects_at ?kvs ''messages'' (map (simpleMessageMembers table) messages)"
    by (rule objects_at_compact) (simp_all add: requestMembers_def comp_def list_all_iff simpleMessageMembers_def plain_chars_code)
  have sys: "if system = [] then map_of ?kvs ''system'' = None else string_at ?kvs ''system'' system"
    by (auto simp: requestMembers_def intro: string_at_quote [of _ _ table])
  have stop: "if rq_Stop req = [] then map_of ?kvs ''stop_sequences'' = None else strings_at ?kvs ''stop_sequences'' (rq_Stop req)"
    by (auto simp: requestMembers_def intro: strings_at_compact [of _ _ table])
  show ?thesis
    unfolding reads_request_def AnthropicRequest.simps
    by (intro exI [of _ ?kvs] exI [of _ "map (simpleMessageMembers table) messages"] conjI object model tokens sys stop array messages)
       (simp_all add: requestMembers_def)
qed


text \<open>A codec that decodes the two strings of a small request.\<close>

definition demoRequestCodec :: request_codec where
  "demoRequestCodec =
     \<lparr>jq_Request = (\<lambda>_. Inl (plainError [])), jq_String = (\<lambda>raw. if raw = ticked ''`hi`'' then Some ''hi'' else if raw = ''null'' then Some [] else None),
      jq_Parts = (\<lambda>_. None), jq_Valid = (\<lambda>_. False), jq_Indent = (\<lambda>_. []), jq_Marshal = (\<lambda>_. Inl (plainError []))\<rparr>"

definition demoChatRequest :: "bytes \<Rightarrow> ChatCompletionRequest" where
  "demoChatRequest content =
     \<lparr>rq_Model = ''c'', rq_Messages = [\<lparr>rm_Role = ''user'', rm_Content = content, rm_ToolCalls = [], rm_ToolCallID = [], rm_Name = []\<rparr>],
      rq_Temperature = ''0.5'', rq_Stream = True, rq_MaxTokens = 0, rq_TopP = ''0'', rq_Stop = [], rq_PresencePenalty = ''0'',
      rq_FrequencyPenalty = ''0'', rq_Tools = [], rq_ResponseFormat = None\<rparr>"

lemma demo_string_decoder: "string_decoder demoRequestCodec"
proof -
  have "trimSpace (ticked ''`hi`'') = ticked ''`hi`''" "trimSpace ''null'' = ''null''" by code_simp+
  moreover have "hd (ticked ''`hi`'') = CHR 0x22" "ticked ''`hi`'' \<noteq> []" by code_simp+
  ultimately show ?thesis by (auto simp: string_decoder_def demoRequestCodec_def split: if_splits)
qed


text \<open>The null content of a user message is where the two paths part: the direct path sends the empty text, the general path, which
  the same message takes as soon as the request has a tool, sends the text \<open>null\<close>.\<close>

theorem null_content_differs:
  "translateOpenAIToAnthropicSimple (\<lambda>_. True) demoRequestCodec (demoChatRequest ''null'') =
     Some (ticked ''{`model`:`c`,`max_tokens`:4096,`temperature`:0.5,`stream`:true,`messages`:[{`role`:`user`,`content`:``}]}'') \<and>
   ar_Messages (anthropicRequest (\<lambda>_. True) demoRequestCodec (demoChatRequest ''null'')) = [\<lparr>am_Role = ''user'', am_Content = ContentText ''null''\<rparr>]"
proof
  show "translateOpenAIToAnthropicSimple (\<lambda>_. True) demoRequestCodec (demoChatRequest ''null'') =
      Some (ticked ''{`model`:`c`,`max_tokens`:4096,`temperature`:0.5,`stream`:true,`messages`:[{`role`:`user`,`content`:``}]}'')"
    by code_simp
  show "ar_Messages (anthropicRequest (\<lambda>_. True) demoRequestCodec (demoChatRequest ''null'')) =
      [\<lparr>am_Role = ''user'', am_Content = ContentText ''null''\<rparr>]" by code_simp
qed

section \<open>What every Anthropic request satisfies\<close>

lemma addMessages_shape:
  "map am_Role (ar_Messages (fold (addMessage codec) msgs req)) =
     map am_Role (ar_Messages req) @
     map (\<lambda>m. if rm_Role m = ''assistant'' then ''assistant'' else ''user'') (filter (\<lambda>m. rm_Role m \<noteq> ''system'') msgs)"
proof (induction msgs arbitrary: req)
  case (Cons m msgs)
  have "am_Role (translateUserMessage codec m) = ''user''"
    by (auto simp: translateUserMessage_def split: option.split openAIMessageContent.split)
  with Cons show ?case
    by (simp add: addMessage_def translateToolResultMessage_def translateAssistantMessage_def Let_def)
qed simp

lemma addMessage_keeps [simp]:
  "ar_Model (addMessage codec m req) = ar_Model req" "ar_MaxTokens (addMessage codec m req) = ar_MaxTokens req"
  "ar_Tools (addMessage codec m req) = ar_Tools req" "ar_StopSequences (addMessage codec m req) = ar_StopSequences req"
  "ar_System (addMessage codec m req) = (if rm_Role m = ''system'' then contentAsString codec (rm_Content m) else ar_System req)"
  by (simp_all add: addMessage_def)

lemma addMessages_keep:
  "ar_Model (fold (addMessage codec) msgs req) = ar_Model req" "ar_MaxTokens (fold (addMessage codec) msgs req) = ar_MaxTokens req"
  "ar_Tools (fold (addMessage codec) msgs req) = ar_Tools req" "ar_StopSequences (fold (addMessage codec) msgs req) = ar_StopSequences req"
  by (induction msgs arbitrary: req) simp_all

lemma addMessages_system:
  "ar_System (fold (addMessage codec) msgs req) =
     (if \<exists>m\<in>set msgs. rm_Role m = ''system'' then contentAsString codec (rm_Content (last (filter (\<lambda>m. rm_Role m = ''system'') msgs)))
      else ar_System req)"
proof (induction msgs arbitrary: req)
  case (Cons m msgs)
  have "filter (\<lambda>m. rm_Role m = ''system'') msgs = [] \<longleftrightarrow> \<not> (\<exists>m\<in>set msgs. rm_Role m = ''system'')" by (auto simp: filter_empty_conv)
  with Cons show ?case by simp
qed simp

definition directiveOf :: "(nat \<Rightarrow> bool) \<Rightarrow> request_codec \<Rightarrow> ResponseFormat option \<Rightarrow> bytes" where
  "directiveOf table codec rf =
     (case rf of
        None \<Rightarrow> []
      | Some rf \<Rightarrow> ar_System (adaptResponseFormatForAnthropic table codec rf
          \<lparr>ar_Model = [], ar_Messages = [], ar_MaxTokens = 0, ar_Temperature = [], ar_Stream = False, ar_System = [], ar_TopP = [],
           ar_StopSequences = [], ar_Tools = []\<rparr>))"

lemma adapt_appends:
  "adaptResponseFormatForAnthropic table codec rf req = req\<lparr>ar_System := ar_System req @ directiveOf table codec (Some rf)\<rparr>"
  by (auto simp: adaptResponseFormatForAnthropic_def directiveOf_def Let_def split: option.split)


end
