(* ===== verification/Adapter_Registry.thy ===== *)
theory Adapter_Registry
  imports Adapter_Request
begin

text \<open>
  The Anthropic provider as the proxy calls it (\<open>CompileRequest\<close>, \<open>GenerateProbeRequest\<close> and \<open>TranslateResponse\<close> of
  \<open>internal/adapter/anthropic_provider.go\<close>) and the table of providers, \<open>internal/adapter/provider.go\<close>.
\<close>

section \<open>The Anthropic provider\<close>

text \<open>The world of the adapters: the table of printable characters, copying a body to the client, reading a body (the bytes that
  arrive before it ends, and the error that ended it), the writes and the clock of a translation, and the codecs.\<close>

record 'net adapter_world =
  aw_table :: "nat \<Rightarrow> bool"
  aw_copyBody :: "http_response \<Rightarrow> 'net \<Rightarrow> (bytes list \<times> go_error option) \<times> 'net"
  aw_readBody :: "http_response \<Rightarrow> 'net \<Rightarrow> (bytes \<times> go_error option) \<times> 'net"
  aw_stream :: "'net \<Rightarrow> stream_env"
  aw_now :: "'net \<Rightarrow> int"
  aw_request :: request_codec
  aw_response :: json_codec

definition anthropicCompileRequest ::
  "'net adapter_world \<Rightarrow> url \<Rightarrow> bytes \<Rightarrow> header \<Rightarrow> bytes \<Rightarrow> bytes \<Rightarrow> (go_error, bytes \<times> bytes \<times> header) result" where
  "anthropicCompileRequest world targetURL origPath origHeader body apiKey =
     (case TranslateOpenAIToAnthropicBody (aw_table world) (aw_request world) body of
        Inl e \<Rightarrow> Inl e
      | Inr newBody \<Rightarrow>
          (let header = origHeader;
               header = headerSet header ''x-api-key'' apiKey;
               header = headerSet header ''anthropic-version'' ''2023-06-01'';
               header = headerDel header ''Authorization''
           in Inr (''/v1/messages'', newBody, header)))"

definition anthropicGenerateProbeRequest ::
  "(nat \<Rightarrow> bool) \<Rightarrow> (url \<Rightarrow> bool) \<Rightarrow> url \<Rightarrow> bytes \<Rightarrow> bytes \<Rightarrow> probe_request option" where
  "anthropicGenerateProbeRequest table printableURL targetURL apiKey modelName =
     (let u = targetURL\<lparr>url_Path := ''/v1/messages''\<rparr>;
          header = headerSet (\<lambda>_. None) ''Content-Type'' ''application/json'';
          header = headerSet header ''x-api-key'' apiKey;
          header = headerSet header ''anthropic-version'' ''2023-06-01''
      in if printableURL u then Some (PostProbe u header (probePayload table modelName)) else None)"

text \<open>\<open>io.ReadAll\<close> over an \<open>io.LimitReader\<close>: behind the limit the body ends without an error.\<close>

definition responseLimit :: nat where
  "responseLimit = 4 * 1024 * 1024"

definition readLimited :: "bytes \<times> go_error option \<Rightarrow> bytes \<times> go_error option" where
  "readLimited arrived =
     (if responseLimit \<le> length (fst arrived) then (take responseLimit (fst arrived), None) else arrived)"

definition copyResponseHeaders :: "header \<Rightarrow> write_action" where
  "copyResponseHeaders src = MergeHeader (copiedHeader src)"

text \<open>The single write of a complete answer; a write that fails delivers nothing.\<close>

definition writeAnswer :: "stream_env \<Rightarrow> write_action list \<Rightarrow> bytes \<Rightarrow> write_action list \<times> go_error option" where
  "writeAnswer env acts body = (case se_write env 0 of None \<Rightarrow> (acts @ [SendBytes body], None) | Some e \<Rightarrow> (acts, Some e))"

definition anthropicAnswer :: "'net adapter_world \<Rightarrow> http_response \<Rightarrow> bytes \<Rightarrow> 'net \<Rightarrow> write_action list \<times> go_error option" where
  "anthropicAnswer world resp body net =
     (if resp_StatusCode resp \<noteq> 200 then
        writeAnswer (aw_stream world net)
          [copyResponseHeaders (resp_Header resp), DelHeader ''Server'', SetHeader ''Access-Control-Allow-Origin'' ''*'',
           SendHeader (resp_StatusCode resp)] body
      else (case TranslateAnthropicToOpenAI (aw_table world) (aw_now world net) (aw_response world) body of
        Inl _ \<Rightarrow>
          writeAnswer (aw_stream world net)
            [copyResponseHeaders (resp_Header resp), DelHeader ''Server'', SetHeader ''Access-Control-Allow-Origin'' ''*'',
             SetHeader ''Content-Type'' ''application/json'', SendHeader (resp_StatusCode resp)] body
      | Inr translated \<Rightarrow>
          writeAnswer (aw_stream world net)
            [SetHeader ''Content-Type'' ''application/json'', SetHeader ''Access-Control-Allow-Origin'' ''*'', DelHeader ''Server'',
             SendHeader 200] translated))"

definition isEventStream :: "http_response \<Rightarrow> bool" where
  "isEventStream resp \<longleftrightarrow> contains (headerGet (resp_Header resp) ''Content-Type'') ''text/event-stream''"

definition anthropicTranslateResponse ::
  "'net adapter_world \<Rightarrow> http_response \<Rightarrow> bytes \<Rightarrow> 'net \<Rightarrow> (write_action list \<times> go_error option) \<times> 'net" where
  "anthropicTranslateResponse world resp modelName net =
     (if isEventStream resp then streamAdapter (aw_stream world) (aw_now world) (aw_readBody world) resp modelName net
      else (case aw_readBody world resp net of
        (arrived, net') \<Rightarrow>
          (case readLimited arrived of
             (_, Some e) \<Rightarrow> (([], Some (wrapError ''read anthropic response'' e)), net')
           | (body, None) \<Rightarrow> (anthropicAnswer world resp body net, net'))))"

definition AnthropicProvider :: "'net adapter_world \<Rightarrow> 'net adapter" where
  "AnthropicProvider world =
     \<lparr>ad_CompileRequest = anthropicCompileRequest world, ad_TranslateResponse = anthropicTranslateResponse world\<rparr>"

section \<open>The table of providers\<close>

definition providers :: "'net adapter_world \<Rightarrow> (bytes \<times> 'net adapter) list" where
  "providers world =
     [(''openai'', OpenAIProvider (aw_copyBody world)), (''anthropic'', AnthropicProvider world),
      (''siliconflow'', OpenAIProvider (aw_copyBody world))]"

definition GetProvider :: "'net adapter_world \<Rightarrow> bytes \<Rightarrow> 'net adapter" where
  "GetProvider world name =
     (case map_of (providers world) name of
        Some p \<Rightarrow> p
      | None \<Rightarrow> OpenAIProvider (aw_copyBody world))"

section \<open>Answering\<close>

text \<open>Reading a complete answer does not fail.\<close>

definition whole_bodies :: "'net adapter_world \<Rightarrow> bool" where
  "whole_bodies world \<longleftrightarrow> (\<forall>resp net. \<not> isEventStream resp \<longrightarrow> snd (readLimited (fst (aw_readBody world resp net))) = None)"

definition anthropicStatus :: "http_response \<Rightarrow> int" where
  "anthropicStatus resp = (if isEventStream resp then 200 else resp_StatusCode resp)"

lemma writeAnswer_cases:
  "fst (writeAnswer env acts body) = acts @ [SendBytes body] \<or> fst (writeAnswer env acts body) = acts"
  by (auto simp: writeAnswer_def split: option.split)

definition header_action :: "write_action \<Rightarrow> bool" where
  "header_action a \<longleftrightarrow> (case a of SendHeader _ \<Rightarrow> False | SendBytes _ \<Rightarrow> False | _ \<Rightarrow> True)"

lemma writeAnswer_sends:
  assumes "writeAnswer env (pre @ [SendHeader status]) body = (acts, err)" "\<forall>a\<in>set pre. header_action a"
  shows "\<exists>pre post. acts = pre @ SendHeader status # post \<and> (\<forall>a\<in>set pre. header_action a)"
proof -
  from writeAnswer_cases [of env "pre @ [SendHeader status]" body] assms(1)
  have "acts = pre @ SendHeader status # [SendBytes body] \<or> acts = pre @ SendHeader status # []" by auto
  with assms(2) show ?thesis by blast
qed

lemma anthropicAnswer_cases:
  obtains (relay) pre out where "anthropicAnswer world resp body net = writeAnswer (aw_stream world net) (pre @ [SendHeader (resp_StatusCode resp)]) out"
    "\<forall>a\<in>set pre. header_action a"
    "out = (if resp_StatusCode resp \<noteq> 200 then body else case TranslateAnthropicToOpenAI (aw_table world) (aw_now world net) (aw_response world) body of
       Inl _ \<Rightarrow> body | Inr translated \<Rightarrow> translated)"
proof -
  let ?merge = "[copyResponseHeaders (resp_Header resp), DelHeader ''Server'', SetHeader ''Access-Control-Allow-Origin'' ''*'']"
  let ?json = "SetHeader ''Content-Type'' ''application/json''"
  have h: "\<forall>a\<in>set ?merge. header_action a" "\<forall>a\<in>set (?merge @ [?json]). header_action a"
    "\<forall>a\<in>set [?json, SetHeader ''Access-Control-Allow-Origin'' ''*'', DelHeader ''Server'']. header_action a"
    by (simp_all add: header_action_def copyResponseHeaders_def)
  show thesis
  proof (cases "resp_StatusCode resp = 200")
    case False
    then show ?thesis by (intro that [of ?merge body] h) (simp_all add: anthropicAnswer_def)
  next
    case ok: True
    show ?thesis
    proof (cases "TranslateAnthropicToOpenAI (aw_table world) (aw_now world net) (aw_response world) body")
      case (Inl e)
      with ok show ?thesis by (intro that [of "?merge @ [?json]" body] h) (simp_all add: anthropicAnswer_def)
    next
      case (Inr out)
      with ok show ?thesis
        by (intro that [of "[?json, SetHeader ''Access-Control-Allow-Origin'' ''*'', DelHeader ''Server'']" out] h) (simp_all add: anthropicAnswer_def)
    qed
  qed
qed

lemma anthropicAnswer_sends:
  assumes "anthropicAnswer world resp body net = (acts, err)"
  shows "\<exists>pre post. acts = pre @ SendHeader (resp_StatusCode resp) # post \<and> (\<forall>a\<in>set pre. header_action a)"
proof (rule anthropicAnswer_cases [of world resp body net])
  fix pre out
  assume "anthropicAnswer world resp body net = writeAnswer (aw_stream world net) (pre @ [SendHeader (resp_StatusCode resp)]) out"
    "\<forall>a\<in>set pre. header_action a"
  with assms show ?thesis by (intro writeAnswer_sends) simp_all
qed

lemma anthropic_answering_adapter:
  assumes "whole_bodies world"
  shows "answering_adapter (anthropicTranslateResponse world) anthropicStatus"
proof
  fix resp m net acts err net'
  assume run: "anthropicTranslateResponse world resp m net = ((acts, err), net')"
  show "\<exists>pre post. acts = pre @ SendHeader (anthropicStatus resp) # post \<and>
      (\<forall>a\<in>set pre. case a of SendHeader _ \<Rightarrow> False | SendBytes _ \<Rightarrow> False | _ \<Rightarrow> True)"
  proof (cases "isEventStream resp")
    case True
    with run have "streamAdapter (aw_stream world) (aw_now world) (aw_readBody world) resp m net = ((acts, err), net')"
      by (simp add: anthropicTranslateResponse_def)
    from stream.sends_header [OF this] True show ?thesis by (simp add: anthropicStatus_def)
  next
    case False
    obtain arrived n where r: "aw_readBody world resp net = (arrived, n)" by fastforce
    have "snd (readLimited arrived) = None" using assms False r unfolding whole_bodies_def by (metis fst_conv)
    with run r False have "anthropicAnswer world resp (fst (readLimited arrived)) net = (acts, err)"
      by (auto simp: anthropicTranslateResponse_def split: prod.splits option.splits)
    from anthropicAnswer_sends [OF this] False show ?thesis by (simp add: anthropicStatus_def header_action_def)
  qed
qed

text \<open>What the proxy relies on: translating a response commits a status.\<close>

definition answering :: "'net adapter \<Rightarrow> bool" where
  "answering ad \<longleftrightarrow> (\<forall>resp m net w. w_sent w = None \<longrightarrow> w_sent (runActions (fst (fst (ad_TranslateResponse ad resp m net))) w) \<noteq> None)"

lemma answering_adapter_answering:
  assumes "answering_adapter (ad_TranslateResponse ad) status"
  shows "answering ad"
  unfolding answering_def using answering_adapter.answers [OF assms] by (metis option.distinct(1) prod.collapse)

lemma GetProvider_cases: "GetProvider world name = OpenAIProvider (aw_copyBody world) \<or> GetProvider world name = AnthropicProvider world"
  by (simp add: GetProvider_def providers_def)

lemma GetProvider_answering:
  assumes "whole_bodies world"
  shows "answering (GetProvider world name)"
proof -
  have "answering (OpenAIProvider (aw_copyBody world))"
    by (rule answering_adapter_answering [of _ resp_StatusCode]) (simp add: OpenAIProvider_def openai.answering_adapter_axioms)
  moreover have "answering (AnthropicProvider world)"
    by (rule answering_adapter_answering [of _ anthropicStatus]) (simp add: AnthropicProvider_def anthropic_answering_adapter [OF assms])
  ultimately show ?thesis using GetProvider_cases [of world name] by auto
qed

section \<open>Properties\<close>

lemma canonical_anthropic_literals:
  "canonicalHeaderKey ''x-api-key'' = ''X-Api-Key''" "canonicalHeaderKey ''anthropic-version'' = ''Anthropic-Version''"
  "canonicalHeaderKey ''Authorization'' = ''Authorization''" "canonicalHeaderKey ''X-Api-Key'' = ''X-Api-Key''"
  "canonicalHeaderKey ''Content-Type'' = ''Content-Type''"
  by code_simp+

text \<open>C32. A request for the Anthropic provider never carries the client's credentials: it goes to the configured host, to
  \<open>/v1/messages\<close>, without an \<open>Authorization\<close> field, with the provider's key in \<open>X-Api-Key\<close>; its body is the translation of the
  body the gateway would have sent. A body that cannot be translated is an error and no request is compiled.\<close>

theorem compile_anthropic_request:
  assumes "urls_ok rt s" "rt_ParseURL rt (pr_BaseURL provider) = Some u"
  shows "case compile rt tp provider (AnthropicProvider world) s of
      (Inr c, s') \<Rightarrow> url_Scheme (cr_url c) = url_Scheme u \<and> url_Host (cr_url c) = url_Host u \<and> cr_host c = url_Host u \<and>
        url_Path (cr_url c) = ''/v1/messages'' \<and> headerGet (cr_header c) ''Authorization'' = [] \<and>
        headerGet (cr_header c) ''X-Api-Key'' = pr_APIKey provider \<and>
        TranslateOpenAIToAnthropicBody (aw_table world) (aw_request world) (tp_upstreamBody tp) = Inr (cr_body c)
    | (Inl e, s') \<Rightarrow> TranslateOpenAIToAnthropicBody (aw_table world) (aw_request world) (tp_upstreamBody tp) = Inl e"
proof -
  obtain up where p: "parseAndCacheBaseURL rt (pr_BaseURL provider) s = (Some u, up)"
    using parseAndCacheBaseURL_spec(1) [OF assms(1), of "pr_BaseURL provider"] assms(2) by (metis surj_pair)
  show ?thesis
    by (auto simp: compile_def p AnthropicProvider_def anthropicCompileRequest_def headerGet_def headerSet_def headerDel_def
        canonical_anthropic_literals Let_def split: sum.splits)
qed

text \<open>A world that delivers every body and every write, and whose codecs accept nothing.\<close>

definition demoWorld :: "nat adapter_world" where
  "demoWorld =
     \<lparr>aw_table = (\<lambda>_. True), aw_copyBody = (\<lambda>resp n. (([resp_Body resp], None), n)), aw_readBody = (\<lambda>resp n. ((resp_Body resp, None), n)),
      aw_stream = (\<lambda>_. echoEnv), aw_now = int,
      aw_request = demoRequestCodec\<lparr>jq_Request := (\<lambda>b. if b = ''{}'' then Inr (demoChatRequest (ticked ''`hi`'')) else Inl (plainError ''bad''))\<rparr>,
      aw_response = demoCodec\<lparr>jc_ToolUse := (\<lambda>_. None), jc_Response := (\<lambda>_. Inl (plainError ''bad''))\<rparr>\<rparr>"

lemma demoWorld_whole: "whole_bodies demoWorld"
  by (simp add: whole_bodies_def demoWorld_def readLimited_def)

theorem compile_anthropic_request_witness:
  "\<exists>c s'. compile demoRuntime demoTemplate (namedRoute ''anthropic'' ''https://h'') (AnthropicProvider demoWorld) (emptyUpstream :: nat upstream_state)
      = (Inr c, s') \<and> headerGet (tp_header demoTemplate) ''Authorization'' = ''Bearer gw-token'' \<and> headerGet (cr_header c) ''Authorization'' = []"
proof -
  let ?u = "\<lparr>url_Scheme = ''https'', url_Host = ''h'', url_Path = [], url_RawPath = [], url_RawQuery = []\<rparr>"
  let ?run = "compile demoRuntime demoTemplate (namedRoute ''anthropic'' ''https://h'') (AnthropicProvider demoWorld) (emptyUpstream :: nat upstream_state)"
  have u: "rt_ParseURL demoRuntime (pr_BaseURL (namedRoute ''anthropic'' ''https://h'')) = Some ?u" by (simp add: demoRuntime_def)
  have t: "isl (TranslateOpenAIToAnthropicBody (aw_table demoWorld) (aw_request demoWorld) (tp_upstreamBody demoTemplate)) = False" by code_simp
  have h: "headerGet (tp_header demoTemplate) ''Authorization'' = ''Bearer gw-token''" by code_simp
  from compile_anthropic_request [where s = "emptyUpstream :: nat upstream_state" and tp = demoTemplate and world = demoWorld, OF emptyUpstream_urls u] t h show ?thesis
    by (cases ?run) (auto split: sum.splits)
qed

lemma runActions_writeAnswer:
  assumes "\<forall>a\<in>set pre. header_action a" "w_sent w = None" "writeAnswer env (pre @ [SendHeader status]) out = (acts, err)"
  shows "\<exists>h. w_sent (runActions acts w) = Some (status, h)" "w_body (runActions acts w) = w_body w @ (if err = None then [Raw out] else [])"
proof -
  have keep: "w_sent (runActions acts v) = w_sent v \<and> w_body (runActions acts v) = w_body v" if "\<forall>a\<in>set acts. header_action a" for acts v
    using that
  proof (induction acts arbitrary: v)
    case (Cons a acts)
    have "w_sent (runAction a v) = w_sent v \<and> w_body (runAction a v) = w_body v" using Cons.prems by (cases a) (auto simp: header_action_def)
    with Cons.IH [of "runAction a v"] Cons.prems show ?case by (simp add: runActions_def)
  qed (simp add: runActions_def)
  let ?w = "runActions pre w"
  have sent: "w_sent ?w = None" "w_body ?w = w_body w" using keep [OF assms(1), of w] assms(2) by simp_all
  have "acts = pre @ [SendHeader status] @ (if err = None then [SendBytes out] else [])"
    using assms(3) by (auto simp: writeAnswer_def split: option.splits)
  then have run: "runActions acts w = (if err = None then runAction (SendBytes out) (runAction (SendHeader status) ?w) else runAction (SendHeader status) ?w)"
    by (simp add: runActions_def)
  have s: "w_sent (runAction (SendHeader status) ?w) = Some (status, w_header ?w)" using sent(1) by (simp add: w_sent_writeHeader)
  show "\<exists>h. w_sent (runActions acts w) = Some (status, h)"
    unfolding run using s openai.runAction_keeps_sent [OF s, of "SendBytes out"] by auto
  show "w_body (runActions acts w) = w_body w @ (if err = None then [Raw out] else [])"
    unfolding run using sent(2) by simp
qed



end
