(* ===== verification/Proxy_Trace.thy ===== *)
theory Proxy_Trace
  imports Adapter_Registry
begin

text \<open>
  What the proxy loop may do, stated as an abstract machine over its trace, and the proof that the
  loop of \<open>proxy.go\<close> follows it. The machine for one provider sees only the attempt records; the
  machine for a request sees the providers in order. From the machine follow the bound on the
  number of upstream requests and the shape of the failover chain.
\<close>

section \<open>The attempts on one provider\<close>

text \<open>\<open>attempts_ok name idx budget k ts fin\<close>: from attempt number \<open>k\<close> on, the records \<open>ts\<close> are added, and
  \<open>fin\<close> tells whether the request is over.\<close>

definition attempt_rec :: "bytes \<Rightarrow> int \<Rightarrow> int \<Rightarrow> int \<Rightarrow> bytes \<Rightarrow> UpstreamAttemptTrace \<Rightarrow> bool" where
  "attempt_rec name idx budget k result t \<longleftrightarrow> at_Provider t = name \<and> at_ProviderIndex t = idx \<and>
     at_AttemptBudget t = budget \<and> at_Attempt t = k \<and> at_Result t = result"

inductive attempts_ok :: "bytes \<Rightarrow> int \<Rightarrow> int \<Rightarrow> int \<Rightarrow> UpstreamAttemptTrace list \<Rightarrow> bool \<Rightarrow> bool"
  for name idx budget where
  no_budget: "budget < k \<Longrightarrow> attempts_ok name idx budget k [] False"
| exhausted: "k = budget \<Longrightarrow> attempt_rec name idx budget k ''retry_exhausted'' t \<Longrightarrow> attempts_ok name idx budget k [t] False"
| gave_up: "k \<le> budget \<Longrightarrow> attempt_rec name idx budget k ''failover'' t \<Longrightarrow> attempts_ok name idx budget k [t] False"
| client_gone: "k \<le> budget \<Longrightarrow> attempt_rec name idx budget k ''error'' t \<Longrightarrow> attempts_ok name idx budget k [t] True"
| answered: "k \<le> budget \<Longrightarrow> attempt_rec name idx budget k ''returned_response'' t \<Longrightarrow> attempts_ok name idx budget k [t] True"
| wait_canceled: "k < budget \<Longrightarrow> attempt_rec name idx budget k ''retry'' t \<Longrightarrow> attempts_ok name idx budget k [t] True"
| again: "k < budget \<Longrightarrow> attempt_rec name idx budget k ''retry'' t \<Longrightarrow> attempts_ok name idx budget (k + 1) ts fin \<Longrightarrow>
    attempts_ok name idx budget k (t # ts) fin"

inductive_simps attempts_ok_Nil: "attempts_ok name idx budget k [] fin"

lemma attempts_ok_length: "attempts_ok name idx budget k ts fin \<Longrightarrow> length ts \<le> nat (budget - k + 1)"
  by (induction rule: attempts_ok.induct) auto

lemma attempts_ok_numbers:
  "attempts_ok name idx budget k ts fin \<Longrightarrow> map at_Attempt ts = map (\<lambda>i. k + int i) [0..<length ts]"
proof (induction rule: attempts_ok.induct)
  case (again k t ts fin)
  have "map (\<lambda>i. k + int i) [0..<Suc (length ts)] = k # map (\<lambda>i. k + 1 + int i) [0..<length ts]"
    by (simp add: upt_conv_Cons del: upt_Suc flip: map_Suc_upt)
  with again show ?case by (simp add: attempt_rec_def)
qed (auto simp: attempt_rec_def)

lemma attempts_ok_provider: "attempts_ok name idx budget k ts fin \<Longrightarrow> t \<in> set ts \<Longrightarrow>
    at_Provider t = name \<and> at_ProviderIndex t = idx \<and> at_AttemptBudget t = budget \<and> k \<le> at_Attempt t \<and> at_Attempt t \<le> budget"
  by (induction rule: attempts_ok.induct) (auto simp: attempt_rec_def)

lemma attempts_ok_tried: "attempts_ok name idx budget k ts fin \<Longrightarrow> k \<le> budget \<Longrightarrow> ts \<noteq> []"
  by (induction rule: attempts_ok.induct) auto

section \<open>The loop follows the machine\<close>

lemma noteAttempt_ctx [simp]:
  "gc_UpstreamAttempts (ps_ctx (noteAttempt p i b k res rs result st)) = gc_UpstreamAttempts (ps_ctx st) @
     [\<lparr>at_Provider = pr_Name p, at_ProviderIndex = i, at_Attempt = k, at_AttemptBudget = b,
       at_StatusCode = (case ar_resp res of None \<Rightarrow> 0 | Some r \<Rightarrow> resp_StatusCode r), at_Result = result, at_Reason = rs,
       at_DurationMs = (if 0 \<le> ar_duration res then ar_duration res div 1000000 else - ((- ar_duration res) div 1000000))\<rparr>]"
  "gc_FailoverEvents (ps_ctx (noteAttempt p i b k res rs result st)) = gc_FailoverEvents (ps_ctx st)"
  "gc_FailoverCount (ps_ctx (noteAttempt p i b k res rs result st)) = gc_FailoverCount (ps_ctx st)"
  by (simp_all add: noteAttempt_def)

lemmas after_defs = afterRetry_def afterCanceledWait_def afterFailover_def afterTerminate_def afterReturn_def Let_def

text \<open>The trace part of a state: attempts, failovers, failover count.\<close>

abbreviation trace_keeps :: "('net, 'cb) proxy_state \<Rightarrow> ('net, 'cb) proxy_state \<Rightarrow> UpstreamAttemptTrace list \<Rightarrow> bool" where
  "trace_keeps st st' ts \<equiv> gc_UpstreamAttempts (ps_ctx st') = gc_UpstreamAttempts (ps_ctx st) @ ts \<and>
     gc_FailoverEvents (ps_ctx st') = gc_FailoverEvents (ps_ctx st) \<and> gc_FailoverCount (ps_ctx st') = gc_FailoverCount (ps_ctx st)"

text \<open>The ways one round of the attempt loop can end.\<close>

lemma attemptLoop_cases:
  assumes "attemptLoop env tp isStream backoff p idx ad compiled budget (Suc n) st = (fin, st')"
    "sendAttempt env tp isStream p compiled st = (res, st1)"
  obtains
    (again) net where "budget - int n < budget" "waitRetryBackoff env backoff (ps_net st1) = (True, net)"
      "attemptLoop env tp isStream backoff p idx ad compiled budget n ((afterRetry p idx budget (budget - int n) res st1)\<lparr>ps_net := net\<rparr>) = (fin, st')"
  | (wait_canceled) net where "budget - int n < budget" "waitRetryBackoff env backoff (ps_net st1) = (False, net)" "fin"
      "st' = afterCanceledWait env ((afterRetry p idx budget (budget - int n) res st1)\<lparr>ps_net := net\<rparr>)"
  | (exhausted) "budget - int n = budget" "\<not> fin" "st' = afterRetry p idx budget (budget - int n) res st1"
  | (failover) "\<not> fin" "st' = afterFailover p idx budget (budget - int n) res st1"
  | (terminate) "fin" "st' = afterTerminate p idx budget (budget - int n) res st1"
  | (answered) r where "fin" "ar_resp res = Some r" "st' = afterReturn env p idx ad budget (budget - int n) res r st1"
proof (cases "ar_action res")
  case upstreamAttemptRetrySameProvider
  have "ps_net (afterRetry p idx budget (budget - int n) res st1) = ps_net st1" by (simp add: after_defs noteAttempt_def)
  with assms upstreamAttemptRetrySameProvider that(1-3) show ?thesis
    by (cases "waitRetryBackoff env backoff (ps_net st1)") (auto simp: Let_def split: if_splits bool.splits)
next
  case upstreamAttemptReturn
  with sendAttempt_keeps(6) [OF assms(2)] obtain r where "ar_resp res = Some r" by blast
  with assms upstreamAttemptReturn that(6) show ?thesis by auto
qed (use assms that in auto)

lemma attemptLoop_trace:
  "attemptLoop env tp isStream backoff p idx ad compiled budget n st = (fin, st') \<Longrightarrow>
     \<exists>ts. trace_keeps st st' ts \<and> attempts_ok (pr_Name p) idx budget (budget - int n + 1) ts fin"
proof (induction n arbitrary: st)
  case 0
  then show ?case by (simp add: attempts_ok_Nil)
next
  case (Suc n)
  obtain res st1 where s: "sendAttempt env tp isStream p compiled st = (res, st1)" by fastforce
  note keep = sendAttempt_keeps(1) [OF s]
  let ?k = "budget - int n"
  define st2 where "st2 = afterRetry p idx budget ?k res st1"
  define t where "t = last (gc_UpstreamAttempts (ps_ctx st2))"
  have st2: "trace_keeps st st2 [t]" and t: "attempt_rec (pr_Name p) idx budget ?k (retryAttemptResult ?k budget) t"
    by (simp_all add: st2_def t_def after_defs keep attempt_rec_def)
  from Suc.prems s show ?case
  proof (cases rule: attemptLoop_cases)
    case (again net)
    from Suc.IH [OF again(3)] obtain ts where "trace_keeps (st2\<lparr>ps_net := net\<rparr>) st' ts"
      and ts: "attempts_ok (pr_Name p) idx budget (?k + 1) ts fin" by (auto simp: algebra_simps st2_def)
    with st2 have "trace_keeps st st' (t # ts)" by simp
    moreover have "attempts_ok (pr_Name p) idx budget ?k (t # ts) fin"
      using attempts_ok.again [OF again(1) _ ts] t again(1) by (simp add: retryAttemptResult_def)
    ultimately show ?thesis by (auto simp: algebra_simps)
  next
    case (wait_canceled net)
    with st2 t show ?thesis
      by (auto simp: st2_def [symmetric] afterCanceledWait_def retryAttemptResult_def intro!: attempts_ok.wait_canceled)
  next
    case exhausted
    have "st' = st2" using exhausted(3) by (simp add: st2_def)
    with exhausted(1,2) st2 t show ?thesis by (auto simp: retryAttemptResult_def intro!: attempts_ok.exhausted)
  next
    case failover
    then show ?thesis using keep by (auto simp: after_defs attempt_rec_def intro!: gave_up)
  next
    case terminate
    then show ?thesis using keep by (auto simp: after_defs attempt_rec_def intro!: client_gone)
  next
    case (answered r)
    then show ?thesis using keep by (auto simp: after_defs attempt_rec_def intro!: attempts_ok.answered)
  qed
qed

section \<open>The providers of a request\<close>

definition attemptBudgetOf :: "Config \<Rightarrow> ProviderRoute \<Rightarrow> int" where
  "attemptBudgetOf cfg p = effectiveRetryCount cfg p + 1"

definition failover_rec :: "ProviderRoute \<Rightarrow> ProviderRoute \<Rightarrow> nat \<Rightarrow> int \<Rightarrow> UpstreamFailoverTrace \<Rightarrow> bool" where
  "failover_rec p q idx cnt f \<longleftrightarrow> ft_FromProvider f = pr_Name p \<and> ft_ToProvider f = pr_Name q \<and>
     ft_ProviderIndex f = int idx \<and> ft_FailoverCount f = cnt"

text \<open>\<open>request_run cfg idx c ps ts fs fin\<close>: the providers \<open>ps\<close>, the first of them at position \<open>idx\<close>, with \<open>c\<close>
  failovers so far, add the attempts \<open>ts\<close> and the failovers \<open>fs\<close>.\<close>

inductive request_run ::
  "Config \<Rightarrow> nat \<Rightarrow> int \<Rightarrow> ProviderRoute list \<Rightarrow> UpstreamAttemptTrace list \<Rightarrow> UpstreamFailoverTrace list \<Rightarrow> bool \<Rightarrow> bool"
  for cfg where
  run_out: "request_run cfg idx c [] [] [] False"
| build_failed: "request_run cfg idx c (p # ps) [] [] True"
| run_done: "attempts_ok (pr_Name p) (int idx) (attemptBudgetOf cfg p) 1 ts True \<Longrightarrow> request_run cfg idx c (p # ps) ts [] True"
| run_last: "attempts_ok (pr_Name p) (int idx) (attemptBudgetOf cfg p) 1 ts False \<Longrightarrow> request_run cfg idx c [p] ts [] False"
| run_next: "attempts_ok (pr_Name p) (int idx) (attemptBudgetOf cfg p) 1 ts False \<Longrightarrow>
    failover_rec p q idx (c + 1) f \<Longrightarrow> request_run cfg (idx + 1) (c + 1) (q # ps) ts' fs fin \<Longrightarrow>
    request_run cfg idx c (p # q # ps) (ts @ ts') (f # fs) fin"

lemma request_run_attempts:
  "request_run cfg idx c ps ts fs fin \<Longrightarrow> length ts \<le> (\<Sum>p\<leftarrow>ps. nat (attemptBudgetOf cfg p))"
  by (induction rule: request_run.induct) (auto dest: attempts_ok_length)

lemma request_run_failovers:
  "request_run cfg idx c ps ts fs fin \<Longrightarrow> ps \<noteq> [] \<Longrightarrow>
     map (\<lambda>f. (ft_FromProvider f, ft_ToProvider f)) fs = take (length fs) (zip (map pr_Name ps) (tl (map pr_Name ps)))
     \<and> map ft_FailoverCount fs = map (\<lambda>i. c + 1 + int i) [0..<length fs] \<and> length fs < length ps"
proof (induction rule: request_run.induct)
  case (run_next p idx ts q c f ps ts' fs fin)
  have "map (\<lambda>i. c + 1 + int i) [0..<Suc (length fs)] = (c + 1) # map (\<lambda>i. c + 1 + 1 + int i) [0..<length fs]"
    by (simp add: upt_conv_Cons del: upt_Suc flip: map_Suc_upt)
  with run_next show ?case by (auto simp: failover_rec_def)
qed auto

lemma attempts_ok_index: "attempts_ok name idx budget k ts fin \<Longrightarrow> map at_ProviderIndex ts = replicate (length ts) idx"
  by (induction rule: attempts_ok.induct) (auto simp: attempt_rec_def)

definition attempt_at :: "Config \<Rightarrow> nat \<Rightarrow> ProviderRoute list \<Rightarrow> UpstreamAttemptTrace \<Rightarrow> bool" where
  "attempt_at cfg idx ps t \<longleftrightarrow> (\<exists>i<length ps. at_ProviderIndex t = int (idx + i) \<and> at_Provider t = pr_Name (ps ! i) \<and>
     1 \<le> at_Attempt t \<and> at_Attempt t \<le> attemptBudgetOf cfg (ps ! i))"

lemma attempt_at_first:
  "attempts_ok (pr_Name p) (int idx) (attemptBudgetOf cfg p) 1 ts fin \<Longrightarrow> t \<in> set ts \<Longrightarrow> attempt_at cfg idx (p # ps) t"
  unfolding attempt_at_def by (rule exI [of _ 0]) (auto dest: attempts_ok_provider)

lemma attempt_at_later: "attempt_at cfg (idx + 1) ps t \<Longrightarrow> attempt_at cfg idx (p # ps) t"
  unfolding attempt_at_def by (metis Suc_eq_plus1 add.assoc add.commute length_Cons nth_Cons_Suc not_less_eq)

lemma request_run_positions:
  "request_run cfg idx c ps ts fs fin \<Longrightarrow>
     sorted (map at_ProviderIndex ts) \<and> (\<forall>t\<in>set ts. attempt_at cfg idx ps t)"
proof (induction rule: request_run.induct)
  case (run_next p idx ts q c f ps ts' fs fin)
  have "at_ProviderIndex t = int idx" if "t \<in> set ts" for t using attempts_ok_provider [OF run_next(1) that] by blast
  moreover have "int idx \<le> at_ProviderIndex t'" if "t' \<in> set ts'" for t'
    using run_next(4) that by (fastforce simp: attempt_at_def)
  moreover have "sorted (map at_ProviderIndex ts)" using attempts_ok_index [OF run_next(1)] by simp
  ultimately show ?case
    using run_next(4) attempt_at_first [OF run_next(1)] attempt_at_later by (auto simp: sorted_append)
qed (auto dest: attempts_ok_index attempt_at_first)

lemma attempts_ok_some:
  assumes "attempts_ok name idx budget 1 ts fin" "1 \<le> budget"
  shows "\<exists>t\<in>set ts. at_ProviderIndex t = idx \<and> at_Provider t = name"
  using attempts_ok_tried [OF assms] attempts_ok_provider [OF assms(1)] hd_in_set by blast

text \<open>A request that is not over after its last candidate has tried all of them.\<close>

lemma request_run_exhaustive:
  "request_run cfg idx c ps ts fs fin \<Longrightarrow> \<not> fin \<Longrightarrow> \<forall>p\<in>set ps. 1 \<le> attemptBudgetOf cfg p \<Longrightarrow> i < length ps \<Longrightarrow>
     \<exists>t\<in>set ts. at_ProviderIndex t = int (idx + i) \<and> at_Provider t = pr_Name (ps ! i)"
proof (induction arbitrary: i rule: request_run.induct)
  case (run_last p idx ts c)
  then show ?case using attempts_ok_some [OF run_last(1)] by simp
next
  case (run_next p idx ts q c f ps ts' fs fin)
  show ?case
  proof (cases i)
    case 0
    then show ?thesis using attempts_ok_some [OF run_next(1)] run_next.prems by auto
  next
    case (Suc j)
    with run_next.IH [of j] run_next.prems show ?thesis by auto
  qed
qed auto

lemma noteFailover_ctx:
  "gc_UpstreamAttempts (ps_ctx (noteFailover cands i p st)) = gc_UpstreamAttempts (ps_ctx st)"
  "i + 1 < length cands \<Longrightarrow> gc_FailoverCount (ps_ctx (noteFailover cands i p st)) = gc_FailoverCount (ps_ctx st) + 1 \<and>
     (\<exists>f. gc_FailoverEvents (ps_ctx (noteFailover cands i p st)) = gc_FailoverEvents (ps_ctx st) @ [f] \<and>
       failover_rec p (cands ! (i + 1)) i (gc_FailoverCount (ps_ctx st) + 1) f)"
  "\<not> i + 1 < length cands \<Longrightarrow> noteFailover cands i p st = st"
  by (auto simp: noteFailover_def Let_def failover_rec_def nextProviderName_def nat_add_distrib)

abbreviation run_keeps ::
  "('net, 'cb) proxy_state \<Rightarrow> ('net, 'cb) proxy_state \<Rightarrow> UpstreamAttemptTrace list \<Rightarrow> UpstreamFailoverTrace list \<Rightarrow> bool" where
  "run_keeps st st' ts fs \<equiv> gc_UpstreamAttempts (ps_ctx st') = gc_UpstreamAttempts (ps_ctx st) @ ts \<and>
     gc_FailoverEvents (ps_ctx st') = gc_FailoverEvents (ps_ctx st) @ fs \<and>
     gc_FailoverCount (ps_ctx st') = gc_FailoverCount (ps_ctx st) + int (length fs)"

lemma providerLoop_run:
  "providerLoop env tp isStream backoff cands idx ps st = (fin, st') \<Longrightarrow> drop idx cands = ps \<Longrightarrow>
     \<exists>ts fs. run_keeps st st' ts fs \<and> request_run (px_config env) idx (gc_FailoverCount (ps_ctx st)) ps ts fs fin"
proof (induction ps arbitrary: idx st)
  case Nil
  then show ?case by (auto intro: run_out)
next
  case (Cons p ps)
  let ?ad = "px_GetProvider env (pr_Name p)" and ?b = "attemptBudgetOf (px_config env) p"
  let ?g = "st\<lparr>ps_ctx := SetActiveProvider (ps_ctx st) p\<rparr>"
  obtain c up where c: "compile (px_runtime env) tp p ?ad (ps_up ?g) = (c, up)" by fastforce
  show ?case
  proof (cases c)
    case (Inl e)
    with Cons.prems c show ?thesis by (auto intro: build_failed)
  next
    case (Inr req)
    let ?st1 = "?g\<lparr>ps_up := up\<rparr>"
    obtain fin1 st2 where l: "attemptLoop env tp isStream backoff p (int idx) ?ad req ?b (nat ?b) ?st1 = (fin1, st2)" by fastforce
    from attemptLoop_trace [OF l] obtain ts where ts: "trace_keeps ?st1 st2 ts"
      and ok0: "attempts_ok (pr_Name p) (int idx) ?b (?b - int (nat ?b) + 1) ts fin1" by blast
    have ok: "attempts_ok (pr_Name p) (int idx) ?b 1 ts fin1"
      using ok0 by (cases "0 \<le> ?b") (auto simp: attempts_ok_Nil elim: attempts_ok.cases)
    show ?thesis
    proof (cases fin1)
      case True
      with Cons.prems c Inr l have "fin" "st' = st2" by (auto simp: Let_def attemptBudgetOf_def)
      with ts ok True show ?thesis by (auto intro!: run_done)
    next
      case False
      with Cons.prems c Inr l
      have rest: "providerLoop env tp isStream backoff cands (idx + 1) ps (noteFailover cands idx p st2) = (fin, st')"
        by (auto simp: Let_def attemptBudgetOf_def)
      have dr: "drop (idx + 1) cands = ps" using Cons.prems(2) by (metis Suc_eq_plus1 drop_Suc list.sel(3) tl_drop)
      from Cons.IH [OF rest dr] obtain ts' fs where IH: "run_keeps (noteFailover cands idx p st2) st' ts' fs"
        "request_run (px_config env) (idx + 1) (gc_FailoverCount (ps_ctx (noteFailover cands idx p st2))) ps ts' fs fin" by blast
      show ?thesis
      proof (cases ps)
        case Nil
        then have "\<not> idx + 1 < length cands" using dr by simp
        with noteFailover_ctx(3) [OF this, of p st2] IH ts ok False Nil rest show ?thesis
          by (auto intro!: run_last)
      next
        case (Cons q qs)
        then have i: "idx + 1 < length cands" "cands ! (idx + 1) = q" using dr
          by (metis drop_eq_Nil list.distinct(1) not_le, metis dr Cons drop_eq_Nil hd_drop_conv_nth list.distinct(1) list.sel(1) not_le)
        from noteFailover_ctx(2) [OF i(1), of p st2] i(2) obtain f where
          f: "gc_FailoverEvents (ps_ctx (noteFailover cands idx p st2)) = gc_FailoverEvents (ps_ctx st2) @ [f]"
            "failover_rec p q idx (gc_FailoverCount (ps_ctx st2) + 1) f"
            "gc_FailoverCount (ps_ctx (noteFailover cands idx p st2)) = gc_FailoverCount (ps_ctx st2) + 1" by auto
        have "request_run (px_config env) idx (gc_FailoverCount (ps_ctx st)) (p # q # qs) (ts @ ts') (f # fs) fin"
          using ok f(2,3) IH(2) ts Cons False by (auto intro!: run_next)
        moreover have "run_keeps st st' (ts @ ts') (f # fs)"
          using IH(1) f ts noteFailover_ctx(1) [of cands idx p st2] by simp
        ultimately show ?thesis using Cons by blast
      qed
    qed
  qed
qed

section \<open>Counting the upstream requests\<close>

text \<open>A counter over the world of a request that only the HTTP client advances.\<close>

definition counts_calls :: "('net \<Rightarrow> nat) \<Rightarrow> 'net proxy_env \<Rightarrow> bool" where
  "counts_calls tally env \<longleftrightarrow> (\<forall>req net. tally (snd (px_Do env req net)) = tally net + 1) \<and>
     (\<forall>d net. tally (snd (px_TimerFirst env d net)) = tally net) \<and>
     (\<forall>name resp m net. tally (snd (ad_TranslateResponse (px_GetProvider env name) resp m net)) = tally net)"

lemma sendAttempt_calls:
  "counts_calls tally env \<Longrightarrow> sendAttempt env tp isStream p compiled st = (res, st') \<Longrightarrow> tally (ps_net st') = tally (ps_net st) + 1"
  by (auto simp: sendAttempt_def Let_def counts_calls_def split: prod.splits) (metis snd_conv)

lemma waitRetryBackoff_calls:
  "counts_calls tally env \<Longrightarrow> waitRetryBackoff env backoff net = (ok, net') \<Longrightarrow> tally net' = tally net"
  by (auto simp: waitRetryBackoff_def counts_calls_def split: if_splits) (metis snd_conv)

lemma returnResponse_calls:
  assumes "counts_calls tally env" "ad = px_GetProvider env (pr_Name p)"
  shows "tally (ps_net (returnResponse env p ad resp st)) = tally (ps_net st)"
  using assms by (auto simp: returnResponse_def Let_def counts_calls_def split: prod.splits) (metis snd_conv)+

lemma noteAttempt_net [simp]:
  "ps_net (noteAttempt p i b k res rs result st) = ps_net st" "ps_w (noteAttempt p i b k res rs result st) = ps_w st"
  by (simp_all add: noteAttempt_def)

lemma attemptLoop_calls:
  assumes "counts_calls tally env" "ad = px_GetProvider env (pr_Name p)"
  shows "attemptLoop env tp isStream backoff p idx ad compiled budget n st = (fin, st') \<Longrightarrow>
     tally (ps_net st') + length (gc_UpstreamAttempts (ps_ctx st)) = tally (ps_net st) + length (gc_UpstreamAttempts (ps_ctx st'))"
proof (induction n arbitrary: st)
  case (Suc n)
  obtain res st1 where s: "sendAttempt env tp isStream p compiled st = (res, st1)" by fastforce
  note keep = sendAttempt_keeps(1) [OF s] and c = sendAttempt_calls [OF assms(1) s]
  from Suc.prems s show ?case
  proof (cases rule: attemptLoop_cases)
    case (again net)
    from Suc.IH [OF again(3)] waitRetryBackoff_calls [OF assms(1) again(2)] c keep show ?thesis by (simp add: after_defs)
  next
    case (wait_canceled net)
    with waitRetryBackoff_calls [OF assms(1) wait_canceled(2)] c keep show ?thesis by (simp add: after_defs)
  next
    case (answered r)
    then show ?thesis using c keep by (simp add: after_defs returnResponse_calls [OF assms])
  qed (use c keep in \<open>simp_all add: after_defs\<close>)
qed simp

lemma noteFailover_net [simp]: "ps_net (noteFailover cands i p st) = ps_net st" "ps_w (noteFailover cands i p st) = ps_w st"
  by (simp_all add: noteFailover_def Let_def)

lemma providerLoop_calls:
  assumes "counts_calls tally env"
  shows "providerLoop env tp isStream backoff cands idx ps st = (fin, st') \<Longrightarrow>
     tally (ps_net st') + length (gc_UpstreamAttempts (ps_ctx st)) = tally (ps_net st) + length (gc_UpstreamAttempts (ps_ctx st'))"
proof (induction ps arbitrary: idx st)
  case (Cons p ps)
  let ?ad = "px_GetProvider env (pr_Name p)" and ?b = "effectiveRetryCount (px_config env) p + 1"
  let ?g = "st\<lparr>ps_ctx := SetActiveProvider (ps_ctx st) p\<rparr>"
  obtain c up where c: "compile (px_runtime env) tp p ?ad (ps_up ?g) = (c, up)" by fastforce
  show ?case
  proof (cases c)
    case (Inl e)
    with Cons.prems c show ?thesis by (auto simp: Let_def)
  next
    case (Inr req)
    obtain fin1 st2 where l: "attemptLoop env tp isStream backoff p (int idx) ?ad req ?b (nat ?b) (?g\<lparr>ps_up := up\<rparr>) = (fin1, st2)" by fastforce
    note a = attemptLoop_calls [OF assms refl l]
    show ?thesis
    proof (cases fin1)
      case True
      with Cons.prems c Inr l a show ?thesis by (auto simp: Let_def)
    next
      case False
      with Cons.prems c Inr l
      have "providerLoop env tp isStream backoff cands (idx + 1) ps (noteFailover cands idx p st2) = (fin, st')" by (auto simp: Let_def)
      from Cons.IH [OF this] a show ?thesis by (simp add: noteFailover_ctx(1))
    qed
  qed
qed simp

section \<open>The handler\<close>

abbreviation startState :: "GatewayContext \<Rightarrow> ResponseWriter \<Rightarrow> 'cb upstream_state \<Rightarrow> 'net \<Rightarrow> ('net, 'cb) proxy_state" where
  "startState g w up net \<equiv> \<lparr>ps_net = net, ps_up = up, ps_ctx = g, ps_w = w, ps_finalErr = None, ps_totalRetries = 0,
     ps_lastRetryReason = ''unknown'', ps_events = []\<rparr>"

lemma finishFailure_simps [simp]:
  "gc_UpstreamAttempts (ps_ctx (finishFailure env st)) = gc_UpstreamAttempts (ps_ctx st)"
  "gc_FailoverEvents (ps_ctx (finishFailure env st)) = gc_FailoverEvents (ps_ctx st)"
  "gc_FailoverCount (ps_ctx (finishFailure env st)) = gc_FailoverCount (ps_ctx st)"
  "ps_net (finishFailure env st) = ps_net st"
  by (simp_all add: finishFailure_def Let_def)

lemma ServeHTTP_run:
  assumes "ServeHTTP env r w up net = (r', w', up', net', ev)" "GetGatewayContext r = Some g" "GetRequestBodyContext r = Some b"
    "gc_CandidateProviders g \<noteq> []"
  obtains fin st st' where
    "providerLoop env (newRequestTemplate r (bc_UpstreamBody b)) (bc_IsStream b) (retryBackoff (px_runtime env) (px_config env))
       (gc_CandidateProviders g) 0 (gc_CandidateProviders g) (startState g w up net) = (fin, st)"
    "st' = (if fin then st else finishFailure env st)" "GetGatewayContext r' = Some (ps_ctx st')" "w' = ps_w st'" "net' = ps_net st'"
proof -
  obtain fin st where run: "providerLoop env (newRequestTemplate r (bc_UpstreamBody b)) (bc_IsStream b)
       (retryBackoff (px_runtime env) (px_config env)) (gc_CandidateProviders g) 0 (gc_CandidateProviders g) (startState g w up net) = (fin, st)"
    by fastforce
  show thesis by (rule that [OF run refl]) (use assms run in \<open>auto simp: ServeHTTP_def Let_def\<close>)
qed

text \<open>A gateway context as the router leaves it.\<close>

definition fresh_context :: "GatewayContext \<Rightarrow> bool" where
  "fresh_context g \<longleftrightarrow> gc_UpstreamAttempts g = [] \<and> gc_FailoverEvents g = [] \<and> gc_FailoverCount g = 0 \<and> gc_FinalErrorCode g = []"

lemma ServeHTTP_trace:
  assumes "ServeHTTP env r w up net = (r', w', up', net', ev)" "GetGatewayContext r = Some g" "GetRequestBodyContext r = Some b"
    "gc_CandidateProviders g \<noteq> []" "fresh_context g"
  obtains g' fin where "GetGatewayContext r' = Some g'"
    "request_run (px_config env) 0 0 (gc_CandidateProviders g) (gc_UpstreamAttempts g') (gc_FailoverEvents g') fin"
    "gc_FailoverCount g' = int (length (gc_FailoverEvents g'))"
proof -
  obtain fin st st' where
    run: "providerLoop env (newRequestTemplate r (bc_UpstreamBody b)) (bc_IsStream b) (retryBackoff (px_runtime env) (px_config env))
       (gc_CandidateProviders g) 0 (gc_CandidateProviders g) (startState g w up net) = (fin, st)"
    and st': "st' = (if fin then st else finishFailure env st)" "GetGatewayContext r' = Some (ps_ctx st')" "w' = ps_w st'" "net' = ps_net st'"
    by (rule ServeHTTP_run [OF assms(1-4)])
  from providerLoop_run [OF run] obtain ts fs where "run_keeps (startState g w up net) st ts fs"
    "request_run (px_config env) 0 0 (gc_CandidateProviders g) ts fs fin" using assms(5) by (auto simp: fresh_context_def)
  with assms(5) st' that [of "ps_ctx st'" fin] show thesis by (auto simp: fresh_context_def split: if_splits)
qed

section \<open>Every request is answered\<close>

text \<open>The state of the answer: nothing sent while the request runs; when it is over, something was sent, or the client was given up
  (499).\<close>

abbreviation settled :: "bool \<Rightarrow> ('net, 'cb) proxy_state \<Rightarrow> bool" where
  "settled fin st \<equiv> (if fin then w_sent (ps_w st) \<noteq> None \<or> gc_FinalStatusCode (ps_ctx st) = 499 else w_sent (ps_w st) = None)"

lemma returnResponse_sent:
  "answering ad \<Longrightarrow> w_sent (ps_w st) = None \<Longrightarrow> w_sent (ps_w (returnResponse env p ad resp st)) \<noteq> None"
  by (auto simp: returnResponse_def Let_def answering_def split: prod.splits) (metis fst_conv option.distinct(1) writer_simps(1))+

lemma attemptLoop_settled:
  assumes "answering ad"
  shows "attemptLoop env tp isStream backoff p idx ad compiled budget n st = (fin, st') \<Longrightarrow> w_sent (ps_w st) = None \<Longrightarrow> settled fin st'"
proof (induction n arbitrary: st)
  case (Suc n)
  obtain res st1 where s: "sendAttempt env tp isStream p compiled st = (res, st1)" by fastforce
  have w: "w_sent (ps_w st1) = None" using sendAttempt_keeps(2) [OF s] Suc.prems(2) by simp
  from Suc.prems(1) s show ?case
  proof (cases rule: attemptLoop_cases)
    case (again net)
    show ?thesis by (rule Suc.IH [OF again(3)]) (simp add: after_defs w)
  next
    case (answered r)
    have "w_sent (ps_w st') \<noteq> None"
      unfolding answered(3) afterReturn_def by (rule returnResponse_sent [OF assms]) (simp add: w)
    with answered(1) show ?thesis by simp
  qed (simp_all add: after_defs w)
qed simp

lemma error_writer_sent:
  "w_sent (WriteInternalServerError w m c) \<noteq> None" "w_sent (WriteServiceUnavailable w m c) \<noteq> None" "w_sent (WriteGatewayTimeout w m c) \<noteq> None"
  using WriteOpenAIError_sent by (simp_all add: error_writers)

lemma providerLoop_settled:
  "\<forall>p\<in>set ps. answering (px_GetProvider env (pr_Name p)) \<Longrightarrow>
   providerLoop env tp isStream backoff cands idx ps st = (fin, st') \<Longrightarrow> w_sent (ps_w st) = None \<Longrightarrow> settled fin st'"
proof (induction ps arbitrary: idx st)
  case (Cons p ps)
  let ?ad = "px_GetProvider env (pr_Name p)" and ?b = "effectiveRetryCount (px_config env) p + 1"
  let ?g = "st\<lparr>ps_ctx := SetActiveProvider (ps_ctx st) p\<rparr>"
  obtain c up where c: "compile (px_runtime env) tp p ?ad (ps_up ?g) = (c, up)" by fastforce
  show ?case
  proof (cases c)
    case (Inl e)
    with Cons.prems(2) c error_writer_sent(1) show ?thesis by (auto simp: Let_def)
  next
    case (Inr req)
    obtain fin1 st2 where l: "attemptLoop env tp isStream backoff p (int idx) ?ad req ?b (nat ?b) (?g\<lparr>ps_up := up\<rparr>) = (fin1, st2)" by fastforce
    have a: "settled fin1 st2" by (rule attemptLoop_settled [OF _ l]) (use Cons.prems in simp_all)
    show ?thesis
    proof (cases fin1)
      case True
      with Cons.prems(2) c Inr l a show ?thesis by (auto simp: Let_def)
    next
      case False
      with Cons.prems(2) c Inr l
      have "providerLoop env tp isStream backoff cands (idx + 1) ps (noteFailover cands idx p st2) = (fin, st')" by (auto simp: Let_def)
      from Cons.IH [OF _ this] a False Cons.prems(1) show ?thesis by simp
    qed
  qed
qed simp

lemma finishFailure_settled: "settled True (finishFailure env st)"
  using error_writer_sent(2,3)
  by (auto simp: finishFailure_def Let_def classifyTerminalProxyFailure_def proxy_constants)

section \<open>How a request fails\<close>

lemma noteAttempt_code [simp]: "gc_FinalErrorCode (ps_ctx (noteAttempt p i b k res rs result st)) = gc_FinalErrorCode (ps_ctx st)"
  by (simp add: noteAttempt_def recordUpstreamAttempt_def RecordUpstreamAttempt_def)

lemma noteFailover_code [simp]: "gc_FinalErrorCode (ps_ctx (noteFailover cands i p st)) = gc_FinalErrorCode (ps_ctx st)"
  by (simp add: noteFailover_def Let_def RecordFailover_def)

lemma clientCanceledError_code [simp]: "gc_FinalErrorCode (clientCanceledError g) = ''client_canceled''"
  by (simp add: clientCanceledError_def proxy_constants)

lemma finishStreamingRequest_code [simp]:
  "gc_FinalErrorCode (ps_ctx (finishStreamingRequest env p tw e st)) = gc_FinalErrorCode (ps_ctx st)"
  by (simp add: finishStreamingRequest_def Let_def)

lemma returnResponse_code:
  "gc_FinalErrorCode (ps_ctx (returnResponse env p ad resp st)) \<in> {gc_FinalErrorCode (ps_ctx st), ''client_canceled''}"
  by (simp add: returnResponse_def Let_def split: prod.split)

lemma attemptLoop_code:
  "attemptLoop env tp isStream backoff p idx ad compiled budget n st = (fin, st') \<Longrightarrow>
     gc_FinalErrorCode (ps_ctx st') \<in> {gc_FinalErrorCode (ps_ctx st), ''client_canceled''}"
proof (induction n arbitrary: st)
  case (Suc n)
  obtain res st1 where s: "sendAttempt env tp isStream p compiled st = (res, st1)" by fastforce
  note keep = sendAttempt_keeps(1) [OF s]
  from Suc.prems(1) s show ?case
  proof (cases rule: attemptLoop_cases)
    case (again net)
    from Suc.IH [OF again(3)] show ?thesis by (simp add: after_defs keep)
  next
    case (answered r)
    then show ?thesis
      using returnResponse_code [of env p ad r "noteAttempt p idx budget (budget - int n) res (upstreamStatusLabel (Some r) None) ''returned_response'' st1"]
      by (simp add: after_defs keep)
  qed (simp_all add: after_defs keep)
qed simp

lemma providerLoop_code:
  "providerLoop env tp isStream backoff cands idx ps st = (fin, st') \<Longrightarrow>
     gc_FinalErrorCode (ps_ctx st') \<in> {gc_FinalErrorCode (ps_ctx st), ''client_canceled'', ''upstream_request_build_failed''}"
proof (induction ps arbitrary: idx st)
  case (Cons p ps)
  let ?ad = "px_GetProvider env (pr_Name p)" and ?b = "effectiveRetryCount (px_config env) p + 1"
  let ?g = "st\<lparr>ps_ctx := SetActiveProvider (ps_ctx st) p\<rparr>"
  obtain c up where c: "compile (px_runtime env) tp p ?ad (ps_up ?g) = (c, up)" by fastforce
  show ?case
  proof (cases c)
    case (Inl e)
    with Cons.prems c show ?thesis by (auto simp: Let_def)
  next
    case (Inr req)
    obtain fin1 st2 where l: "attemptLoop env tp isStream backoff p (int idx) ?ad req ?b (nat ?b) (?g\<lparr>ps_up := up\<rparr>) = (fin1, st2)" by fastforce
    have a: "gc_FinalErrorCode (ps_ctx st2) \<in> {gc_FinalErrorCode (ps_ctx st), ''client_canceled''}"
      using attemptLoop_code [OF l] by simp
    show ?thesis
    proof (cases fin1)
      case True
      with Cons.prems c Inr l a show ?thesis by (auto simp: Let_def)
    next
      case False
      with Cons.prems c Inr l
      have "providerLoop env tp isStream backoff cands (idx + 1) ps (noteFailover cands idx p st2) = (fin, st')" by (auto simp: Let_def)
      from Cons.IH [OF this] a show ?thesis by auto
    qed
  qed
qed simp

text \<open>The routes of a loaded configuration have at least one attempt, and a positive timeout.\<close>

lemma loaded_budget: "loaded_ok rt cfg \<Longrightarrow> p \<in> set (configuredCandidates cfg m) \<Longrightarrow> 1 \<le> attemptBudgetOf cfg p"
  by (auto simp: loaded_ok_def attemptBudgetOf_def effectiveRetryCount_def)

lemma providerTimeout_positive: "0 < providerTimeout rt u p isStream"
  by (simp add: providerTimeout_def)

lemma serve_answers:
  assumes "ServeHTTP env r w up net = (r', w', up', net', ev)" "w_sent w = None"
    "\<forall>name. answering (px_GetProvider env name)"
  shows "w_sent w' \<noteq> None \<or> (\<exists>g'. GetGatewayContext r' = Some g' \<and> gc_FinalStatusCode g' = 499)"
proof (cases "\<exists>g b. GetGatewayContext r = Some g \<and> GetRequestBodyContext r = Some b \<and> gc_CandidateProviders g \<noteq> []")
  case False
  with assms(1) error_writer_sent show ?thesis by (auto simp: ServeHTTP_def split: option.splits)
next
  case True
  then obtain g b where ctx: "GetGatewayContext r = Some g" "GetRequestBodyContext r = Some b" "gc_CandidateProviders g \<noteq> []" by blast
  obtain fin st st' where
    run: "providerLoop env (newRequestTemplate r (bc_UpstreamBody b)) (bc_IsStream b) (retryBackoff (px_runtime env) (px_config env))
       (gc_CandidateProviders g) 0 (gc_CandidateProviders g) (startState g w up net) = (fin, st)"
    and st': "st' = (if fin then st else finishFailure env st)" "GetGatewayContext r' = Some (ps_ctx st')" "w' = ps_w st'" "net' = ps_net st'"
    by (rule ServeHTTP_run [OF assms(1) ctx])
  have "\<forall>p\<in>set (gc_CandidateProviders g). answering (px_GetProvider env (pr_Name p))" using assms(3) by blast
  from providerLoop_settled [OF this run] assms(2) have "settled fin st" by simp
  with st' finishFailure_settled [of env st] show ?thesis by (cases fin) auto
qed

section \<open>A small world\<close>

text \<open>A world for concrete runs: the state counts the calls of the HTTP client, which answers from a list and then 200; the
  client never goes away. Two OpenAI-compatible providers serve the request, each with one attempt.\<close>

definition okResponse :: "int \<Rightarrow> http_response" where
  "okResponse status = \<lparr>resp_StatusCode = status, resp_Header = (\<lambda>_. None), resp_Body = ''ok''\<rparr>"

definition scriptDo :: "(http_response option \<times> go_error option) list \<Rightarrow> nat \<Rightarrow> (http_response option \<times> go_error option) \<times> nat" where
  "scriptDo script n = (if n < length script then script ! n else (Some (okResponse 200), None), n + 1)"

definition copyAll :: "http_response \<Rightarrow> nat \<Rightarrow> (bytes list \<times> go_error option) \<times> nat" where
  "copyAll resp n = (([resp_Body resp], None), n)"

definition scriptEnv :: "(http_response option \<times> go_error option) list \<Rightarrow> nat proxy_env" where
  "scriptEnv script =
     \<lparr>px_runtime = demoRuntime, px_config = zeroConfig\<lparr>cfg_Upstream := (cfg_Upstream zeroConfig)\<lparr>uc_RetryableStatusCodes := [429, 500]\<rparr>\<rparr>,
      px_unicode_lower = (\<lambda>s. s), px_GetProvider = (\<lambda>_. OpenAIProvider copyAll), px_Do = (\<lambda>_. scriptDo script),
      px_ctxErr = (\<lambda>_. None), px_Now = int, px_TimerFirst = (\<lambda>_ n. (True, n))\<rparr>"

definition twoRoutes :: GatewayContext where
  "twoRoutes = emptyGatewayContext\<lparr>gc_CandidateProviders := [namedRoute ''a'' ''https://a'', namedRoute ''b'' ''https://b'']\<rparr>"

definition demoRequest :: http_request where
  "demoRequest = \<lparr>req_Method = ''POST'', req_URL = \<lparr>url_Scheme = [], url_Host = ''gw'', url_Path = ''/v1/x'', url_RawPath = [], url_RawQuery = []\<rparr>,
     req_Header = (\<lambda>_. None), req_Body = None, req_ContentLength = 0, req_RemoteAddr = [],
     req_state = Some (emptyRequestState\<lparr>st_HasBody := True, st_HasGateway := True, st_Gateway := twoRoutes\<rparr>),
     req_ctxMeta = None, req_ctxAuth = None, req_ctxBody = None, req_ctxGateway = None\<rparr>"

lemma demoRequest_simps:
  "GetGatewayContext demoRequest = Some twoRoutes"
  "GetRequestBodyContext demoRequest = Some (st_Body emptyRequestState)"
  "gc_CandidateProviders twoRoutes = [namedRoute ''a'' ''https://a'', namedRoute ''b'' ''https://b'']"
  "fresh_context twoRoutes"
  by (simp_all add: demoRequest_def GetGatewayContext_def GetRequestBodyContext_def twoRoutes_def fresh_context_def emptyGatewayContext_def)

lemma scriptEnv_counts: "counts_calls (\<lambda>n. n) (scriptEnv script)"
  by (simp add: counts_calls_def scriptEnv_def scriptDo_def OpenAIProvider_def openAITranslateResponse_def copyAll_def)

lemma scriptEnv_budget: "attemptBudgetOf (px_config (scriptEnv script)) (namedRoute name base) = 1"
  by (simp add: attemptBudgetOf_def effectiveRetryCount_def scriptEnv_def namedRoute_def zeroConfig_def)

section \<open>Properties\<close>

text \<open>C5. The number of requests sent upstream is bounded: serving one client request calls the HTTP client at most
  once per attempt in the budgets of its candidate providers, and the trace lists exactly the calls
  that were made.\<close>

theorem upstream_calls_bounded:
  assumes "ServeHTTP env r w up net = (r', w', up', net', ev)" "GetGatewayContext r = Some g" "GetRequestBodyContext r = Some b"
    "gc_CandidateProviders g \<noteq> []" "fresh_context g" "counts_calls tally env"
  shows "tally net' \<le> tally net + (\<Sum>p\<leftarrow>gc_CandidateProviders g. nat (attemptBudgetOf (px_config env) p)) \<and>
    (\<exists>g'. GetGatewayContext r' = Some g' \<and> tally net' = tally net + length (gc_UpstreamAttempts g'))"
proof -
  obtain fin st st' where
    run: "providerLoop env (newRequestTemplate r (bc_UpstreamBody b)) (bc_IsStream b) (retryBackoff (px_runtime env) (px_config env))
       (gc_CandidateProviders g) 0 (gc_CandidateProviders g) (startState g w up net) = (fin, st)"
    and st': "st' = (if fin then st else finishFailure env st)" "GetGatewayContext r' = Some (ps_ctx st')" "w' = ps_w st'" "net' = ps_net st'"
    by (rule ServeHTTP_run [OF assms(1-4)])
  have "tally net' = tally net + length (gc_UpstreamAttempts (ps_ctx st'))"
    using providerLoop_calls [OF assms(6) run] assms(5) st' by (auto simp: fresh_context_def)
  moreover obtain g' fin' where "GetGatewayContext r' = Some g'"
    and g': "request_run (px_config env) 0 0 (gc_CandidateProviders g) (gc_UpstreamAttempts g') (gc_FailoverEvents g') fin'"
    by (rule ServeHTTP_trace [OF assms(1-5)])
  ultimately show ?thesis using request_run_attempts [OF g'] st'(2) by simp
qed

theorem upstream_calls_bounded_witness:
  "\<exists>r' w' up' net' ev. ServeHTTP (scriptEnv [(None, None)]) demoRequest newWriter (emptyUpstream :: nat upstream_state) 0 = (r', w', up', net', ev) \<and>
     net' \<le> 2"
proof -
  obtain r' w' up' net' ev where s: "ServeHTTP (scriptEnv [(None, None)]) demoRequest newWriter (emptyUpstream :: nat upstream_state) 0 = (r', w', up', net', ev)"
    by (metis prod_cases5)
  from upstream_calls_bounded [OF s demoRequest_simps(1,2) _ demoRequest_simps(4) scriptEnv_counts] have "net' \<le> 2"
    by (simp add: demoRequest_simps(3) scriptEnv_budget)
  with s show ?thesis by blast
qed

text \<open>C7. Candidates are tried strictly in order, and the failover record tells it: the failovers recorded are the first steps of the
  walk along the candidate list, numbered from one, and every attempt names the provider at its position
  with an attempt number within its budget.\<close>

theorem failover_follows_candidates:
  assumes "ServeHTTP env r w up net = (r', w', up', net', ev)" "GetGatewayContext r = Some g" "GetRequestBodyContext r = Some b"
    "gc_CandidateProviders g \<noteq> []" "fresh_context g"
  shows "\<exists>g'. GetGatewayContext r' = Some g' \<and>
    (let names = map pr_Name (gc_CandidateProviders g); fs = gc_FailoverEvents g' in
      map (\<lambda>f. (ft_FromProvider f, ft_ToProvider f)) fs = take (length fs) (zip names (tl names)) \<and>
      map ft_FailoverCount fs = map (\<lambda>i. 1 + int i) [0..<length fs] \<and>
      gc_FailoverCount g' = int (length fs) \<and> length fs < length names \<and>
      sorted (map at_ProviderIndex (gc_UpstreamAttempts g')) \<and>
      (\<forall>t\<in>set (gc_UpstreamAttempts g'). \<exists>i<length names. at_ProviderIndex t = int i \<and> at_Provider t = names ! i \<and>
         1 \<le> at_Attempt t \<and> at_Attempt t \<le> attemptBudgetOf (px_config env) (gc_CandidateProviders g ! i)))"
proof -
  obtain g' fin where g': "GetGatewayContext r' = Some g'"
    "request_run (px_config env) 0 0 (gc_CandidateProviders g) (gc_UpstreamAttempts g') (gc_FailoverEvents g') fin"
    "gc_FailoverCount g' = int (length (gc_FailoverEvents g'))"
    by (rule ServeHTTP_trace [OF assms])
  have "\<forall>t\<in>set (gc_UpstreamAttempts g'). \<exists>i<length (gc_CandidateProviders g). at_ProviderIndex t = int i \<and>
      at_Provider t = map pr_Name (gc_CandidateProviders g) ! i \<and>
      1 \<le> at_Attempt t \<and> at_Attempt t \<le> attemptBudgetOf (px_config env) (gc_CandidateProviders g ! i)"
    using request_run_positions [OF g'(2)] by (auto simp: attempt_at_def)
  with g'(1,3) request_run_positions [OF g'(2)] request_run_failovers [OF g'(2) assms(4)] show ?thesis
    unfolding Let_def length_map by (intro exI [of _ g'] conjI) simp_all
qed

theorem failover_follows_candidates_witness:
  "\<exists>r' w' up' net' ev g'. ServeHTTP (scriptEnv [(None, None)]) demoRequest newWriter (emptyUpstream :: nat upstream_state) 0 = (r', w', up', net', ev) \<and>
     GetGatewayContext r' = Some g' \<and> length (gc_FailoverEvents g') < 2 \<and> sorted (map at_ProviderIndex (gc_UpstreamAttempts g'))"
proof -
  obtain r' w' up' net' ev where s: "ServeHTTP (scriptEnv [(None, None)]) demoRequest newWriter (emptyUpstream :: nat upstream_state) 0 = (r', w', up', net', ev)"
    by (metis prod_cases5)
  from failover_follows_candidates [OF s demoRequest_simps(1,2) _ demoRequest_simps(4)] s show ?thesis
    by (auto simp: demoRequest_simps(3) Let_def)
qed



text \<open>A request with a body, for the Anthropic provider first.\<close>

definition anthropicFirst :: http_request where
  "anthropicFirst = demoRequest\<lparr>req_state := Some (emptyRequestState\<lparr>st_HasBody := True,
     st_Body := (st_Body emptyRequestState)\<lparr>bc_UpstreamBody := ''{}''\<rparr>, st_HasGateway := True,
     st_Gateway := twoRoutes\<lparr>gc_CandidateProviders := [namedRoute ''anthropic'' ''https://a'', namedRoute ''b'' ''https://b'']\<rparr>\<rparr>)\<rparr>"

text \<open>An answer that breaks off is lost: when the body of a complete Anthropic answer cannot be read, the adapter returns an error without
  writing, and the proxy neither fails over nor writes an error. The client of this run sees an empty response with status 200,
  and the context records no error.\<close>

theorem broken_answer_lost:
  "case ServeHTTP ((scriptEnv [])\<lparr>px_GetProvider := GetProvider (demoWorld\<lparr>aw_readBody := (\<lambda>_ n. ((''{'', Some (plainError ''unexpected EOF'')), n))\<rparr>)\<rparr>)
      anthropicFirst newWriter (emptyUpstream :: nat upstream_state) 0 of
     (r', w', _) \<Rightarrow> w_sent w' = None \<and> w_body w' = [] \<and> responseStatus w' = 200 \<and>
       map_option (\<lambda>g. (map at_Result (gc_UpstreamAttempts g), gc_FailoverCount g, gc_FinalErrorCode g)) (GetGatewayContext r')
         = Some ([''returned_response''], 0, [])"
  by code_simp

text \<open>C9. A request fails only after every candidate was tried: when a request of a model of a loaded configuration ends with one of the
  two errors of an exhausted candidate list, each of its candidates has at least one recorded attempt.\<close>

theorem exhausted_means_all_tried:
  assumes "ServeHTTP env r w up net = (r', w', up', net', ev)" "GetGatewayContext r = Some g" "GetRequestBodyContext r = Some b"
    "gc_CandidateProviders g \<noteq> []" "fresh_context g" "loaded_ok (px_runtime env) (px_config env)"
    "set (gc_CandidateProviders g) \<subseteq> set (configuredCandidates (px_config env) (gc_RequestedModel g))"
    "GetGatewayContext r' = Some g'" "gc_FinalErrorCode g' \<in> {''all_upstreams_unavailable'', ''upstream_request_timeout''}"
    "i < length (gc_CandidateProviders g)"
  shows "\<exists>t\<in>set (gc_UpstreamAttempts g'). at_ProviderIndex t = int i \<and> at_Provider t = pr_Name (gc_CandidateProviders g ! i)"
proof -
  obtain fin st st' where
    run: "providerLoop env (newRequestTemplate r (bc_UpstreamBody b)) (bc_IsStream b) (retryBackoff (px_runtime env) (px_config env))
       (gc_CandidateProviders g) 0 (gc_CandidateProviders g) (startState g w up net) = (fin, st)"
    and st': "st' = (if fin then st else finishFailure env st)" "GetGatewayContext r' = Some (ps_ctx st')" "w' = ps_w st'" "net' = ps_net st'"
    by (rule ServeHTTP_run [OF assms(1-4)])
  have g': "g' = ps_ctx st'" using st'(2) assms(8) by simp
  have "\<not> fin"
    using providerLoop_code [OF run] assms(5,9) st'(1) by (auto simp: g' fresh_context_def)
  moreover from providerLoop_run [OF run] obtain ts fs where "run_keeps (startState g w up net) st ts fs"
    and rr: "request_run (px_config env) 0 0 (gc_CandidateProviders g) ts fs fin" using assms(5) by (auto simp: fresh_context_def)
  ultimately have "gc_UpstreamAttempts g' = ts" using assms(5) st'(1) by (simp add: g' fresh_context_def)
  with request_run_exhaustive [OF rr \<open>\<not> fin\<close> _ assms(10)] loaded_budget [OF assms(6)] assms(7) show ?thesis by auto
qed

definition plainConfig :: Config where
  "plainConfig =
     \<lparr>cfg_Server = \<lparr>sc_Host = [], sc_Port = 80, sc_ReadTimeout = ''1s'', sc_ReadHeaderTimeout = ''1s'',
        sc_WriteTimeout = ''1s'', sc_IdleTimeout = ''1s'', sc_ShutdownTimeout = ''1s'', sc_TrustedProxyCIDRs = []\<rparr>,
      cfg_Metrics = \<lparr>mc_BearerTokenEnv = [], mc_BearerToken = [], mc_AllowedCIDRs = []\<rparr>,
      cfg_Auth = \<lparr>ac_RateLimitQPS = 1, ac_RateLimitBurst = 1, ac_Tokens = []\<rparr>,
      cfg_Upstream = \<lparr>uc_RetryableStatusCodes = [500], uc_RetryBackoff = ''1s'', uc_DefaultMaxRetries = 0,
        uc_HealthCheckInterval = ''1s'', uc_HealthCheckTimeout = ''1s'', uc_BreakerInterval = ''1s'', uc_BreakerTimeout = ''1s'',
        uc_BreakerFailureRatio = 1, uc_BreakerMinimumRequests = 1, uc_BreakerHalfOpenRequests = 1,
        uc_DefaultTimeoutNonStream = ''1s'', uc_DefaultTimeoutStream = ''1s''\<rparr>,
      cfg_Providers = [demoProvider]\<rparr>"

lemma plainConfig_ok: "loaded_ok demoRuntime plainConfig"
proof -
  have "list_all (\<lambda>(n, v). trimSpace v \<noteq> []) (durationFields plainConfig)" by code_simp
  then have "\<forall>(n, v)\<in>set (durationFields plainConfig). \<exists>d. rt_Duration demoRuntime (trimSpace v) = Some d \<and> 0 < d"
    by (auto simp: list_all_iff demoRuntime_def)
  then show ?thesis
    by (simp add: loaded_ok_def) (simp add: plainConfig_def demoProvider_def enabledTokens_def)
qed

definition failingEnv :: "nat proxy_env" where
  "failingEnv = (scriptEnv [])\<lparr>px_config := plainConfig, px_Do := (\<lambda>_ n. ((None, None), n + 1))\<rparr>"

definition demoRoutes :: GatewayContext where
  "demoRoutes = emptyGatewayContext\<lparr>gc_RequestedModel := ''m'', gc_CandidateProviders := configuredCandidates plainConfig ''m''\<rparr>"

definition demoRouted :: http_request where
  "demoRouted = putGatewayContext demoRequest demoRoutes"

theorem exhausted_means_all_tried_witness:
  "\<exists>r' w' up' net' ev g'. ServeHTTP failingEnv demoRouted newWriter (emptyUpstream :: nat upstream_state) 0 = (r', w', up', net', ev) \<and>
     GetGatewayContext r' = Some g' \<and>
     (\<exists>t\<in>set (gc_UpstreamAttempts g'). at_ProviderIndex t = int 0 \<and> at_Provider t = pr_Name (configuredCandidates plainConfig ''m'' ! 0))"
proof -
  obtain r' w' up' net' ev where s: "ServeHTTP failingEnv demoRouted newWriter (emptyUpstream :: nat upstream_state) 0 = (r', w', up', net', ev)"
    by (metis prod_cases5)
  have ctx: "GetGatewayContext demoRouted = Some demoRoutes" "GetRequestBodyContext demoRouted = Some (st_Body emptyRequestState)"
    "fresh_context demoRoutes" "gc_CandidateProviders demoRoutes = configuredCandidates plainConfig ''m''" "gc_RequestedModel demoRoutes = ''m''"
    by (simp_all add: demoRouted_def demoRequest_simps demoRoutes_def fresh_context_def emptyGatewayContext_def)
  have env: "px_config failingEnv = plainConfig" "px_runtime failingEnv = demoRuntime" by (simp_all add: failingEnv_def scriptEnv_def)
  have "configuredCandidates plainConfig ''m'' \<noteq> []" by code_simp
  moreover have "(case ServeHTTP failingEnv demoRouted newWriter (emptyUpstream :: nat upstream_state) 0 of
      (r', _) \<Rightarrow> map_option gc_FinalErrorCode (GetGatewayContext r') = Some ''all_upstreams_unavailable'')" by code_simp
  ultimately show ?thesis
    using s exhausted_means_all_tried [OF s ctx(1,2) _ ctx(3), of _ 0] by (auto simp: ctx env plainConfig_ok)
qed

text \<open>C40. A connection reset by the upstream ends the request: the first attempt that fails with \<open>ECONNRESET\<close> is taken for a client
  that went away, so no other candidate is tried and nothing is written; the client sees an empty
  response with status 200 while the context records 499.\<close>

theorem upstream_reset_ends_request:
  assumes "ServeHTTP env r newWriter up net = (r', w', up', net', ev)" "GetGatewayContext r = Some g" "GetRequestBodyContext r = Some b"
    "gc_CandidateProviders g = p # ps"
    "compile (px_runtime env) (newRequestTemplate r (bc_UpstreamBody b)) p (px_GetProvider env (pr_Name p)) up = (Inr c, up1)"
    "1 \<le> attemptBudgetOf (px_config env) p"
    "px_Do env (newRequest (newRequestTemplate r (bc_UpstreamBody b))
       (providerTimeout (px_runtime env) (cfg_Upstream (px_config env)) p (bc_IsStream b)) c) net = ((resp, Some e), net1)"
    "ECONNRESET \<in> set (ge_Is e)"
  shows "w_sent w' = None \<and> w_body w' = [] \<and> responseStatus w' = 200 \<and> net' = net1 \<and>
    (\<exists>g'. GetGatewayContext r' = Some g' \<and> gc_FinalStatusCode g' = 499 \<and> length (gc_UpstreamAttempts g') = length (gc_UpstreamAttempts g) + 1)"
proof -
  let ?tp = "newRequestTemplate r (bc_UpstreamBody b)" and ?ad = "px_GetProvider env (pr_Name p)" and ?b = "attemptBudgetOf (px_config env) p"
  let ?backoff = "retryBackoff (px_runtime env) (px_config env)"
  have ne: "gc_CandidateProviders g \<noteq> []" using assms(4) by simp
  obtain fin st st' where
    run: "providerLoop env ?tp (bc_IsStream b) ?backoff (gc_CandidateProviders g) 0 (gc_CandidateProviders g) (startState g newWriter up net) = (fin, st)"
    and st': "st' = (if fin then st else finishFailure env st)" "GetGatewayContext r' = Some (ps_ctx st')" "w' = ps_w st'" "net' = ps_net st'"
    by (rule ServeHTTP_run [OF assms(1-3) ne])
  define st0 where "st0 = (startState (SetActiveProvider g p) newWriter up net)\<lparr>ps_up := up1\<rparr>"
  obtain res st1 where s: "sendAttempt env ?tp (bc_IsStream b) p c st0 = (res, st1)" by fastforce
  have res: "ar_action res = upstreamAttemptTerminateRequest" "ps_net st1 = net1"
    using s assms(7,8) by (auto simp: sendAttempt_def st0_def Let_def classifyUpstreamAttempt_def isClientCanceledRequest_def)
  obtain n where n: "nat ?b = Suc n" using assms(6) by (cases "nat ?b") auto
  have "attemptLoop env ?tp (bc_IsStream b) ?backoff p 0 ?ad c ?b (nat ?b) st0 = (True, afterTerminate p 0 ?b (?b - int n) res st1)"
    using s res(1) by (simp add: n)
  then have "fin \<and> st = afterTerminate p 0 ?b (?b - int n) res st1"
    using run assms(4,5) by (simp add: Let_def st0_def attemptBudgetOf_def)
  with st' res(2) sendAttempt_keeps(1,2) [OF s] show ?thesis
    by (simp add: after_defs st0_def newWriter_def responseStatus_def attempts_SetActiveProvider)
qed

definition resetError :: go_error where
  "resetError = \<lparr>ge_Error = ''reset'', ge_Is = [ECONNRESET], ge_Timeout = False\<rparr>"

theorem upstream_reset_ends_request_witness:
  "\<exists>r' w' up' net' ev. ServeHTTP (scriptEnv [(None, Some resetError)]) demoRequest newWriter (emptyUpstream :: nat upstream_state) 0 = (r', w', up', net', ev) \<and>
     responseStatus w' = 200 \<and> net' = 1"
proof -
  let ?env = "scriptEnv [(None, Some resetError)]"
  let ?tp = "newRequestTemplate demoRequest (bc_UpstreamBody (st_Body emptyRequestState))"
  obtain r' w' up' net' ev where s: "ServeHTTP ?env demoRequest newWriter (emptyUpstream :: nat upstream_state) 0 = (r', w', up', net', ev)"
    by (metis prod_cases5)
  have p: "gc_CandidateProviders twoRoutes = namedRoute ''a'' ''https://a'' # [namedRoute ''b'' ''https://b'']" by (simp add: demoRequest_simps)
  obtain c up1 where c: "compile (px_runtime ?env) ?tp (namedRoute ''a'' ''https://a'') (px_GetProvider ?env (pr_Name (namedRoute ''a'' ''https://a'')))
      (emptyUpstream :: nat upstream_state) = (Inr c, up1)"
    by (fastforce simp: compile_def scriptEnv_def OpenAIProvider_def openAICompileRequest_def parseAndCacheBaseURL_def emptyUpstream_def demoRuntime_def)
  have "px_Do ?env req 0 = ((None, Some resetError), 1)" for req by (simp add: scriptEnv_def scriptDo_def)
  moreover have "ECONNRESET \<in> set (ge_Is resetError)" by (simp add: resetError_def)
  ultimately show ?thesis
    using upstream_reset_ends_request [OF s demoRequest_simps(1,2) p c] s by (auto simp: scriptEnv_budget)
qed

definition timeoutError :: go_error where
  "timeoutError = \<lparr>ge_Error = ''deadline'', ge_Is = [DeadlineExceeded], ge_Timeout = True\<rparr>"

text \<open>A timeout can be reported although the last provider did not time out: the error of the first provider stays in place when the second one is left by
  a failover status. Here the first provider times out, the second answers 429, and the
  client gets 504 with the code of an exhausted timeout; when the first one answers 401 instead, the same end is reported as 503.\<close>

theorem stale_timeout_reported:
  "(case ServeHTTP (scriptEnv [(None, Some timeoutError), (Some (okResponse 429), None)]) demoRequest newWriter (emptyUpstream :: nat upstream_state) 0 of
     (r', w', _) \<Rightarrow> responseStatus w' = 504 \<and>
       map_option (\<lambda>g. (map at_Reason (gc_UpstreamAttempts g), gc_FinalErrorCode g)) (GetGatewayContext r')
         = Some ([''upstream_timeout'', ''status_429''], ''upstream_request_timeout'')) \<and>
   (case ServeHTTP (scriptEnv [(Some (okResponse 401), None), (Some (okResponse 429), None)]) demoRequest newWriter (emptyUpstream :: nat upstream_state) 0 of
     (r', w', _) \<Rightarrow> responseStatus w' = 503 \<and>
       map_option (\<lambda>g. (map at_Reason (gc_UpstreamAttempts g), gc_FinalErrorCode g)) (GetGatewayContext r')
         = Some ([''status_401'', ''status_429''], ''all_upstreams_unavailable''))"
  by (intro conjI) code_simp+

end
