(* ===== verification/Middleware.thy ===== *)
theory Middleware
  imports Client_Address Observer Proxy_Trace
begin

text \<open>
  The middlewares of the chat endpoint, \<open>internal/middleware/\<close>: request metadata, access log, authentication, rate limit, body
  context, model allow list, model router, metrics, recovery.

  A handler takes the request, the response writer and the state of the gateway, and returns whether it
  panicked, the request (whose shared \<open>RequestState\<close> it may have changed), the writer and the state.
  A middleware maps a handler to a handler. Log lines other than the access log and the values of the latency histograms are not modelled.
\<close>

section \<open>Handlers and the state of the gateway\<close>

record TokenIdentity =
  ti_Token :: bytes
  ti_Fingerprint :: bytes
  ti_Name :: bytes
  ti_RateLimitQPS :: rat
  ti_RateLimitBurst :: int
  ti_AllowedModels :: "bytes list"

text \<open>One line of the access log (the fields it is formatted from).\<close>

record access_entry =
  ae_method :: bytes
  ae_path :: bytes
  ae_status_code :: int
  ae_response_bytes :: nat
  ae_duration_ms :: int
  ae_client_ip :: bytes
  ae_user_agent :: bytes
  ae_rate_limit_scope :: bytes
  ae_upstream_provider :: bytes
  ae_upstream_retries :: bytes
  ae_failovers :: bytes
  ae_gateway :: "GatewayContext option"
  ae_meta :: "RequestMetaContext option"

record ('net, 'cb) gateway_state =
  gs_router :: router_state
  gs_registry :: "(bytes \<Rightarrow> TokenIdentity option) option"
  gs_limiter :: keyedLocalLimiter
  gs_trusted :: once_nets
  gs_fallbackCounter :: nat
  gs_up :: "'cb upstream_state"
  gs_net :: 'net
  gs_inFlight :: "bytes \<Rightarrow> int"
  gs_requests :: "(bytes \<times> bytes \<times> bytes) list"
  gs_events :: "metric_event list"
  gs_log :: "access_entry list"
  gs_metricsEndpoint :: metrics_state
  gs_draining :: bool
  gs_activeRequests :: int

text \<open>The environment; \<open>mw_written\<close> is the number of bytes the connection reports for a write.\<close>

record 'net middleware_env =
  mw_net :: net_lib
  mw_rnd :: "rat \<Rightarrow> rat"
  mw_lower :: "bytes \<Rightarrow> bytes"
  mw_sha256 :: "bytes \<Rightarrow> bytes"
  mw_Now :: "'net \<Rightarrow> instant"
  mw_rand :: "nat \<Rightarrow> 'net \<Rightarrow> bytes option \<times> 'net"
  mw_written :: "chunk \<Rightarrow> nat"

type_synonym ('net, 'cb) handler =
  "http_request \<Rightarrow> ResponseWriter \<Rightarrow> ('net, 'cb) gateway_state \<Rightarrow> bool \<times> http_request \<times> ResponseWriter \<times> ('net, 'cb) gateway_state"

definition globalConfig :: "('net, 'cb) gateway_state \<Rightarrow> Config option" where
  "globalConfig s = map_option (rs_heap (gs_router s)) (rs_GlobalConfig (gs_router s))"

text \<open>What the caller sees of its request after the inner handler returned: when the shared state existed already the inner handler
  worked on the same request, otherwise on a copy with a context of its own.\<close>

definition returnTo ::
  "http_request \<Rightarrow> bool \<times> http_request \<times> ResponseWriter \<times> ('net, 'cb) gateway_state \<Rightarrow> bool \<times> http_request \<times> ResponseWriter \<times> ('net, 'cb) gateway_state" where
  "returnTo r res = (case res of (panicked, r', w, s) \<Rightarrow> (panicked, if req_state r = None then r else r', w, s))"

section \<open>Request metadata\<close>

definition requestIDByte :: "char \<Rightarrow> bool" where
  "requestIDByte c \<longleftrightarrow> inRange 97 122 c \<or> inRange 65 90 c \<or> inRange 48 57 c \<or>
     c \<in> {CHR ''-'', CHR ''_'', CHR ''.'', CHR '':'', CHR ''/''}"

text \<open>The loop ranges over code points; a code point beyond ASCII is never allowed, and its bytes are not either.\<close>

definition sanitizeRequestID :: "bytes \<Rightarrow> bytes" where
  "sanitizeRequestID raw =
     (let raw = trimSpace raw in
      if raw = [] \<or> length raw > 128 then []
      else if list_all requestIDByte raw then raw else [])"

definition isLowerHex :: "bytes \<Rightarrow> nat \<Rightarrow> bool" where
  "isLowerHex s expectedLen \<longleftrightarrow> length s = expectedLen \<and> list_all (\<lambda>c. inRange 48 57 c \<or> inRange 97 102 c) s"

definition isAllZeros :: "bytes \<Rightarrow> bool" where
  "isAllZeros s \<longleftrightarrow> list_all (\<lambda>c. c = CHR ''0'') s"

definition isValidTraceParent :: "bytes \<Rightarrow> bool" where
  "isValidTraceParent tp =
     (case split_on (CHR ''-'') tp of
        [version, traceID, parentID, traceFlags] \<Rightarrow>
          isLowerHex version 2 \<and> isLowerHex traceID 32 \<and> isLowerHex parentID 16 \<and> isLowerHex traceFlags 2 \<and>
          \<not> isAllZeros traceID \<and> \<not> isAllZeros parentID
      | _ \<Rightarrow> False)"

definition traceIDFromTraceParent :: "bytes \<Rightarrow> bytes" where
  "traceIDFromTraceParent tp =
     (case split_on (CHR ''-'') tp of [_, traceID, _, _] \<Rightarrow> traceID | _ \<Rightarrow> [])"

definition encodeHex :: "bytes \<Rightarrow> bytes" where
  "encodeHex bs = concat (map (\<lambda>b. hexDigits 2 (byte b)) bs)"

definition fallbackBytes :: "nat \<Rightarrow> nat \<Rightarrow> bytes" where
  "fallbackBytes seed nBytes = map (\<lambda>i. char_of ((seed div 2 ^ ((i mod 8) * 8)) mod 256)) [0..<nBytes]"

definition generateHex :: "'net middleware_env \<Rightarrow> nat \<Rightarrow> ('net, 'cb) gateway_state \<Rightarrow> bytes \<times> ('net, 'cb) gateway_state" where
  "generateHex env nBytes s =
     (case mw_rand env nBytes (gs_net s) of
        (Some buf, net) \<Rightarrow> (encodeHex buf, s\<lparr>gs_net := net\<rparr>)
      | (None, net) \<Rightarrow>
          (let counter = (gs_fallbackCounter s + 1) mod 2 ^ 64;
               seed = nat ((t_wall (mw_Now env net) + int counter) mod 2 ^ 64)
           in (encodeHex (fallbackBytes seed nBytes), s\<lparr>gs_net := net, gs_fallbackCounter := counter\<rparr>)))"

definition generateTraceParent :: "'net middleware_env \<Rightarrow> ('net, 'cb) gateway_state \<Rightarrow> bytes \<times> ('net, 'cb) gateway_state" where
  "generateTraceParent env s =
     (let (traceID, s) = generateHex env 16 s; (parentID, s) = generateHex env 8 s
      in (''00-'' @ traceID @ ''-'' @ parentID @ ''-01'', s))"

definition buildRequestMeta ::
  "'net middleware_env \<Rightarrow> http_request \<Rightarrow> ('net, 'cb) gateway_state \<Rightarrow> RequestMetaContext \<times> ('net, 'cb) gateway_state" where
  "buildRequestMeta env r s =
     (let requestID = sanitizeRequestID (headerGet (req_Header r) ''X-Request-ID'');
          (requestID, s) = (if requestID = [] then (case generateHex env 12 s of (hex, s) \<Rightarrow> (''req_'' @ hex, s)) else (requestID, s));
          traceParent = toLower (mw_lower env) (trimSpace (headerGet (req_Header r) ''Traceparent''));
          (traceParent, s) = (if isValidTraceParent traceParent then (traceParent, s) else generateTraceParent env s);
          traceState = trimSpace (headerGet (req_Header r) ''Tracestate'')
      in (\<lparr>rm_RequestID = requestID, rm_TraceID = traceIDFromTraceParent traceParent, rm_TraceParent = traceParent,
           rm_TraceState = traceState\<rparr>, s))"

definition RequestMetaMiddleware :: "'net middleware_env \<Rightarrow> ('net, 'cb) handler \<Rightarrow> ('net, 'cb) handler" where
  "RequestMetaMiddleware env next' r w s =
     (let (meta, s) = buildRequestMeta env r s;
          w = setHeader w ''X-Request-ID'' (rm_RequestID meta);
          w = setHeader w ''Traceparent'' (rm_TraceParent meta);
          w = (if rm_TraceState meta \<noteq> [] then setHeader w ''Tracestate'' (rm_TraceState meta) else w)
      in returnTo r (next' (putRequestMeta r meta) w s))"

section \<open>Authentication\<close>

definition normalizeStringSlice :: "bytes list \<Rightarrow> bytes list" where
  "normalizeStringSlice xs = filter (\<lambda>t. t \<noteq> []) (map trimSpace xs)"

definition tokenFingerprint :: "'net middleware_env \<Rightarrow> bytes \<Rightarrow> bytes" where
  "tokenFingerprint env raw =
     (let token = trimSpace raw in
      if token = [] then []
      else ''sha256:'' @ encodeHex (take 8 (mw_sha256 env token)) @ '':len='' @ itoa (int (length token)))"

fun registryLoop :: "'net middleware_env \<Rightarrow> ClientTokenConfig list \<Rightarrow> (bytes \<Rightarrow> TokenIdentity option) \<Rightarrow> (bytes \<Rightarrow> TokenIdentity option)" where
  "registryLoop env [] next' = next'"
| "registryLoop env (item # items) next' =
     (let token = trimSpace (ct_Value item) in
      if ct_Disabled item \<or> token = [] then registryLoop env items next'
      else registryLoop env items
             (next'(token \<mapsto> \<lparr>ti_Token = token, ti_Fingerprint = tokenFingerprint env token, ti_Name = ct_Name item,
                ti_RateLimitQPS = ct_RateLimitQPS item, ti_RateLimitBurst = ct_RateLimitBurst item,
                ti_AllowedModels = normalizeStringSlice (ct_AllowedModels item)\<rparr>)))"

definition rebuildTokenRegistry :: "'net middleware_env \<Rightarrow> Config option \<Rightarrow> bytes \<Rightarrow> TokenIdentity option" where
  "rebuildTokenRegistry env cfg =
     (case cfg of None \<Rightarrow> (\<lambda>_. None) | Some c \<Rightarrow> registryLoop env (ac_Tokens (cfg_Auth c)) (\<lambda>_. None))"

definition ensureTokenRegistry ::
  "'net middleware_env \<Rightarrow> ('net, 'cb) gateway_state \<Rightarrow> (bytes \<Rightarrow> TokenIdentity option) \<times> ('net, 'cb) gateway_state" where
  "ensureTokenRegistry env s =
     (case gs_registry s of
        Some reg \<Rightarrow> (reg, s)
      | None \<Rightarrow> (let reg = rebuildTokenRegistry env (globalConfig s) in (reg, s\<lparr>gs_registry := Some reg\<rparr>)))"

definition resolveToken ::
  "'net middleware_env \<Rightarrow> bytes \<Rightarrow> ('net, 'cb) gateway_state \<Rightarrow> TokenIdentity option \<times> ('net, 'cb) gateway_state" where
  "resolveToken env raw s = (case ensureTokenRegistry env s of (reg, s) \<Rightarrow> (reg (trimSpace raw), s))"

definition AuthMiddleware :: "'net middleware_env \<Rightarrow> ('net, 'cb) handler \<Rightarrow> ('net, 'cb) handler" where
  "AuthMiddleware env next' r w s =
     (let authHeader = trimSpace (headerGet (req_Header r) ''Authorization'') in
      if authHeader = [] then
        (False, r, WriteAuthenticationError w 401 ''Missing Authorization header.'' ''missing_authorization_header'', s)
      else if \<not> hasPrefix authHeader ''Bearer '' then
        (False, r, WriteAuthenticationError w 401 (''Invalid Authorization header. Expected '' @ [CHR 0x27] @ ''Bearer '' @ [CHR 0x27] @ ''.'')
           ''invalid_authorization_header'', s)
      else (let clientToken = trimSpace (trimPrefix authHeader ''Bearer '') in
        if clientToken = [] then (False, r, WriteAuthenticationError w 401 ''Missing bearer token.'' ''missing_bearer_token'', s)
        else (case resolveToken env clientToken s of
                (None, s) \<Rightarrow> (False, r, WriteAuthenticationError w 401 ''Invalid API key provided.'' ''invalid_api_key'', s)
              | (Some identity, s) \<Rightarrow>
                  returnTo r (next' (putClientAuthContext r
                    \<lparr>ca_Token = clientToken, ca_Fingerprint = ti_Fingerprint identity, ca_TokenName = ti_Name identity,
                     ca_RateLimitQPS = ti_RateLimitQPS identity, ca_RateLimitBurst = ti_RateLimitBurst identity,
                     ca_AllowedModels = ti_AllowedModels identity\<rparr>) w s))))"

section \<open>Rate limit\<close>

text \<open>\<open>int(f)\<close> for a float in the range of \<open>int\<close>: the fraction is cut off.\<close>

definition floatToInt :: "rat \<Rightarrow> int" where
  "floatToInt f = (if 0 \<le> f then \<lfloor>f\<rfloor> else - \<lfloor>- f\<rfloor>)"

text \<open>Reading the client address; without a configuration the first use panics inside \<open>sync.Once\<close>, which is then done.\<close>

definition clientIP :: "'net middleware_env \<Rightarrow> http_request \<Rightarrow> ('net, 'cb) gateway_state \<Rightarrow> bytes option \<times> ('net, 'cb) gateway_state" where
  "clientIP env r s =
     (if gs_trusted s = None \<and> globalConfig s = None then (None, s\<lparr>gs_trusted := Some (Inr [])\<rparr>)
      else (let cfg = (case globalConfig s of Some cfg \<Rightarrow> cfg | None \<Rightarrow> zeroConfig);
                (ip, cell) = extractClientIP (mw_net env) cfg r (gs_trusted s)
            in (Some ip, s\<lparr>gs_trusted := cell\<rparr>)))"

definition buildRateLimitIdentity ::
  "'net middleware_env \<Rightarrow> http_request \<Rightarrow> ('net, 'cb) gateway_state \<Rightarrow> (bytes \<times> bytes) option \<times> ('net, 'cb) gateway_state" where
  "buildRateLimitIdentity env r s =
     (let byIP = (case clientIP env r s of
                    (None, s) \<Rightarrow> (None, s)
                  | (Some ip, s) \<Rightarrow> (Some (''ip'', ''rate_limit:ip:'' @ ip), s))
      in case GetClientAuthContext r of
           None \<Rightarrow> byIP
         | Some authCtx \<Rightarrow>
             if trimSpace (ca_Token authCtx) \<noteq> [] \<and> ca_Fingerprint authCtx \<noteq> []
             then (Some (''token'', ''rate_limit:token:'' @ ca_Fingerprint authCtx), s) else byIP)"

text \<open>The limits of a request: those of the configuration, overridden by those of the token.\<close>

definition rateLimits :: "AuthConfig \<Rightarrow> ClientAuthContext option \<Rightarrow> int \<times> int" where
  "rateLimits ac auth =
     (let qps = floatToInt (ac_RateLimitQPS ac);
          qps = (if qps \<le> 0 then 1 else qps);
          burst = ac_RateLimitBurst ac;
          burst = (if burst \<le> 0 then qps else burst)
      in case auth of
           None \<Rightarrow> (qps, burst)
         | Some a \<Rightarrow> (if ca_RateLimitQPS a > 0 then floatToInt (ca_RateLimitQPS a) else qps,
                      if ca_RateLimitBurst a > 0 then ca_RateLimitBurst a else burst))"

definition RateLimitMiddleware :: "'net middleware_env \<Rightarrow> ('net, 'cb) handler \<Rightarrow> ('net, 'cb) handler" where
  "RateLimitMiddleware env next' r w s =
     (case globalConfig s of
        None \<Rightarrow> (True, r, w, s)
      | Some cfg \<Rightarrow>
          (let (qps, burst) = rateLimits (cfg_Auth cfg) (GetClientAuthContext r) in
           case buildRateLimitIdentity env r s of
             (None, s) \<Rightarrow> (True, r, w, s)
           | (Some (scope, limitKey), s) \<Rightarrow>
               (let (allowed, l) = limiterAllow (mw_rnd env) (mw_Now env (gs_net s)) limitKey (mw_rnd env (of_int qps)) burst (gs_limiter s);
                    s = s\<lparr>gs_limiter := l\<rparr>;
                    w = setHeader w ''X-RateLimit-Limit'' (itoa qps);
                    w = setHeader w ''X-RateLimit-Burst'' (itoa burst);
                    w = setHeader w ''X-RateLimit-Scope'' scope;
                    w = (case GetClientAuthContext r of
                           Some authCtx \<Rightarrow> if ca_TokenName authCtx \<noteq> [] then setHeader w ''X-Gateway-Token'' (ca_TokenName authCtx) else w
                         | None \<Rightarrow> w);
                    (ip, s) = (if scope = ''ip'' then clientIP env r s else (Some [], s))
                in case ip of
                     None \<Rightarrow> (True, r, w, s)
                   | Some ip \<Rightarrow>
                       (let w = (if scope = ''ip'' then setHeader w ''X-RateLimit-Client-IP'' ip else w) in
                        if \<not> allowed then
                          (False, r, WriteRateLimitError (setHeader w ''Retry-After'' ''1'') ''Rate limit exceeded.'' ''rate_limit_exceeded'', s)
                        else next' r w s))))"

section \<open>Body context\<close>

definition DefaultMaxRequestBodyBytes :: int where "DefaultMaxRequestBodyBytes = 4194304"

definition applyRequestBody :: "http_request \<Rightarrow> bytes \<Rightarrow> http_request" where
  "applyRequestBody r body = r\<lparr>req_Body := Some \<lparr>bs_data = body, bs_fails = False\<rparr>, req_ContentLength := int (length body)\<rparr>"

text \<open>Building the context from the bytes read; \<open>None\<close> is a panic of the injection.\<close>

definition buildBodyContext :: "bytes \<Rightarrow> RequestBodyContext option" where
  "buildBodyContext rawBody =
     (case inspectRequestBody rawBody of
        Inl decodeErr \<Rightarrow>
          Some \<lparr>bc_RawBody = rawBody, bc_UpstreamBody = rawBody, bc_RequestedModel = [], bc_IsStream = False,
                bc_StreamOptionsInjected = False, bc_DecodeError = Some decodeErr\<rparr>
      | Inr inspection \<Rightarrow>
          map_option (\<lambda>(upstreamBody, injected).
             \<lparr>bc_RawBody = rawBody, bc_UpstreamBody = upstreamBody, bc_RequestedModel = Model inspection, bc_IsStream = Stream inspection,
              bc_StreamOptionsInjected = injected, bc_DecodeError = None\<rparr>)
            (buildUpstreamBodyFromInspection rawBody inspection))"

definition BodyContextMiddleware :: "int \<Rightarrow> ('net, 'cb) handler \<Rightarrow> ('net, 'cb) handler" where
  "BodyContextMiddleware maxBodyBytes next' r w s =
     (let maxBodyBytes = (if maxBodyBytes \<le> 0 then DefaultMaxRequestBodyBytes else maxBodyBytes) in
      case req_Body r of
        None \<Rightarrow>
          (False, r, WriteOpenAIError w 400 ''Request body is required.'' ''invalid_request_error'' None (Ptr ''missing_request_body''), s)
      | Some body \<Rightarrow>
          if int (length (bs_data body)) > maxBodyBytes then
            (False, r, WriteOpenAIError w 413 (''Request body too large. Max allowed size is '' @ itoa maxBodyBytes @ '' bytes.'')
               ''invalid_request_error'' None (Ptr ''request_body_too_large''), s)
          else if bs_fails body then
            (False, r, WriteOpenAIError w 400 ''Failed to read request body.'' ''invalid_request_error'' None (Ptr ''request_body_read_failed''), s)
          else
            (case buildBodyContext (bs_data body) of
               None \<Rightarrow> (True, r, w, s)
             | Some bodyCtx \<Rightarrow>
                 (let r = applyRequestBody r (bc_UpstreamBody bodyCtx)
                  in returnTo r (next' (putRequestBodyContext r bodyCtx) w s))))"

section \<open>Model allow list\<close>

definition isModelAllowed :: "'net middleware_env \<Rightarrow> bytes \<Rightarrow> bytes list \<Rightarrow> bool" where
  "isModelAllowed env model allowlist =
     (let lower = toLower (mw_lower env) model in list_ex (\<lambda>allowed. toLower (mw_lower env) allowed = lower) allowlist)"

definition ModelAllowlistMiddleware :: "'net middleware_env \<Rightarrow> ('net, 'cb) handler \<Rightarrow> ('net, 'cb) handler" where
  "ModelAllowlistMiddleware env next' r w s =
     (case GetClientAuthContext r of
        None \<Rightarrow> next' r w s
      | Some authCtx \<Rightarrow>
          if ca_AllowedModels authCtx = [] then next' r w s
          else (case GetRequestBodyContext r of
                  None \<Rightarrow> next' r w s
                | Some bodyCtx \<Rightarrow>
                    if bc_DecodeError bodyCtx \<noteq> None then next' r w s
                    else (let requestedModel = bc_RequestedModel bodyCtx in
                          if requestedModel = [] then next' r w s
                          else if \<not> isModelAllowed env requestedModel (ca_AllowedModels authCtx) then
                            (False, r, WritePermissionError w 403
                               (''The model '' @ [CHR 0x27] @ requestedModel @ [CHR 0x27] @ '' is not allowed for this API key.'') ''model'' ''model_not_allowed'', s)
                          else next' r w s)))"

section \<open>Model router\<close>

definition ModelRouterMiddleware :: "('net, 'cb) handler \<Rightarrow> ('net, 'cb) handler" where
  "ModelRouterMiddleware next' r w s =
     (case GetRequestBodyContext r of
        None \<Rightarrow> (False, r, WriteOpenAIError w 500 ''Request body context missing.'' ''server_error'' None (Ptr ''missing_body_context''), s)
      | Some bodyCtx \<Rightarrow>
          if bc_DecodeError bodyCtx \<noteq> None then
            (False, r, WriteOpenAIError w 400 ''Invalid JSON payload.'' ''invalid_request_error'' None (Ptr ''invalid_json''), s)
          else if bc_RequestedModel bodyCtx = [] then
            (False, r, WriteOpenAIError w 400 ''Missing required field: model.'' ''invalid_request_error'' (Ptr ''model'') (Ptr ''missing_required_field''), s)
          else (case lookupRoute (bc_RequestedModel bodyCtx) (gs_router s) of
                  (None, rs) \<Rightarrow> (True, r, w, s\<lparr>gs_router := rs\<rparr>)
                | (Some None, rs) \<Rightarrow>
                    (False, r, WriteOpenAIError w 404
                       (''The model '' @ [CHR 0x27] @ bc_RequestedModel bodyCtx @ [CHR 0x27] @ '' does not exist or is not available on this gateway.'')
                       ''invalid_request_error'' (Ptr ''model'') (Ptr ''model_not_found''), s\<lparr>gs_router := rs\<rparr>)
                | (Some (Some (route, routePolicy)), rs) \<Rightarrow>
                    (let s = s\<lparr>gs_router := rs\<rparr>;
                         gatewayCtx = emptyGatewayContext\<lparr>gc_RequestedModel := bc_RequestedModel bodyCtx, gc_TargetModel := bc_RequestedModel bodyCtx,
                           gc_CandidateProviders := re_candidates route, gc_RouteSelectionPolicy := routePolicy,
                           gc_RouteCandidates := re_routeCandidates route\<rparr>
                     in case re_candidates route of
                          [] \<Rightarrow> (True, r, w, s)
                        | candidate # _ \<Rightarrow>
                            returnTo r (next' (putGatewayContext r (SetActiveProvider gatewayCtx candidate)) w s))))"

section \<open>Observation\<close>

text \<open>Both observers are made on a writer that has not committed anything, so that the status they have seen is
  \<^const>\<open>observedStatus\<close> of the writer when the inner handler returns (theory \<open>Observer\<close>).\<close>

definition accessStatus :: "ResponseWriter \<Rightarrow> GatewayContext option \<Rightarrow> int" where
  "accessStatus w gatewayCtx =
     (if observedStatus w = 0 then
        (case gatewayCtx of Some g \<Rightarrow> if gc_FinalStatusCode g > 0 then gc_FinalStatusCode g else 200 | None \<Rightarrow> 200)
      else observedStatus w)"

text \<open>The bytes counted by an observer that was made when the body was \<open>before\<close>.\<close>

definition observedBytes :: "'net middleware_env \<Rightarrow> chunk list \<Rightarrow> ResponseWriter \<Rightarrow> nat" where
  "observedBytes env before w = sum_list (map (mw_written env) (drop (length before) (w_body w)))"

definition milliseconds :: "int \<Rightarrow> int" where
  "milliseconds d = (if 0 \<le> d then d div 1000000 else - ((- d) div 1000000))"

definition accessEntry ::
  "'net middleware_env \<Rightarrow> instant \<Rightarrow> chunk list \<Rightarrow> http_request \<Rightarrow> ResponseWriter \<Rightarrow> bytes \<Rightarrow> ('net, 'cb) gateway_state \<Rightarrow> access_entry" where
  "accessEntry env start before r w ip s =
     \<lparr>ae_method = req_Method r, ae_path = url_Path (req_URL r), ae_status_code = accessStatus w (GetGatewayContext r),
      ae_response_bytes = observedBytes env before w,
      ae_duration_ms = milliseconds (t_mono (mw_Now env (gs_net s)) - t_mono start),
      ae_client_ip = ip, ae_user_agent = headerGet (req_Header r) ''User-Agent'',
      ae_rate_limit_scope = headerGet (w_header w) ''X-RateLimit-Scope'',
      ae_upstream_provider = trimSpace (headerGet (w_header w) ''X-Gateway-Upstream-Provider''),
      ae_upstream_retries = trimSpace (headerGet (w_header w) ''X-Gateway-Upstream-Retries''),
      ae_failovers = trimSpace (headerGet (w_header w) ''X-Gateway-Failovers''),
      ae_gateway = GetGatewayContext r, ae_meta = GetRequestMeta r\<rparr>"

definition AccessLogMiddleware :: "'net middleware_env \<Rightarrow> ('net, 'cb) handler \<Rightarrow> ('net, 'cb) handler" where
  "AccessLogMiddleware env next' r w s =
     (let start = mw_Now env (gs_net s); before = w_body w in
      case next' (snd (ensureRequestState r)) w s of
        (True, r', w, s) \<Rightarrow> returnTo r (True, r', w, s)
      | (False, r', w, s) \<Rightarrow>
          (case clientIP env r' s of
             (None, s) \<Rightarrow> returnTo r (True, r', w, s)
           | (Some ip, s) \<Rightarrow> returnTo r (False, r', w, s\<lparr>gs_log := gs_log s @ [accessEntry env start before r' w ip s]\<rparr>)))"

text \<open>The line itself: the fields in the order in which they are appended; an empty value is left out.\<close>

datatype log_value = LogText bytes | LogInt int

definition textField :: "bytes \<Rightarrow> bytes \<Rightarrow> (bytes \<times> log_value) list" where
  "textField key v = (if v \<noteq> [] then [(key, LogText v)] else [])"

definition accessFields :: "access_entry \<Rightarrow> (bytes \<times> log_value) list" where
  "accessFields e =
     [(''method'', LogText (ae_method e)), (''path'', LogText (ae_path e)), (''status_code'', LogInt (ae_status_code e)),
      (''response_bytes'', LogInt (int (ae_response_bytes e))), (''duration_ms'', LogInt (ae_duration_ms e)),
      (''client_ip'', LogText (ae_client_ip e)), (''user_agent'', LogText (ae_user_agent e))] @
     textField ''rate_limit_scope'' (ae_rate_limit_scope e) @
     textField ''upstream_provider'' (ae_upstream_provider e) @
     textField ''upstream_retries'' (ae_upstream_retries e) @
     textField ''failover_count'' (ae_failovers e) @
     (case ae_gateway e of
        None \<Rightarrow> []
      | Some g \<Rightarrow>
          textField ''provider'' (gc_TargetProvider g) @
          textField ''requested_model'' (gc_RequestedModel g) @
          textField ''model'' (gc_TargetModel g) @
          textField ''route_selection_policy'' (gc_RouteSelectionPolicy g) @
          textField ''stream_outcome'' (gc_StreamOutcome g) @
          (if gc_FinalStatusCode g > 0 then [(''final_status_code'', LogInt (gc_FinalStatusCode g))] else []) @
          textField ''final_error_code'' (gc_FinalErrorCode g) @
          textField ''final_failure_reason'' (gc_FinalFailureReason g)) @
     (case ae_meta e of
        None \<Rightarrow> []
      | Some meta \<Rightarrow> [(''request_id'', LogText (rm_RequestID meta)), (''trace_id'', LogText (rm_TraceID meta))])"

definition metricsRouteLabel :: "http_request \<Rightarrow> bytes" where
  "metricsRouteLabel r =
     (let path = url_Path (req_URL r) in
      if req_Method r = ''POST'' \<and> path = ''/v1/chat/completions'' then ''chat_completions''
      else if req_Method r = ''GET'' \<and> path = ''/health'' then ''health''
      else if req_Method r = ''GET'' \<and> path = ''/health/live'' then ''health_live''
      else if req_Method r = ''GET'' \<and> path = ''/health/ready'' then ''health_ready''
      else if req_Method r = ''GET'' \<and> path = ''/metrics'' then ''metrics''
      else ''unknown'')"

definition inFlightAdd :: "int \<Rightarrow> bytes \<Rightarrow> ('net, 'cb) gateway_state \<Rightarrow> ('net, 'cb) gateway_state" where
  "inFlightAdd d route s = s\<lparr>gs_inFlight := (gs_inFlight s)(route := gs_inFlight s route + d)\<rparr>"

definition MetricsMiddleware :: "('net, 'cb) handler \<Rightarrow> ('net, 'cb) handler" where
  "MetricsMiddleware next' r w s =
     (let r1 = snd (ensureRequestState r); route = metricsRouteLabel r1 in
      case next' r1 w (inFlightAdd 1 route s) of
        (True, r', w, s) \<Rightarrow> returnTo r (True, r', w, inFlightAdd (- 1) route s)
      | (False, r', w, s) \<Rightarrow>
          (let statusCode = (if observedStatus w = 0 then 200 else observedStatus w);
               (provider, targetModel) =
                 (case GetGatewayContext r' of
                    Some g \<Rightarrow> (if gc_TargetProvider g \<noteq> [] then gc_TargetProvider g else ''unknown'',
                               if gc_TargetModel g \<noteq> [] then gc_TargetModel g else ''unknown'')
                  | None \<Rightarrow> (''unknown'', ''unknown''));
               s = s\<lparr>gs_requests := gs_requests s @ [(provider, targetModel, itoa statusCode)]\<rparr>
           in returnTo r (False, r', w, inFlightAdd (- 1) route s)))"

section \<open>Recovery\<close>

definition RecoveryMiddleware :: "('net, 'cb) handler \<Rightarrow> ('net, 'cb) handler" where
  "RecoveryMiddleware next' r w s =
     (case next' r w s of
        (False, r', w, s) \<Rightarrow> (False, r', w, s)
      | (True, r', w, s) \<Rightarrow>
          (let w = (case GetRequestMeta r' of
                      Some meta \<Rightarrow> if rm_RequestID meta \<noteq> [] \<and> headerGet (w_header w) ''X-Request-ID'' = []
                                   then setHeader w ''X-Request-ID'' (rm_RequestID meta) else w
                    | None \<Rightarrow> w)
           in (False, r', WriteInternalServerError w ''Internal server error.'' ''internal_server_error'', s)))"

section \<open>Metadata is well formed\<close>

lemma hexDigit_lower: "n < 16 \<Longrightarrow> inRange 48 57 (hexDigit n) \<or> inRange 97 102 (hexDigit n)"
  by (auto simp: hexDigit_def inRange_def)

lemma hexDigits_lower: "isLowerHex (hexDigits n v) n"
proof (induction n arbitrary: v)
  case (Suc n)
  from Suc [of "v div 16"] hexDigit_lower [of "v mod 16"] show ?case by (auto simp: isLowerHex_def)
qed (simp add: isLowerHex_def)

lemma isLowerHex_append: "isLowerHex a m \<Longrightarrow> isLowerHex b n \<Longrightarrow> isLowerHex (a @ b) (m + n)"
  by (simp add: isLowerHex_def)

lemma encodeHex_lower: "isLowerHex (encodeHex bs) (2 * length bs)"
proof (induction bs)
  case (Cons b bs)
  then show ?case using isLowerHex_append [OF hexDigits_lower [of 2 "byte b"] Cons] by (simp add: encodeHex_def del: hexDigits.simps)
qed (simp add: encodeHex_def isLowerHex_def)

text \<open>The random source fills the buffer.\<close>

definition fills :: "'net middleware_env \<Rightarrow> bool" where
  "fills env \<longleftrightarrow> (\<forall>n net buf net'. mw_rand env n net = (Some buf, net') \<longrightarrow> length buf = n)"

lemma generateHex_lower: "fills env \<Longrightarrow> generateHex env n s = (x, s') \<Longrightarrow> isLowerHex x (2 * n)"
  using encodeHex_lower [of "fallbackBytes seed n" for seed] encodeHex_lower
  by (fastforce simp: generateHex_def fills_def fallbackBytes_def Let_def split: prod.splits option.splits)

lemma lower_no_dash: "isLowerHex x n \<Longrightarrow> CHR ''-'' \<notin> set x"
  by (auto simp: isLowerHex_def list_all_iff inRange_def)

lemma split_on_sep: "d \<notin> set a \<Longrightarrow> split_on d (a @ d # b) = a # split_on d b"
  by (induction a) auto

lemma split_on_none: "d \<notin> set a \<Longrightarrow> split_on d a = [a]"
  by (induction a) auto

text \<open>The form of a trace parent with a given trace identifier.\<close>

definition trace_form :: "bytes \<Rightarrow> bytes \<Rightarrow> bool" where
  "trace_form tp traceID \<longleftrightarrow> (\<exists>v p f. tp = v @ CHR ''-'' # traceID @ CHR ''-'' # p @ CHR ''-'' # f \<and>
     isLowerHex v 2 \<and> isLowerHex traceID 32 \<and> isLowerHex p 16 \<and> isLowerHex f 2)"

lemma traceID_of_form: "trace_form tp t \<Longrightarrow> traceIDFromTraceParent tp = t"
  unfolding trace_form_def traceIDFromTraceParent_def
  by (auto simp: split_on_sep split_on_none lower_no_dash)

lemma valid_trace_form: "isValidTraceParent tp \<Longrightarrow> trace_form tp (traceIDFromTraceParent tp)"
proof -
  assume v: "isValidTraceParent tp"
  then obtain a b c d where s: "split_on (CHR ''-'') tp = [a, b, c, d]"
    by (auto simp: isValidTraceParent_def split: list.splits)
  from join_split_on [of "CHR ''-''" tp] have "tp = a @ CHR ''-'' # b @ CHR ''-'' # c @ CHR ''-'' # d" by (simp add: s)
  with v s show ?thesis unfolding trace_form_def traceIDFromTraceParent_def isValidTraceParent_def by auto
qed

lemma generated_trace_form:
  assumes "fills env" "generateTraceParent env s = (tp, s')"
  shows "trace_form tp (traceIDFromTraceParent tp)"
proof -
  obtain t s1 where t: "generateHex env 16 s = (t, s1)" by fastforce
  obtain p s2 where p: "generateHex env 8 s1 = (p, s2)" by fastforce
  have "isLowerHex ''00'' 2" "isLowerHex ''01'' 2" by code_simp+
  moreover have "isLowerHex t 32" "isLowerHex p 16" using generateHex_lower [OF assms(1) t] generateHex_lower [OF assms(1) p] by simp_all
  moreover have "tp = ''00'' @ CHR ''-'' # t @ CHR ''-'' # p @ CHR ''-'' # ''01''" using assms(2) t p by (simp add: generateTraceParent_def)
  ultimately have "trace_form tp t" unfolding trace_form_def by blast
  with traceID_of_form show ?thesis by metis
qed

lemma buildRequestMeta_parts:
  assumes "buildRequestMeta env r s = (meta, s')"
  obtains s1 where
    "(if sanitizeRequestID (headerGet (req_Header r) ''X-Request-ID'') = [] then (case generateHex env 12 s of (hex, s) \<Rightarrow> (''req_'' @ hex, s))
      else (sanitizeRequestID (headerGet (req_Header r) ''X-Request-ID''), s)) = (rm_RequestID meta, s1)"
    "(if isValidTraceParent (toLower (mw_lower env) (trimSpace (headerGet (req_Header r) ''Traceparent'')))
      then (toLower (mw_lower env) (trimSpace (headerGet (req_Header r) ''Traceparent'')), s1) else generateTraceParent env s1) = (rm_TraceParent meta, s')"
    "rm_TraceID meta = traceIDFromTraceParent (rm_TraceParent meta)"
  using assms by (auto simp: buildRequestMeta_def Let_def split: prod.splits if_splits)

lemma sanitized_ok: "x = sanitizeRequestID raw \<Longrightarrow> x \<noteq> [] \<Longrightarrow> length x \<le> 128 \<and> list_all requestIDByte x"
  by (auto simp: sanitizeRequestID_def Let_def split: if_splits)

lemma hex_id_ok: "isLowerHex x 24 \<Longrightarrow> length (''req_'' @ x) \<le> 128 \<and> list_all requestIDByte (''req_'' @ x)"
proof -
  assume x: "isLowerHex x 24"
  have "list_all requestIDByte ''req_''" by code_simp
  with x show ?thesis by (auto simp: isLowerHex_def list_all_iff requestIDByte_def inRange_def)
qed

section \<open>Limits\<close>

lemma floatToInt_fraction: "0 < q \<Longrightarrow> q < 1 \<Longrightarrow> floatToInt q = 0"
  by (simp add: floatToInt_def floor_eq_iff)

text \<open>A bucket whose rate is 0 and which holds \<open>k\<close> tokens.\<close>

definition dry :: "nat \<Rightarrow> int \<Rightarrow> localTokenBucket \<Rightarrow> bool" where
  "dry k burst b \<longleftrightarrow> tb_rate b = 0 \<and> tb_tokens b = of_nat k \<and> tb_burst b = of_int burst \<and> int k \<le> burst"

lemma dry_step:
  assumes "rounding rnd" "dry k burst b" "burst \<le> 2 ^ 53" "bucketAllow rnd 0 burst now b = (ok, b')"
  shows "if k = 0 then \<not> ok \<and> dry 0 burst b' else ok \<and> dry (k - 1) burst b'"
proof -
  have exact: "rnd (of_nat j) = of_nat j" if "j \<le> k" for j
  proof -
    have "\<bar>int j\<bar> \<le> 2 ^ 53" using that assms(2,3) by (simp add: dry_def)
    then have "rnd (of_int (int j)) = of_int (int j)" using assms(1) unfolding rounding_def by blast
    then show ?thesis by simp
  qed
  have b: "setRate 0 burst b = b" using assms(2) by (simp add: dry_def setRate_def Let_def)
  have "\<not> (of_nat k :: rat) > of_int burst" using assms(2) unfolding dry_def by (metis not_less of_int_le_iff of_int_of_nat_eq)
  then have r: "tb_tokens (refill rnd now b) = of_nat k"
    using assms(2) exact [of k] by (simp add: dry_def refill_def Let_def rounding_0 [OF assms(1)])
  show ?thesis
  proof (cases k)
    case 0
    with assms(2,4) r b show ?thesis by (auto simp: bucketAllow_def Let_def dry_def)
  next
    case (Suc j)
    have "(of_nat k :: rat) - 1 = of_nat j" by (simp add: Suc)
    with exact [of j] Suc assms(2,4) r b show ?thesis by (auto simp: bucketAllow_def Let_def dry_def)
  qed
qed

lemma dry_run:
  assumes "rounding rnd" "burst \<le> 2 ^ 53"
  shows "dry k burst b \<Longrightarrow> fst (runBucket rnd 0 burst nows b) \<le> k"
proof (induction nows arbitrary: k b)
  case (Cons now nows)
  obtain ok b' where a: "bucketAllow rnd 0 burst now b = (ok, b')" by fastforce
  note step = dry_step [OF assms(1) Cons.prems assms(2) a]
  show ?case
  proof (cases "k = 0")
    case True
    with step Cons.IH [of 0 b'] a show ?thesis by (simp split: prod.split)
  next
    case False
    with step Cons.IH [of "k - 1" b'] have "fst (runBucket rnd 0 burst nows b') \<le> k - 1" by simp
    with False a show ?thesis by (cases "runBucket rnd 0 burst nows b'") auto
  qed
qed simp

section \<open>A small gateway\<close>

text \<open>A small gateway for examples: the configuration \<open>plainConfig\<close> with one token, no trusted proxies, and a random source that fails.\<close>

definition gatewayConfig :: Config where
  "gatewayConfig = plainConfig\<lparr>cfg_Auth := \<lparr>ac_RateLimitQPS = 1, ac_RateLimitBurst = 1, ac_Tokens = [demoToken\<lparr>ct_Value := ''secret''\<rparr>]\<rparr>\<rparr>"

definition demoEnv :: "nat middleware_env" where
  "demoEnv = \<lparr>mw_net = demoNet, mw_rnd = (\<lambda>x. x), mw_lower = (\<lambda>s. s), mw_sha256 = (\<lambda>s. s), mw_Now = (\<lambda>n. \<lparr>t_wall = int n + 1, t_mono = int n\<rparr>),
     mw_rand = (\<lambda>k n. (None, n)), mw_written = (\<lambda>c. 1)\<rparr>"

definition demoState :: "(nat, nat) gateway_state" where
  "demoState = \<lparr>gs_router = \<lparr>rs_heap = (\<lambda>_. gatewayConfig), rs_GlobalConfig = Some 1, rs_routeTableCache = None, rs_resolver = None\<rparr>,
     gs_registry = None, gs_limiter = newKeyedLocalLimiter, gs_trusted = None, gs_fallbackCounter = 0, gs_up = emptyUpstream, gs_net = 0,
     gs_inFlight = (\<lambda>_. 0), gs_requests = [], gs_events = [], gs_log = [],
     gs_metricsEndpoint = \<lparr>ms_CIDRs = None, ms_limiter = None\<rparr>, gs_draining = False, gs_activeRequests = 0\<rparr>"

lemma newWriter_unsent [simp]: "w_sent newWriter = None"
  by (simp add: newWriter_def)

section \<open>Properties\<close>

text \<open>C24. Every request carries well-formed metadata: an identifier of one to 128 harmless characters, and a trace parent of four
  lower-case hexadecimal fields whose second field is the trace identifier, whatever the client sent and even when the
  random source fails; what the client sent is kept when it is acceptable.\<close>

theorem request_meta_wellformed:
  assumes "fills env" "buildRequestMeta env r s = (meta, s')"
  shows "rm_RequestID meta \<noteq> [] \<and> length (rm_RequestID meta) \<le> 128 \<and> list_all requestIDByte (rm_RequestID meta) \<and>
    trace_form (rm_TraceParent meta) (rm_TraceID meta) \<and>
    (let sent = sanitizeRequestID (headerGet (req_Header r) ''X-Request-ID'') in sent \<noteq> [] \<longrightarrow> rm_RequestID meta = sent) \<and>
    (let sent = toLower (mw_lower env) (trimSpace (headerGet (req_Header r) ''Traceparent'')) in isValidTraceParent sent \<longrightarrow> rm_TraceParent meta = sent)"
proof (rule buildRequestMeta_parts [OF assms(2)])
  fix s1
  let ?id = "sanitizeRequestID (headerGet (req_Header r) ''X-Request-ID'')"
  let ?tp = "toLower (mw_lower env) (trimSpace (headerGet (req_Header r) ''Traceparent''))"
  assume a: "(if ?id = [] then (case generateHex env 12 s of (hex, s) \<Rightarrow> (''req_'' @ hex, s)) else (?id, s)) = (rm_RequestID meta, s1)"
    and b: "(if isValidTraceParent ?tp then (?tp, s1) else generateTraceParent env s1) = (rm_TraceParent meta, s')"
    and c: "rm_TraceID meta = traceIDFromTraceParent (rm_TraceParent meta)"
  have id: "rm_RequestID meta \<noteq> [] \<and> length (rm_RequestID meta) \<le> 128 \<and> list_all requestIDByte (rm_RequestID meta)"
  proof (cases "?id = []")
    case True
    obtain x s2 where x: "generateHex env 12 s = (x, s2)" by fastforce
    with a True have "rm_RequestID meta = ''req_'' @ x" by simp
    moreover have "isLowerHex x 24" using generateHex_lower [OF assms(1) x] by simp
    ultimately show ?thesis using hex_id_ok by simp
  next
    case False
    with a have "rm_RequestID meta = ?id" by simp
    with False sanitized_ok [OF this] show ?thesis by simp
  qed
  moreover have "trace_form (rm_TraceParent meta) (rm_TraceID meta)"
    using b c valid_trace_form generated_trace_form [OF assms(1)] by (auto split: if_splits)
  moreover have "?id \<noteq> [] \<longrightarrow> rm_RequestID meta = ?id" "isValidTraceParent ?tp \<longrightarrow> rm_TraceParent meta = ?tp" using a b by auto
  ultimately show ?thesis by (simp add: Let_def)
qed

theorem request_meta_wellformed_witness:
  "\<exists>meta s'. buildRequestMeta demoEnv forgedRequest demoState = (meta, s') \<and> trace_form (rm_TraceParent meta) (rm_TraceID meta)"
proof -
  obtain meta s' where e: "buildRequestMeta demoEnv forgedRequest demoState = (meta, s')" by fastforce
  have "fills demoEnv" by (simp add: fills_def demoEnv_def)
  from request_meta_wellformed [OF this e] e show ?thesis by blast
qed

text \<open>A token limited to less than one request per second is cut off: the limit is truncated to the integer 0 before the limiter
  sees it, and a bucket with that rate never refills; at all instants together it grants its initial burst and nothing after.\<close>

theorem fractional_limit_never_refills:
  assumes "rounding rnd" "0 < ca_RateLimitQPS a" "ca_RateLimitQPS a < 1" "rateLimits ac (Some a) = (qps, burst)" "0 \<le> burst" "burst \<le> 2 ^ 53"
  shows "qps = 0 \<and> fst (runBucket rnd (rnd (of_int qps)) burst nows (newLocalTokenBucket (rnd (of_int qps)) burst start)) \<le> nat burst"
proof -
  have q: "qps = 0" using assms(2,3,4) floatToInt_fraction by (auto simp: rateLimits_def Let_def)
  have "dry (nat burst) burst (newLocalTokenBucket 0 burst start)" using assms(5) by (simp add: dry_def newLocalTokenBucket_def)
  from dry_run [OF assms(1,6) this] q show ?thesis by (simp add: rounding_0 [OF assms(1)])
qed

theorem fractional_limit_never_refills_witness:
  "let a = (st_Auth emptyRequestState)\<lparr>ca_RateLimitQPS := 1 / 2, ca_RateLimitBurst := 2\<rparr>;
       nows = map (\<lambda>i. \<lparr>t_wall = int i * 60000000000, t_mono = int i * 60000000000\<rparr>) [0..<10]
   in fst (rateLimits (cfg_Auth zeroConfig) (Some a)) = 0 \<and>
      fst (runBucket (\<lambda>x. x) 0 2 nows (newLocalTokenBucket 0 2 \<lparr>t_wall = 0, t_mono = 0\<rparr>)) \<le> 2"
proof -
  let ?a = "(st_Auth emptyRequestState)\<lparr>ca_RateLimitQPS := 1 / 2, ca_RateLimitBurst := 2\<rparr>"
  obtain q b where r: "rateLimits (cfg_Auth zeroConfig) (Some ?a) = (q, b)" by fastforce
  then have b: "b = 2" by (simp add: rateLimits_def Let_def)
  have "0 < ca_RateLimitQPS ?a" "ca_RateLimitQPS ?a < 1" by simp_all
  note f = fractional_limit_never_refills [OF rounding_id this r]
  then have "q = 0" using b by simp
  with f b have "fst (runBucket (\<lambda>x. x) 0 2 nows (newLocalTokenBucket 0 2 start)) \<le> 2" for nows start by simp
  with r \<open>q = 0\<close> show ?thesis unfolding Let_def by simp
qed


text \<open>A request whose client has been authenticated.\<close>

definition tokenRequest :: http_request where
  "tokenRequest = putClientAuthContext forgedRequest ((st_Auth emptyRequestState)\<lparr>ca_Token := ''secret'', ca_Fingerprint := ''f''\<rparr>)"


end
