(* ===== verification/Chat_Chain.thy ===== *)
theory Chat_Chain
  imports Middleware
begin

text \<open>
  The chain of middlewares in front of the proxy. What a middleware promises is the locale \<open>guard\<close>: from a point that
  satisfies \<open>pre\<close> it either answers by itself, in the same way whatever the inner handler is, or calls the inner handler
  once, at a point that satisfies \<open>post\<close>, and keeps what that call leaves. Guards compose; every middleware is one.
\<close>

section \<open>Points of the chain\<close>

text \<open>The registry, when it is there, is that of the configuration; so is the cached route table.\<close>

definition registry_ok :: "'net middleware_env \<Rightarrow> ('net, 'cb) gateway_state \<Rightarrow> bool" where
  "registry_ok env s \<longleftrightarrow> gs_registry s = None \<or> gs_registry s = Some (rebuildTokenRegistry env (globalConfig s))"

definition intact :: "'net middleware_env \<Rightarrow> ('net, 'cb) gateway_state \<Rightarrow> bool" where
  "intact env s \<longleftrightarrow> cache_ok (gs_router s) \<and> registry_ok env s"

text \<open>What a request must leave as it was: the configuration, gauges and counters, the log, and that the caches are right.\<close>

definition same_frame :: "'net middleware_env \<Rightarrow> ('net, 'cb) gateway_state \<Rightarrow> ('net, 'cb) gateway_state \<Rightarrow> bool" where
  "same_frame env s s' \<longleftrightarrow> globalConfig s' = globalConfig s \<and> gs_inFlight s' = gs_inFlight s \<and> gs_log s' = gs_log s \<and>
     gs_activeRequests s' = gs_activeRequests s \<and> gs_draining s' = gs_draining s \<and> gs_metricsEndpoint s' = gs_metricsEndpoint s \<and>
     (intact env s \<longrightarrow> intact env s')"

text \<open>A result that settles a request: no panic, the frame as before, and an answer committed, unless the client went away.\<close>

definition settled_result ::
  "'net middleware_env \<Rightarrow> ('net, 'cb) gateway_state \<Rightarrow> bool \<times> http_request \<times> ResponseWriter \<times> ('net, 'cb) gateway_state \<Rightarrow> bool" where
  "settled_result env s res = (case res of (panicked, r', w', s') \<Rightarrow>
     \<not> panicked \<and> same_frame env s s' \<and> req_state r' \<noteq> None \<and>
     (w_sent w' \<noteq> None \<or> (\<exists>g. GetGatewayContext r' = Some g \<and> gc_FinalStatusCode g = 499)))"

definition started ::
  "'net middleware_env \<Rightarrow> Config \<Rightarrow> http_request \<Rightarrow> ResponseWriter \<Rightarrow> ('net, 'cb) gateway_state \<Rightarrow> bool" where
  "started env cfg r w s \<longleftrightarrow> globalConfig s = Some cfg \<and> cache_ok (gs_router s) \<and> registry_ok env s \<and> w_sent w = None \<and> req_state r \<noteq> None"

text \<open>The client presented an enabled token of the configuration.\<close>

definition authorised :: "Config \<Rightarrow> http_request \<Rightarrow> bool" where
  "authorised cfg r \<longleftrightarrow> (\<exists>a item. GetClientAuthContext r = Some a \<and> item \<in> set (ac_Tokens (cfg_Auth cfg)) \<and> \<not> ct_Disabled item \<and>
     ca_Token a \<noteq> [] \<and> ca_Token a = trimSpace (ct_Value item) \<and> ca_AllowedModels a = normalizeStringSlice (ct_AllowedModels item))"

definition bodied :: "int \<Rightarrow> http_request \<Rightarrow> bool" where
  "bodied limit r \<longleftrightarrow> (\<exists>raw b. GetRequestBodyContext r = Some b \<and> buildBodyContext raw = Some b \<and> int (length raw) \<le> limit)"

definition model_permitted :: "'net middleware_env \<Rightarrow> http_request \<Rightarrow> bool" where
  "model_permitted env r \<longleftrightarrow> (\<forall>a b. GetClientAuthContext r = Some a \<longrightarrow> GetRequestBodyContext r = Some b \<longrightarrow>
     bc_DecodeError b = None \<longrightarrow> bc_RequestedModel b \<noteq> [] \<longrightarrow> ca_AllowedModels a \<noteq> [] \<longrightarrow>
     isModelAllowed env (bc_RequestedModel b) (ca_AllowedModels a))"

definition routed :: "Config \<Rightarrow> http_request \<Rightarrow> bool" where
  "routed cfg r \<longleftrightarrow> (\<exists>b g. GetRequestBodyContext r = Some b \<and> bc_DecodeError b = None \<and> bc_RequestedModel b \<noteq> [] \<and>
     GetGatewayContext r = Some g \<and> gc_RequestedModel g = bc_RequestedModel b \<and> fresh_context g \<and> gc_CandidateProviders g \<noteq> [] \<and>
     mset (gc_CandidateProviders g) = mset (configuredCandidates cfg (bc_RequestedModel b)))"

section \<open>The contract of a middleware\<close>

locale guard =
  fixes env :: "'net middleware_env"
    and M :: "('net, 'cb) handler \<Rightarrow> ('net, 'cb) handler"
    and pre post :: "http_request \<Rightarrow> ResponseWriter \<Rightarrow> ('net, 'cb) gateway_state \<Rightarrow> bool"
  assumes decides: "pre r w s \<Longrightarrow>
    (\<exists>res. (\<forall>h. M h r w s = res) \<and> settled_result env s res) \<or>
    (\<exists>r1 w1 s1 k. post r1 w1 s1 \<and> (\<forall>h. M h r w s = k (h r1 w1 s1)) \<and> (\<forall>res. settled_result env s1 res \<longrightarrow> settled_result env s (k res)))"
begin

text \<open>The inner handler matters only at points that satisfy \<open>post\<close>.\<close>

lemma vets:
  assumes "pre r w s" "\<And>r1 w1 s1. post r1 w1 s1 \<Longrightarrow> h r1 w1 s1 = h' r1 w1 s1"
  shows "M h r w s = M h' r w s"
  using decides [OF assms(1)] assms(2) by metis

lemma settles:
  assumes "pre r w s" "\<And>r1 w1 s1. post r1 w1 s1 \<Longrightarrow> settled_result env s1 (h r1 w1 s1)"
  shows "settled_result env s (M h r w s)"
  using decides [OF assms(1)] assms(2) by metis

end

text \<open>Two guards in a row are one.\<close>

locale guard_chain = outer: guard env M pre mid + inner: guard env N mid post
  for env :: "'net middleware_env" and M N :: "('net, 'cb) handler \<Rightarrow> ('net, 'cb) handler" and pre mid post

sublocale guard_chain \<subseteq> both: guard env "\<lambda>h. M (N h)" pre post
proof
  fix r w s
  assume "pre r w s"
  from outer.decides [OF this] show
    "(\<exists>res. (\<forall>h. M (N h) r w s = res) \<and> settled_result env s res) \<or>
     (\<exists>r1 w1 s1 k. post r1 w1 s1 \<and> (\<forall>h. M (N h) r w s = k (h r1 w1 s1)) \<and> (\<forall>res. settled_result env s1 res \<longrightarrow> settled_result env s (k res)))"
  proof
    assume "\<exists>res. (\<forall>h. M h r w s = res) \<and> settled_result env s res"
    then show ?thesis by blast
  next
    assume "\<exists>r1 w1 s1 k. mid r1 w1 s1 \<and> (\<forall>h. M h r w s = k (h r1 w1 s1)) \<and> (\<forall>res. settled_result env s1 res \<longrightarrow> settled_result env s (k res))"
    then obtain r1 w1 s1 k where m: "mid r1 w1 s1" and eq: "\<And>h. M h r w s = k (h r1 w1 s1)"
      and keep: "\<And>res. settled_result env s1 res \<Longrightarrow> settled_result env s (k res)" by blast
    from inner.decides [OF m] show ?thesis
    proof
      assume "\<exists>res. (\<forall>h. N h r1 w1 s1 = res) \<and> settled_result env s1 res"
      with eq keep show ?thesis by metis
    next
      assume "\<exists>r2 w2 s2 j. post r2 w2 s2 \<and> (\<forall>h. N h r1 w1 s1 = j (h r2 w2 s2)) \<and> (\<forall>res. settled_result env s2 res \<longrightarrow> settled_result env s1 (j res))"
      then obtain r2 w2 s2 j where p: "post r2 w2 s2" and eq': "\<And>h. N h r1 w1 s1 = j (h r2 w2 s2)"
        and keep': "\<And>res. settled_result env s2 res \<Longrightarrow> settled_result env s1 (j res)" by blast
      have "post r2 w2 s2 \<and> (\<forall>h. M (N h) r w s = (k \<circ> j) (h r2 w2 s2)) \<and> (\<forall>res. settled_result env s2 res \<longrightarrow> settled_result env s ((k \<circ> j) res))"
        using p eq eq' keep keep' by simp
      then show ?thesis by blast
    qed
  qed
qed

section \<open>Every middleware is a guard\<close>

text \<open>What a result must keep of the state, and what a middleware that only uses limiter, clock or network keeps of it.\<close>

definition untouched :: "('net, 'cb) gateway_state \<Rightarrow> ('net, 'cb) gateway_state \<Rightarrow> bool" where
  "untouched s s' \<longleftrightarrow> globalConfig s' = globalConfig s \<and> gs_inFlight s' = gs_inFlight s \<and> gs_log s' = gs_log s \<and>
     gs_activeRequests s' = gs_activeRequests s \<and> gs_draining s' = gs_draining s \<and> gs_metricsEndpoint s' = gs_metricsEndpoint s \<and>
     gs_router s' = gs_router s \<and> gs_registry s' = gs_registry s"

lemma same_frame_refl [simp]: "same_frame env s s"
  by (simp add: same_frame_def)

lemma same_frame_trans: "same_frame env s s' \<Longrightarrow> same_frame env s' s'' \<Longrightarrow> same_frame env s s''"
  by (auto simp: same_frame_def)

lemma untouched_trans: "untouched s s' \<Longrightarrow> untouched s' s'' \<Longrightarrow> untouched s s''"
  by (simp add: untouched_def same_frame_def intact_def)

lemma untouched_frame: "untouched s s' \<Longrightarrow> same_frame env s s'"
  by (auto simp: untouched_def same_frame_def intact_def intact_def registry_ok_def)

lemma same_frame_settled: "same_frame env s s' \<Longrightarrow> settled_result env s' res \<Longrightarrow> settled_result env s res"
  by (cases res) (auto simp: settled_result_def intro: same_frame_trans)

lemma untouched_started: "untouched s s' \<Longrightarrow> w_sent w' = w_sent w \<Longrightarrow> started env cfg r w s \<Longrightarrow> started env cfg r w' s'"
  by (auto simp: same_frame_def untouched_def started_def registry_ok_def)

lemma error_settles:
  assumes "req_state r \<noteq> None"
  shows "settled_result env s (False, r, WriteOpenAIError w status message errType param code, s)"
  using assms WriteOpenAIError_sent by (simp add: settled_result_def)

lemma answer_decides:
  assumes "req_state r \<noteq> None" "same_frame env s s'" "\<And>h. M h r w s = (False, r, WriteOpenAIError w' status message errType param code, s')"
  shows "\<exists>res. (\<forall>h. M h r w s = res) \<and> settled_result env s res"
  using error_settles [OF assms(1), where s = s'] same_frame_settled [OF assms(2)] assms(3) by blast

lemma settled_returnTo:
  "req_state r \<noteq> None \<Longrightarrow> settled_result env s res \<Longrightarrow> settled_result env s (returnTo r res)"
  by (cases res) (simp add: settled_result_def returnTo_def)

lemma put_has_state [simp]:
  "req_state (putRequestMeta r m) \<noteq> None" "req_state (putClientAuthContext r a) \<noteq> None"
  "req_state (putRequestBodyContext r b) \<noteq> None" "req_state (putGatewayContext r g) \<noteq> None"
  by (simp_all add: request_state_defs split: prod.split option.split)

lemma ensureRequestState_id: "req_state r \<noteq> None \<Longrightarrow> snd (ensureRequestState r) = r"
  by (auto simp: ensureRequestState_def)

lemma registryLoop_Some:
  "registryLoop env items reg token = Some identity \<Longrightarrow>
     reg token = Some identity \<or>
     (\<exists>item\<in>set items. \<not> ct_Disabled item \<and> token \<noteq> [] \<and> token = trimSpace (ct_Value item) \<and> ti_Token identity = token \<and>
        ti_AllowedModels identity = normalizeStringSlice (ct_AllowedModels item))"
proof (induction items arbitrary: reg)
  case (Cons item items)
  show ?case
  proof (cases "ct_Disabled item \<or> trimSpace (ct_Value item) = []")
    case True
    then have "registryLoop env (item # items) reg = registryLoop env items reg" by (simp add: Let_def)
    with Cons show ?thesis by auto
  next
    case False
    with Cons.prems Cons.IH show ?thesis by (fastforce simp: Let_def split: if_splits)
  qed
qed simp

lemma resolveToken_Some:
  assumes "resolveToken env raw s = (Some identity, s')" "registry_ok env s" "globalConfig s = Some cfg"
  shows "\<exists>item\<in>set (ac_Tokens (cfg_Auth cfg)). \<not> ct_Disabled item \<and> trimSpace raw \<noteq> [] \<and> trimSpace raw = trimSpace (ct_Value item) \<and>
     ti_AllowedModels identity = normalizeStringSlice (ct_AllowedModels item)"
proof -
  from assms have "rebuildTokenRegistry env (Some cfg) (trimSpace raw) = Some identity"
    by (auto simp: resolveToken_def ensureTokenRegistry_def registry_ok_def Let_def split: option.splits)
  then show ?thesis by (auto simp: rebuildTokenRegistry_def dest!: registryLoop_Some)
qed

lemma resolveToken_state:
  assumes "resolveToken env raw s = (res, s')" "registry_ok env s"
  shows "same_frame env s s'" "gs_router s' = gs_router s" "registry_ok env s'"
  using assms by (auto simp: same_frame_def intact_def resolveToken_def ensureTokenRegistry_def registry_ok_def Let_def globalConfig_def split: option.splits)

lemma auth_decides:
  assumes "started env cfg r w s"
  shows "(\<exists>res. (\<forall>h. AuthMiddleware env h r w s = res) \<and> settled_result env s res) \<or>
    (\<exists>r1 w1 s1 k. (started env cfg r1 w1 s1 \<and> authorised cfg r1) \<and> (\<forall>h. AuthMiddleware env h r w s = k (h r1 w1 s1)) \<and>
       (\<forall>res. settled_result env s1 res \<longrightarrow> settled_result env s (k res)))"
proof -
  let ?t = "trimSpace (trimPrefix (trimSpace (headerGet (req_Header r) ''Authorization'')) ''Bearer '')"
  obtain res s' where t: "resolveToken env ?t s = (res, s')" by fastforce
  have st: "req_state r \<noteq> None" "registry_ok env s" "globalConfig s = Some cfg" using assms by (auto simp: started_def)
  note keep = resolveToken_state [OF t st(2)]
  have f: "same_frame env s s" by (simp add: same_frame_def)
  let ?hd = "trimSpace (headerGet (req_Header r) ''Authorization'')"
  note answer = answer_decides [where M = "AuthMiddleware env", OF st(1)]
  consider "?hd = []" | "?hd \<noteq> []" "\<not> hasPrefix ?hd ''Bearer ''" | "?hd \<noteq> []" "hasPrefix ?hd ''Bearer ''" "?t = []"
    | (token) "?hd \<noteq> []" "hasPrefix ?hd ''Bearer ''" "?t \<noteq> []" by blast
  then show ?thesis
  proof cases
    case 1
    then show ?thesis by (intro disjI1 answer [OF f]) (simp add: AuthMiddleware_def Let_def error_writers)
  next
    case 2
    then show ?thesis by (intro disjI1 answer [OF f]) (simp add: AuthMiddleware_def Let_def error_writers)
  next
    case 3
    then show ?thesis by (intro disjI1 answer [OF f]) (simp add: AuthMiddleware_def Let_def error_writers)
  next
    case token
    show ?thesis
    proof (cases res)
      case None
      with token t show ?thesis by (intro disjI1 answer [OF keep(1)]) (simp add: AuthMiddleware_def Let_def error_writers)
    next
      case (Some identity)
      from resolveToken_Some [OF t [unfolded Some] st(2,3)] obtain item where
        item: "item \<in> set (ac_Tokens (cfg_Auth cfg))" "\<not> ct_Disabled item" "?t = trimSpace (ct_Value item)"
          "ti_AllowedModels identity = normalizeStringSlice (ct_AllowedModels item)" by auto
      let ?a = "\<lparr>ca_Token = ?t, ca_Fingerprint = ti_Fingerprint identity, ca_TokenName = ti_Name identity,
         ca_RateLimitQPS = ti_RateLimitQPS identity, ca_RateLimitBurst = ti_RateLimitBurst identity, ca_AllowedModels = ti_AllowedModels identity\<rparr>"
      have "started env cfg (putClientAuthContext r ?a) w s'" using assms keep by (simp add: started_def same_frame_def)
      moreover have "authorised cfg (putClientAuthContext r ?a)" unfolding authorised_def using item token
        by (intro exI [of _ ?a] exI [of _ item]) simp
      moreover have "\<forall>h. AuthMiddleware env h r w s = returnTo r (h (putClientAuthContext r ?a) w s')"
        using token t Some by (simp add: AuthMiddleware_def Let_def)
      moreover have "\<forall>res. settled_result env s' res \<longrightarrow> settled_result env s (returnTo r res)" using settled_returnTo [OF st(1)] same_frame_settled [OF keep(1)] by blast
      ultimately show ?thesis by blast
    qed
  qed
qed

interpretation auth: guard env "AuthMiddleware env" "started env cfg" "\<lambda>r w s. started env cfg r w s \<and> authorised cfg r" for env cfg
  by unfold_locales (rule auth_decides)

text \<open>The limiter hands over the request as it is.\<close>

lemma clientIP_started:
  assumes "clientIP env r s = (ip, s')" "globalConfig s \<noteq> None"
  shows "ip \<noteq> None" "globalConfig s' = globalConfig s" "gs_router s' = gs_router s" "gs_registry s' = gs_registry s" "gs_inFlight s' = gs_inFlight s"
    "gs_log s' = gs_log s" "gs_activeRequests s' = gs_activeRequests s" "gs_draining s' = gs_draining s" "gs_metricsEndpoint s' = gs_metricsEndpoint s"
  using assms by (auto simp: clientIP_def Let_def globalConfig_def split: prod.splits if_splits)

lemma identity_started:
  assumes "buildRateLimitIdentity env r s = (id', s')" "globalConfig s \<noteq> None"
  shows "id' \<noteq> None" "globalConfig s' = globalConfig s" "gs_router s' = gs_router s" "gs_registry s' = gs_registry s" "gs_inFlight s' = gs_inFlight s"
    "gs_log s' = gs_log s" "gs_activeRequests s' = gs_activeRequests s" "gs_draining s' = gs_draining s" "gs_metricsEndpoint s' = gs_metricsEndpoint s"
proof -
  obtain ip s1 where c: "clientIP env r s = (ip, s1)" by fastforce
  note f = clientIP_started [OF c assms(2)]
  from assms(1) c f show "id' \<noteq> None" "globalConfig s' = globalConfig s" "gs_router s' = gs_router s" "gs_registry s' = gs_registry s"
    "gs_inFlight s' = gs_inFlight s" "gs_log s' = gs_log s" "gs_activeRequests s' = gs_activeRequests s" "gs_draining s' = gs_draining s" "gs_metricsEndpoint s' = gs_metricsEndpoint s"
    by (auto simp: buildRateLimitIdentity_def Let_def split: option.splits if_splits)
qed

lemma rate_cases:
  assumes "started env cfg r w s"
  obtains (refused) w' s' where "untouched s s'" "\<forall>h. RateLimitMiddleware env h r w s =
      (False, r, WriteRateLimitError w' ''Rate limit exceeded.'' ''rate_limit_exceeded'', s')"
  | (passed) w' s' where "untouched s s'" "w_sent w' = w_sent w" "\<forall>h. RateLimitMiddleware env h r w s = h r w' s'"
proof -
  have g: "globalConfig s = Some cfg" using assms by (simp add: started_def)
  obtain qps burst where q: "rateLimits (cfg_Auth cfg) (GetClientAuthContext r) = (qps, burst)" by fastforce
  obtain id' s1 where i: "buildRateLimitIdentity env r s = (id', s1)" by fastforce
  from identity_started [OF i] g obtain scope key where id': "id' = Some (scope, key)" and f1: "untouched s s1"
    by (auto simp: untouched_def same_frame_def intact_def)
  obtain allowed l where a: "limiterAllow (mw_rnd env) (mw_Now env (gs_net s1)) key (mw_rnd env (of_int qps)) burst (gs_limiter s1) = (allowed, l)"
    by fastforce
  let ?s2 = "s1\<lparr>gs_limiter := l\<rparr>"
  have f2: "untouched s ?s2" using f1 by (simp add: untouched_def same_frame_def intact_def globalConfig_def)
  obtain ip s3 where ip: "(if scope = ''ip'' then clientIP env r ?s2 else (Some [], ?s2)) = (ip, s3)" by fastforce
  have f3: "untouched ?s2 s3 \<and> ip \<noteq> None"
    using ip clientIP_started [of env r ?s2 ip s3] f2 g by (auto simp: untouched_def same_frame_def intact_def split: if_splits)
  then obtain addr where addr: "ip = Some addr" by blast
  have f: "untouched s s3" using untouched_trans f2 f3 by blast
  define hdr where "hdr = (\<lambda>w::ResponseWriter.
     let w = setHeader (setHeader (setHeader w ''X-RateLimit-Limit'' (itoa qps)) ''X-RateLimit-Burst'' (itoa burst)) ''X-RateLimit-Scope'' scope;
         w = (case GetClientAuthContext r of
                Some authCtx \<Rightarrow> if ca_TokenName authCtx \<noteq> [] then setHeader w ''X-Gateway-Token'' (ca_TokenName authCtx) else w
              | None \<Rightarrow> w)
     in if scope = ''ip'' then setHeader w ''X-RateLimit-Client-IP'' addr else w)"
  have hdr: "w_sent (hdr w) = w_sent w" by (simp add: hdr_def Let_def split: option.split)
  have run: "RateLimitMiddleware env h r w s =
     (if allowed then h r (hdr w) s3
      else (False, r, WriteRateLimitError (setHeader (hdr w) ''Retry-After'' ''1'') ''Rate limit exceeded.'' ''rate_limit_exceeded'', s3))" for h
    using g q i id' a ip addr unfolding RateLimitMiddleware_def hdr_def by (simp add: Let_def)
  show thesis
  proof (cases allowed)
    case True
    with run have "\<forall>h. RateLimitMiddleware env h r w s = h r (hdr w) s3" by simp
    with f hdr show ?thesis by (rule passed)
  next
    case False
    with run show ?thesis using f by (intro refused) auto
  qed
qed

interpretation rate: guard env "RateLimitMiddleware env" "\<lambda>r w s. started env cfg r w s \<and> authorised cfg r" "\<lambda>r w s. started env cfg r w s \<and> authorised cfg r"
  for env cfg
proof
  fix r w and s :: "('a, 'b) gateway_state"
  assume *: "started env cfg r w s \<and> authorised cfg r"
  then have st: "req_state r \<noteq> None" "started env cfg r w s" by (simp_all add: started_def)
  show "(\<exists>res. (\<forall>h. RateLimitMiddleware env h r w s = res) \<and> settled_result env s res) \<or>
    (\<exists>r1 w1 s1 k. (started env cfg r1 w1 s1 \<and> authorised cfg r1) \<and> (\<forall>h. RateLimitMiddleware env h r w s = k (h r1 w1 s1)) \<and>
       (\<forall>res. settled_result env s1 res \<longrightarrow> settled_result env s (k res)))"
  proof (cases rule: rate_cases [OF st(2)])
    case (1 w' s')
    then show ?thesis by (intro disjI1 answer_decides [where M = "RateLimitMiddleware env", OF st(1) untouched_frame [OF 1(1)]]) (simp add: error_writers)
  next
    case (2 w' s')
    then show ?thesis using untouched_started [OF 2(1,2) st(2)] same_frame_settled [OF untouched_frame [OF 2(1)]] *
      by (intro disjI2 exI [of _ r] exI [of _ w'] exI [of _ s'] exI [of _ "\<lambda>x. x"]) simp
  qed
qed

text \<open>Reading the body never panics, and what is handed on fits the limit.\<close>

lemma buildBodyContext_total: "\<exists>b. buildBodyContext raw = Some b"
proof (cases "inspectRequestBody raw")
  case (Inr info)
  from inspected_body_total [OF this] obtain x where "buildUpstreamBodyFromInspection raw info = Some x" by blast
  with Inr show ?thesis by (cases x) (simp add: buildBodyContext_def)
qed (simp add: buildBodyContext_def)

abbreviation after_auth :: "'net middleware_env \<Rightarrow> Config \<Rightarrow> http_request \<Rightarrow> ResponseWriter \<Rightarrow> ('net, 'cb) gateway_state \<Rightarrow> bool" where
  "after_auth env cfg r w s \<equiv> started env cfg r w s \<and> authorised cfg r"

abbreviation after_body :: "'net middleware_env \<Rightarrow> Config \<Rightarrow> http_request \<Rightarrow> ResponseWriter \<Rightarrow> ('net, 'cb) gateway_state \<Rightarrow> bool" where
  "after_body env cfg r w s \<equiv> started env cfg r w s \<and> authorised cfg r \<and> bodied DefaultMaxRequestBodyBytes r"

abbreviation after_allow :: "'net middleware_env \<Rightarrow> Config \<Rightarrow> http_request \<Rightarrow> ResponseWriter \<Rightarrow> ('net, 'cb) gateway_state \<Rightarrow> bool" where
  "after_allow env cfg r w s \<equiv> started env cfg r w s \<and> authorised cfg r \<and> bodied DefaultMaxRequestBodyBytes r \<and> model_permitted env r"

abbreviation after_route :: "'net middleware_env \<Rightarrow> Config \<Rightarrow> http_request \<Rightarrow> ResponseWriter \<Rightarrow> ('net, 'cb) gateway_state \<Rightarrow> bool" where
  "after_route env cfg r w s \<equiv> started env cfg r w s \<and> authorised cfg r \<and> bodied DefaultMaxRequestBodyBytes r \<and> model_permitted env r \<and> routed cfg r"

lemma applyRequestBody_simps [simp]:
  "req_state (applyRequestBody r b) = req_state r" "GetClientAuthContext (applyRequestBody r b) = GetClientAuthContext r"
  "GetRequestMeta (applyRequestBody r b) = GetRequestMeta r" "req_Header (applyRequestBody r b) = req_Header r"
  by (simp_all add: applyRequestBody_def GetClientAuthContext_def GetRequestMeta_def split: option.split)

interpretation body: guard env "BodyContextMiddleware DefaultMaxRequestBodyBytes" "after_auth env cfg" "after_body env cfg" for env cfg
proof
  fix r w and s :: "('a, 'b) gateway_state"
  assume pre: "after_auth env cfg r w s"
  then have st: "req_state r \<noteq> None" by (simp add: started_def)
  let ?M = "BodyContextMiddleware DefaultMaxRequestBodyBytes :: ('a, 'b) handler \<Rightarrow> ('a, 'b) handler"
  note answer = answer_decides [where M = ?M, OF st same_frame_refl]
  have m: "\<not> DefaultMaxRequestBodyBytes \<le> 0" by (simp add: DefaultMaxRequestBodyBytes_def)
  show "(\<exists>res. (\<forall>h. ?M h r w s = res) \<and> settled_result env s res) \<or>
    (\<exists>r1 w1 s1 k. after_body env cfg r1 w1 s1 \<and> (\<forall>h. ?M h r w s = k (h r1 w1 s1)) \<and> (\<forall>res. settled_result env s1 res \<longrightarrow> settled_result env s (k res)))"
  proof (cases "req_Body r")
    case None
    then show ?thesis by (intro disjI1 answer) (simp add: BodyContextMiddleware_def Let_def)
  next
    case (Some body)
    consider "int (length (bs_data body)) > DefaultMaxRequestBodyBytes" | "\<not> int (length (bs_data body)) > DefaultMaxRequestBodyBytes" "bs_fails body"
      | (read) "int (length (bs_data body)) \<le> DefaultMaxRequestBodyBytes" "\<not> bs_fails body" by linarith
    then show ?thesis
    proof cases
      case 1
      with Some m show ?thesis by (intro disjI1 answer) (simp add: BodyContextMiddleware_def Let_def)
    next
      case 2
      with Some m show ?thesis by (intro disjI1 answer) (simp add: BodyContextMiddleware_def Let_def)
    next
      case read
      obtain b where b: "buildBodyContext (bs_data body) = Some b" using buildBodyContext_total by blast
      let ?r = "applyRequestBody r (bc_UpstreamBody b)"
      let ?r1 = "putRequestBodyContext ?r b"
      have "after_body env cfg ?r1 w s" using pre b read(1) by (auto simp: started_def authorised_def bodied_def)
      moreover have "\<forall>h. ?M h r w s = returnTo ?r (h ?r1 w s)" using Some m read b by (simp add: BodyContextMiddleware_def Let_def)
      moreover have "\<forall>res. settled_result env s res \<longrightarrow> settled_result env s (returnTo ?r res)" using st by (intro allI impI settled_returnTo) auto
      ultimately show ?thesis by blast
    qed
  qed
qed

lemma pass_on:
  assumes "\<And>h. M h r w s = h r w s" "post r w s"
  shows "\<exists>r1 w1 s1 k. post r1 w1 s1 \<and> (\<forall>h. M h r w s = k (h r1 w1 s1)) \<and> (\<forall>res. settled_result env s1 res \<longrightarrow> settled_result env s (k res))"
  using assms by (intro exI [of _ r] exI [of _ w] exI [of _ s] exI [of _ "\<lambda>x. x"]) simp

interpretation allow: guard env "ModelAllowlistMiddleware env" "after_body env cfg" "after_allow env cfg" for env cfg
proof
  fix r w and s :: "('a, 'b) gateway_state"
  assume pre: "after_body env cfg r w s"
  then have st: "req_state r \<noteq> None" by (simp add: started_def)
  from pre obtain a b where a: "GetClientAuthContext r = Some a" and b: "GetRequestBodyContext r = Some b"
    by (auto simp: authorised_def bodied_def)
  let ?M = "ModelAllowlistMiddleware env :: ('a, 'b) handler \<Rightarrow> ('a, 'b) handler"
  show "(\<exists>res. (\<forall>h. ?M h r w s = res) \<and> settled_result env s res) \<or>
    (\<exists>r1 w1 s1 k. after_allow env cfg r1 w1 s1 \<and> (\<forall>h. ?M h r w s = k (h r1 w1 s1)) \<and> (\<forall>res. settled_result env s1 res \<longrightarrow> settled_result env s (k res)))"
  proof (cases "model_permitted env r")
    case True
    then have "\<And>h. ?M h r w s = h r w s" using a b by (auto simp: ModelAllowlistMiddleware_def model_permitted_def Let_def)
    then show ?thesis using pre True by (intro disjI2 pass_on) auto
  next
    case False
    then show ?thesis using a b
      by (intro disjI1 answer_decides [where M = ?M, OF st same_frame_refl])
        (auto simp: ModelAllowlistMiddleware_def model_permitted_def Let_def error_writers)
  qed
qed

lemma fresh_SetActiveProvider: "fresh_context g \<Longrightarrow> fresh_context (SetActiveProvider g p)"
  by (simp add: fresh_context_def)

lemma gc_RequestedModel_SetActiveProvider [simp]: "gc_RequestedModel (SetActiveProvider g p) = gc_RequestedModel g"
  by (simp add: SetActiveProvider_def noteProviderAttempt_def)

lemma route_guard:
  assumes pre: "after_allow env cfg r w s"
  shows "(\<exists>res. (\<forall>h. ModelRouterMiddleware h r w s = res) \<and> settled_result env s res) \<or>
    (\<exists>r1 w1 s1 k. after_route env cfg r1 w1 s1 \<and> (\<forall>h. ModelRouterMiddleware h r w s = k (h r1 w1 s1)) \<and>
       (\<forall>res. settled_result env s1 res \<longrightarrow> settled_result env s (k res)))"
proof -
  from pre have st: "req_state r \<noteq> None" and cfg: "globalConfig s = Some cfg" and cache: "cache_ok (gs_router s)" by (simp_all add: started_def)
  from pre obtain b where b: "GetRequestBodyContext r = Some b" by (auto simp: bodied_def)
  let ?m = "bc_RequestedModel b"
  obtain res rs where l: "lookupRoute ?m (gs_router s) = (res, rs)" by fastforce
  note t = lookupRoute_total [OF cache l]
  let ?s = "s\<lparr>gs_router := rs\<rparr>"
  have f: "same_frame env s ?s" using t by (simp add: same_frame_def intact_def registry_ok_def globalConfig_def)
  note answer = answer_decides [where M = ModelRouterMiddleware, OF st]
  consider "bc_DecodeError b \<noteq> None" | "bc_DecodeError b = None" "?m = []" | "bc_DecodeError b = None" "?m \<noteq> []" "res = Some None"
    | (found) entry policy where "bc_DecodeError b = None" "?m \<noteq> []" "res = Some (Some (entry, policy))"
    using t(1) by (metis not_None_eq surj_pair)
  then show ?thesis
  proof cases
    case 1
    with b show ?thesis by (intro disjI1 answer [OF same_frame_refl]) (simp add: ModelRouterMiddleware_def)
  next
    case 2
    with b show ?thesis by (intro disjI1 answer [OF same_frame_refl]) (simp add: ModelRouterMiddleware_def)
  next
    case 3
    with b l show ?thesis by (intro disjI1 answer [OF f]) (simp add: ModelRouterMiddleware_def)
  next
    case found
    from cfg obtain p where p: "rs_GlobalConfig (gs_router s) = Some p" "rs_heap (gs_router s) p = cfg" by (auto simp: globalConfig_def)
    note e = lookupRoute_entry [OF cache p(1) l [unfolded found(3)], unfolded p(2)]
    then obtain c cs where c: "re_candidates entry = c # cs" by (meson list.exhaust)
    define g where "g = SetActiveProvider (emptyGatewayContext\<lparr>gc_RequestedModel := ?m, gc_TargetModel := ?m,
       gc_CandidateProviders := re_candidates entry, gc_RouteSelectionPolicy := policy, gc_RouteCandidates := re_routeCandidates entry\<rparr>) c"
    have g: "fresh_context g" "gc_CandidateProviders g = re_candidates entry" "gc_RequestedModel g = ?m"
      unfolding g_def by (simp_all add: fresh_context_def emptyGatewayContext_def)
    have "after_route env cfg (putGatewayContext r g) w ?s"
      using pre b g e c found t by (auto simp: started_def registry_ok_def globalConfig_def authorised_def bodied_def model_permitted_def routed_def)
    moreover have "\<forall>h. ModelRouterMiddleware h r w s = returnTo r (h (putGatewayContext r g) w ?s)"
      using b found l c by (simp add: ModelRouterMiddleware_def Let_def g_def)
    moreover have "\<forall>res. settled_result env ?s res \<longrightarrow> settled_result env s (returnTo r res)"
      using settled_returnTo [OF st] same_frame_settled [OF f] by blast
    ultimately show ?thesis by blast
  qed
qed

interpretation route: guard env ModelRouterMiddleware "after_allow env cfg" "after_route env cfg" for env cfg
  by unfold_locales (rule route_guard)

text \<open>The metrics middleware counts the request in flight and takes it out again.\<close>

lemma settled_metrics:
  assumes "settled_result env (inFlightAdd 1 route s) (p, r', w', s')"
  shows "settled_result env s (p, r', w', inFlightAdd (- 1) route (s'\<lparr>gs_requests := x\<rparr>))" "settled_result env s (p, r', w', inFlightAdd (- 1) route s')"
  using assms by (auto simp: settled_result_def same_frame_def intact_def registry_ok_def inFlightAdd_def globalConfig_def fun_eq_iff)

interpretation metrics: guard env MetricsMiddleware "after_route env cfg" "after_route env cfg" for env cfg
proof
  fix r w and s :: "('a, 'b) gateway_state"
  assume pre: "after_route env cfg r w s"
  then have st: "req_state r \<noteq> None" by (simp add: started_def)
  let ?M = "MetricsMiddleware :: ('a, 'b) handler \<Rightarrow> ('a, 'b) handler" and ?s1 = "inFlightAdd 1 (metricsRouteLabel r) s"
  note r = ensureRequestState_id [OF st]
  have "after_route env cfg r w ?s1" using pre by (simp add: started_def inFlightAdd_def globalConfig_def registry_ok_def)
  moreover have "\<forall>h. ?M h r w s = MetricsMiddleware (\<lambda>_ _ _. h r w ?s1) r w s" by (simp add: MetricsMiddleware_def r)
  moreover have "settled_result env s (?M (\<lambda>_ _ _. res) r w s)" if "settled_result env ?s1 res" for res
    using that st settled_metrics [of env "metricsRouteLabel r" s]
    by (cases res) (auto simp: MetricsMiddleware_def r Let_def intro!: settled_returnTo split: bool.split prod.split)
  ultimately show "(\<exists>res. (\<forall>h. ?M h r w s = res) \<and> settled_result env s res) \<or>
    (\<exists>r1 w1 s1 k. after_route env cfg r1 w1 s1 \<and> (\<forall>h. ?M h r w s = k (h r1 w1 s1)) \<and> (\<forall>res. settled_result env s1 res \<longrightarrow> settled_result env s (k res)))"
    by (intro disjI2 exI [of _ r] exI [of _ w] exI [of _ ?s1] exI [of _ "\<lambda>res. ?M (\<lambda>_ _ _. res) r w s"]) simp
qed

text \<open>The guards in the order of the chain.\<close>

interpretation c1: guard_chain env ModelRouterMiddleware MetricsMiddleware "after_allow env cfg" "after_route env cfg" "after_route env cfg" for env cfg ..

interpretation c2: guard_chain env "ModelAllowlistMiddleware env" "\<lambda>h. ModelRouterMiddleware (MetricsMiddleware h)"
  "after_body env cfg" "after_allow env cfg" "after_route env cfg" for env cfg ..

interpretation c3: guard_chain env "BodyContextMiddleware DefaultMaxRequestBodyBytes"
  "\<lambda>h. ModelAllowlistMiddleware env (ModelRouterMiddleware (MetricsMiddleware h))"
  "after_auth env cfg" "after_body env cfg" "after_route env cfg" for env cfg ..

interpretation c4: guard_chain env "RateLimitMiddleware env"
  "\<lambda>h. BodyContextMiddleware DefaultMaxRequestBodyBytes (ModelAllowlistMiddleware env (ModelRouterMiddleware (MetricsMiddleware h)))"
  "after_auth env cfg" "after_auth env cfg" "after_route env cfg" for env cfg ..

interpretation c5: guard_chain env "AuthMiddleware env"
  "\<lambda>h. RateLimitMiddleware env (BodyContextMiddleware DefaultMaxRequestBodyBytes (ModelAllowlistMiddleware env (ModelRouterMiddleware (MetricsMiddleware h))))"
  "started env cfg" "after_auth env cfg" "after_route env cfg" for env cfg ..

end
