(* ===== verification/Gateway.thy ===== *)
theory Gateway
  imports Chat_Chain
begin

text \<open>
  The chat endpoint of the gateway: \<open>buildChatHandler\<close> of \<open>internal/router/router.go\<close>, the proxy behind the chain of middlewares.
\<close>

section \<open>The chat endpoint\<close>

text \<open>The proxy as a handler. It counts the request as active while it works on it. Without a configuration it panics as
  soon as it turns to the providers.\<close>

definition activeAdd :: "int \<Rightarrow> ('net, 'cb) gateway_state \<Rightarrow> ('net, 'cb) gateway_state" where
  "activeAdd d s = s\<lparr>gs_activeRequests := gs_activeRequests s + d\<rparr>"

definition GetActiveRequests :: "('net, 'cb) gateway_state \<Rightarrow> int" where
  "GetActiveRequests s = gs_activeRequests s"

definition GatewayProxy :: "'net proxy_env \<Rightarrow> ('net, 'cb) handler" where
  "GatewayProxy penv r w s =
     (let s = activeAdd 1 s;
          turns = (case (GetGatewayContext r, GetRequestBodyContext r) of (Some g, Some _) \<Rightarrow> gc_CandidateProviders g \<noteq> [] | _ \<Rightarrow> False) in
      if globalConfig s = None \<and> turns then (True, r, w, activeAdd (- 1) s)
      else (let penv = (case globalConfig s of Some cfg \<Rightarrow> penv\<lparr>px_config := cfg\<rparr> | None \<Rightarrow> penv);
                (r', w', up, net, events) = ServeHTTP penv r w (gs_up s) (gs_net s)
            in (False, r', w', activeAdd (- 1) (s\<lparr>gs_up := up, gs_net := net, gs_events := gs_events s @ events\<rparr>))))"

text \<open>The middlewares around an inner handler, in the order in which \<open>buildChatHandler\<close> wraps them.\<close>

definition chatMiddlewares :: "'net middleware_env \<Rightarrow> ('net, 'cb) handler \<Rightarrow> ('net, 'cb) handler" where
  "chatMiddlewares env handler =
     (let handler = MetricsMiddleware handler;
          handler = ModelRouterMiddleware handler;
          handler = ModelAllowlistMiddleware env handler;
          handler = BodyContextMiddleware DefaultMaxRequestBodyBytes handler;
          handler = RateLimitMiddleware env handler;
          handler = AuthMiddleware env handler;
          handler = AccessLogMiddleware env handler;
          handler = RequestMetaMiddleware env handler
      in handler)"

definition buildChatHandler :: "'net middleware_env \<Rightarrow> 'net proxy_env \<Rightarrow> ('net, 'cb) handler" where
  "buildChatHandler env penv = chatMiddlewares env (GatewayProxy penv)"

section \<open>From the inner chain to the endpoint\<close>

text \<open>The chain between the access log and the proxy.\<close>

definition guardedProxy :: "'net middleware_env \<Rightarrow> ('net, 'cb) handler \<Rightarrow> ('net, 'cb) handler" where
  "guardedProxy env h = AuthMiddleware env (RateLimitMiddleware env (BodyContextMiddleware DefaultMaxRequestBodyBytes
     (ModelAllowlistMiddleware env (ModelRouterMiddleware (MetricsMiddleware h)))))"

lemma chatMiddlewares_eq: "chatMiddlewares env h = RequestMetaMiddleware env (AccessLogMiddleware env (guardedProxy env h))"
  by (simp add: chatMiddlewares_def guardedProxy_def Let_def)

lemma guardedProxy_vets:
  assumes "started env cfg r w s" "\<And>r1 w1 s1. after_route env cfg r1 w1 s1 \<Longrightarrow> h r1 w1 s1 = h' r1 w1 s1"
  shows "guardedProxy env h r w s = guardedProxy env h' r w s"
  unfolding guardedProxy_def using assms by (rule c5.both.vets)

lemma guardedProxy_settles:
  assumes "started env cfg r w s" "\<And>r1 w1 s1. after_route env cfg r1 w1 s1 \<Longrightarrow> settled_result env s1 (h r1 w1 s1)"
  shows "settled_result env s (guardedProxy env h r w s)"
  unfolding guardedProxy_def using assms by (rule c5.both.settles)

text \<open>What the metadata middleware changes before it calls on.\<close>

definition reseeded :: "('net, 'cb) gateway_state \<Rightarrow> ('net, 'cb) gateway_state \<Rightarrow> bool" where
  "reseeded s s' \<longleftrightarrow> (\<exists>net c. s' = s\<lparr>gs_net := net, gs_fallbackCounter := c\<rparr>)"

lemma reseeded_refl: "reseeded s s"
  unfolding reseeded_def by (intro exI [of _ "gs_net s"] exI [of _ "gs_fallbackCounter s"]) simp

lemma reseeded_trans: "reseeded s s1 \<Longrightarrow> reseeded s1 s2 \<Longrightarrow> reseeded s s2"
  by (fastforce simp: reseeded_def)

lemma reseeded_keeps:
  "reseeded s s' \<Longrightarrow> untouched s s' \<and> gs_up s' = gs_up s \<and> gs_limiter s' = gs_limiter s \<and> gs_requests s' = gs_requests s \<and>
     gs_events s' = gs_events s \<and> gs_trusted s' = gs_trusted s"
  by (auto simp: reseeded_def untouched_def globalConfig_def)

lemma generateHex_reseeds: "generateHex env n s = (x, s') \<Longrightarrow> reseeded s s'"
  unfolding reseeded_def
  by (auto simp: generateHex_def Let_def split: prod.splits option.splits) (metis gateway_state.surjective gateway_state.update_convs(5,7))

lemma generateTraceParent_reseeds: "generateTraceParent env s = (x, s') \<Longrightarrow> reseeded s s'"
  by (auto simp: generateTraceParent_def Let_def split: prod.splits dest!: generateHex_reseeds intro: reseeded_trans)

lemma buildRequestMeta_reseeds:
  assumes "buildRequestMeta env r s = (meta, s')"
  shows "reseeded s s'"
proof (rule buildRequestMeta_parts [OF assms])
  fix s1
  assume a: "(if sanitizeRequestID (headerGet (req_Header r) ''X-Request-ID'') = [] then (case generateHex env 12 s of (hex, s) \<Rightarrow> (''req_'' @ hex, s))
      else (sanitizeRequestID (headerGet (req_Header r) ''X-Request-ID''), s)) = (rm_RequestID meta, s1)"
    and b: "(if isValidTraceParent (toLower (mw_lower env) (trimSpace (headerGet (req_Header r) ''Traceparent'')))
      then (toLower (mw_lower env) (trimSpace (headerGet (req_Header r) ''Traceparent'')), s1) else generateTraceParent env s1) = (rm_TraceParent meta, s')"
  from a have "reseeded s s1" using reseeded_refl generateHex_reseeds by (auto split: if_splits prod.splits)
  moreover from b have "reseeded s1 s'" using reseeded_refl generateTraceParent_reseeds by (auto split: if_splits)
  ultimately show ?thesis by (rule reseeded_trans)
qed

lemma RequestMeta_calls:
  obtains meta w1 s1 where "buildRequestMeta env r s = (meta, s1)" "w_sent w1 = w_sent w"
    "\<forall>h. RequestMetaMiddleware env h r w s = returnTo r (h (putRequestMeta r meta) w1 s1)"
proof -
  obtain meta s1 where m: "buildRequestMeta env r s = (meta, s1)" by fastforce
  let ?w = "setHeader (setHeader w ''X-Request-ID'' (rm_RequestID meta)) ''Traceparent'' (rm_TraceParent meta)"
  let ?w1 = "if rm_TraceState meta \<noteq> [] then setHeader ?w ''Tracestate'' (rm_TraceState meta) else ?w"
  show thesis by (rule that [OF m, of ?w1]) (simp_all add: RequestMetaMiddleware_def m Let_def)
qed

text \<open>A request as the server hands it over.\<close>

definition coherent :: "'net middleware_env \<Rightarrow> Config \<Rightarrow> ('net, 'cb) gateway_state \<Rightarrow> bool" where
  "coherent env cfg s \<longleftrightarrow> globalConfig s = Some cfg \<and> cache_ok (gs_router s) \<and> registry_ok env s"

lemma coherent_reseeded: "coherent env cfg s \<Longrightarrow> reseeded s s' \<Longrightarrow> coherent env cfg s'"
  using reseeded_keeps [of s s'] by (auto simp: coherent_def untouched_def registry_ok_def)

lemma coherent_started: "coherent env cfg s \<Longrightarrow> w_sent w = None \<Longrightarrow> req_state r \<noteq> None \<Longrightarrow> started env cfg r w s"
  by (simp add: coherent_def started_def)

text \<open>The access log writes one line when the rest of the chain settles the request.\<close>

lemma AccessLog_line:
  assumes "req_state r \<noteq> None" "globalConfig s \<noteq> None" "h r w s = (panicked, r', w', s')" "settled_result env s (h r w s)"
  obtains e s'' where "AccessLogMiddleware env h r w s = (False, r', w', s'')" "gs_log s'' = gs_log s @ [e]"
    "ae_status_code e = accessStatus w' (GetGatewayContext r')" "ae_meta e = GetRequestMeta r'"
    "ae_response_bytes e = observedBytes env (w_body w) w'" "same_frame env s (s''\<lparr>gs_log := gs_log s\<rparr>)"
    "gs_up s'' = gs_up s'" "gs_limiter s'' = gs_limiter s'" "gs_requests s'' = gs_requests s'" "gs_events s'' = gs_events s'"
proof -
  note r = ensureRequestState_id [OF assms(1)]
  have h: "\<not> panicked" "same_frame env s s'" using assms(3,4) by (auto simp: settled_result_def)
  obtain ip s1 where c: "clientIP env r' s' = (ip, s1)" by fastforce
  have "globalConfig s' \<noteq> None" using h(2) assms(2) by (simp add: same_frame_def)
  note ip = clientIP_started [OF c this]
  then obtain a where a: "ip = Some a" by blast
  have s1: "gs_up s1 = gs_up s'" "gs_limiter s1 = gs_limiter s'" "gs_requests s1 = gs_requests s'" "gs_events s1 = gs_events s'"
    using c by (auto simp: clientIP_def Let_def split: if_splits prod.splits)
  define e where "e = accessEntry env (mw_Now env (gs_net s)) (w_body w) r' w' a s1"
  have e: "AccessLogMiddleware env h r w s = (False, r', w', s1\<lparr>gs_log := gs_log s1 @ [e]\<rparr>)"
    using h(1) c a assms(1,3) by (auto simp: AccessLogMiddleware_def r Let_def returnTo_def e_def)
  have "same_frame env s (s1\<lparr>gs_log := gs_log s\<rparr>)"
    using h(2) ip by (auto simp: same_frame_def intact_def registry_ok_def globalConfig_def)
  moreover have "gs_log s1 = gs_log s" using h(2) ip by (simp add: same_frame_def)
  ultimately show thesis by (intro that [OF e, of e]) (simp_all add: e_def accessEntry_def s1)
qed

text \<open>The proxy settles every request that reaches it, when the adapters answer.\<close>

lemma globalConfig_active: "globalConfig (s\<lparr>gs_activeRequests := n\<rparr>) = globalConfig s"
  by (simp add: globalConfig_def)

lemma GatewayProxy_settles:
  assumes "after_route env cfg r w s" "\<forall>name. answering (px_GetProvider penv name)"
  shows "settled_result env s (GatewayProxy penv r w s)"
proof -
  let ?env = "penv\<lparr>px_config := cfg\<rparr>"
  obtain r' w' up net ev where run: "ServeHTTP ?env r w (gs_up s) (gs_net s) = (r', w', up, net, ev)" by (metis prod_cases5)
  have st: "globalConfig s = Some cfg" "w_sent w = None" "req_state r \<noteq> None" using assms(1) by (simp_all add: started_def)
  from serve_answers [OF run st(2)] assms(2)
  have "w_sent w' \<noteq> None \<or> (\<exists>g'. GetGatewayContext r' = Some g' \<and> gc_FinalStatusCode g' = 499)" by simp
  moreover have "req_state r' \<noteq> None" using run st(3)
    by (auto simp: ServeHTTP_def Let_def storeGatewayContext_def split: option.splits prod.splits if_splits)
  moreover have "GatewayProxy penv r w s = (False, r', w', s\<lparr>gs_up := up, gs_net := net, gs_events := gs_events s @ ev\<rparr>)"
    using st run by (simp add: GatewayProxy_def activeAdd_def globalConfig_active Let_def)
  ultimately show ?thesis by (simp add: settled_result_def same_frame_def intact_def registry_ok_def globalConfig_def)
qed

lemma demoState_coherent: "coherent demoEnv gatewayConfig demoState"
  by (simp add: coherent_def globalConfig_def cache_ok_def registry_ok_def demoState_def)

text \<open>What a chat request leaves: one line more in the log, the rest of the frame as before.\<close>

lemma chat_endpoint_settled:
  assumes "coherent env cfg s" "w_sent w = None" "px_GetProvider penv = GetProvider world" "whole_bodies world"
    "buildChatHandler env penv r w s = (panicked, r', w', s')"
  obtains e where "\<not> panicked" "gs_log s' = gs_log s @ [e]" "same_frame env s (s'\<lparr>gs_log := gs_log s\<rparr>)"
    "case w_sent w' of Some (status, _) \<Rightarrow> status \<noteq> 0 \<longrightarrow> ae_status_code e = status | None \<Rightarrow> ae_status_code e = 499"
proof -
  obtain meta w1 s1 where m: "buildRequestMeta env r s = (meta, s1)" "w_sent w1 = w_sent w"
    "\<forall>h. RequestMetaMiddleware env h r w s = returnTo r (h (putRequestMeta r meta) w1 s1)"
    by (rule RequestMeta_calls)
  let ?r = "putRequestMeta r meta" and ?h = "guardedProxy env (GatewayProxy penv)"
  note seed = buildRequestMeta_reseeds [OF m(1)]
  have co: "coherent env cfg s1" by (rule coherent_reseeded [OF assms(1) seed])
  have "started env cfg ?r w1 s1" using co m(2) assms(2) by (intro coherent_started) auto
  moreover have adapters: "\<forall>name. answering (px_GetProvider penv name)" using GetProvider_answering [OF assms(4)] assms(3) by simp
  ultimately have settled: "settled_result env s1 (?h ?r w1 s1)"
    by (intro guardedProxy_settles) (assumption, rule GatewayProxy_settles [OF _ adapters])
  obtain p r2 w2 s2 where h: "?h ?r w1 s1 = (p, r2, w2, s2)" by (metis prod_cases4)
  have g: "globalConfig s1 \<noteq> None" using co by (simp add: coherent_def)
  obtain e s3 where
    line: "AccessLogMiddleware env ?h ?r w1 s1 = (False, r2, w2, s3)" "gs_log s3 = gs_log s1 @ [e]"
      "ae_status_code e = accessStatus w2 (GetGatewayContext r2)" "same_frame env s1 (s3\<lparr>gs_log := gs_log s1\<rparr>)"
    by (rule AccessLog_line [where env = env and h = ?h and r = ?r and w = w1 and s = s1, OF _ g h settled]) simp_all
  have out: "panicked = False" "w' = w2" "s' = s3" using assms(5) line(1) m(3) by (auto simp: buildChatHandler_def chatMiddlewares_eq returnTo_def)
  have log: "gs_log s1 = gs_log s" "same_frame env s s1" using reseeded_keeps [OF seed] untouched_frame by (auto simp: untouched_def)
  have "case w_sent w2 of Some (status, _) \<Rightarrow> status \<noteq> 0 \<longrightarrow> ae_status_code e = status | None \<Rightarrow> ae_status_code e = 499"
    using settled h line(3) by (auto simp: settled_result_def accessStatus_def observedStatus_def split: option.splits)
  with out line log same_frame_trans [OF log(2) line(4)] show thesis by (intro that) auto
qed

section \<open>Properties\<close>

text \<open>C4. Only vetted requests reach the proxy: whatever handler stands behind the chain, the outcome depends on it only at requests
  whose client presented an enabled token of the configuration, whose body was read within four mebibytes and inspected, whose
  model is permitted to the token, and whose candidates are those configured for the model, in some order.\<close>

theorem proxy_sees_vetted_requests:
  assumes "coherent env cfg s" "w_sent w = None"
    "\<forall>r1 w1 s1. w_sent w1 = None \<and> authorised cfg r1 \<and> bodied DefaultMaxRequestBodyBytes r1 \<and> model_permitted env r1 \<and> routed cfg r1 \<longrightarrow>
       h r1 w1 s1 = h' r1 w1 s1"
  shows "chatMiddlewares env h r w s = chatMiddlewares env h' r w s"
proof -
  obtain meta w1 s1 where m: "buildRequestMeta env r s = (meta, s1)" "w_sent w1 = w_sent w"
    "\<forall>h. RequestMetaMiddleware env h r w s = returnTo r (h (putRequestMeta r meta) w1 s1)"
    by (rule RequestMeta_calls)
  let ?r = "putRequestMeta r meta"
  have e: "snd (ensureRequestState ?r) = ?r" by (rule ensureRequestState_id) simp
  have "started env cfg ?r w1 s1"
    using coherent_reseeded [OF assms(1) buildRequestMeta_reseeds [OF m(1)]] m(2) assms(2) by (intro coherent_started) auto
  then have "guardedProxy env h ?r w1 s1 = guardedProxy env h' ?r w1 s1"
    by (rule guardedProxy_vets) (use assms(3) in \<open>auto simp: started_def\<close>)
  then show ?thesis by (simp add: chatMiddlewares_eq m(3) AccessLogMiddleware_def e)
qed

theorem proxy_sees_vetted_requests_witness:
  "chatMiddlewares demoEnv (\<lambda>r w s. (True, r, w, s)) forgedRequest newWriter demoState =
   chatMiddlewares demoEnv (\<lambda>r w s. (GetClientAuthContext r \<noteq> None, r, w, s)) forgedRequest newWriter demoState"
  by (rule proxy_sees_vetted_requests [OF demoState_coherent newWriter_unsent]) (auto simp: authorised_def)



text \<open>The token a client presents.\<close>

definition presentedToken :: "http_request \<Rightarrow> bytes" where
  "presentedToken r = trimSpace (trimPrefix (trimSpace (headerGet (req_Header r) ''Authorization'')) ''Bearer '')"

lemma resolveToken_None:
  assumes "registry_ok env s" "globalConfig s = Some cfg" "resolveToken env raw s = (res, s')"
    "\<forall>item\<in>set (ac_Tokens (cfg_Auth cfg)). ct_Disabled item \<or> trimSpace (ct_Value item) \<noteq> trimSpace raw"
  shows "res = None"
  using resolveToken_Some [OF _ assms(1,2), of raw] assms(3,4) by (cases res) auto

lemma Auth_rejects:
  assumes "registry_ok env s" "globalConfig s = Some cfg" "w_sent w = None"
    "\<forall>item\<in>set (ac_Tokens (cfg_Auth cfg)). ct_Disabled item \<or> trimSpace (ct_Value item) \<noteq> presentedToken r"
  obtains reg message code where "AuthMiddleware env h r w s =
    (False, r, WriteAuthenticationError w 401 message code, s\<lparr>gs_registry := reg\<rparr>)" "same_frame env s (s\<lparr>gs_registry := reg\<rparr>)"
proof -
  obtain res s' where t: "resolveToken env (presentedToken r) s = (res, s')" by fastforce
  have none: "res = None" by (rule resolveToken_None [OF assms(1,2) t]) (use assms(4) in \<open>simp add: presentedToken_def\<close>)
  have s': "s' = s\<lparr>gs_registry := gs_registry s'\<rparr>" using t
    by (auto simp: resolveToken_def ensureTokenRegistry_def Let_def split: option.splits prod.splits)
  have frame: "same_frame env s (s\<lparr>gs_registry := gs_registry s'\<rparr>)" using resolveToken_state(1) [OF t assms(1)] s' by simp
  let ?hd = "trimSpace (headerGet (req_Header r) ''Authorization'')"
  consider "?hd = []" | "?hd \<noteq> []" "\<not> hasPrefix ?hd ''Bearer ''" | "?hd \<noteq> []" "hasPrefix ?hd ''Bearer ''" "presentedToken r = []"
    | "?hd \<noteq> []" "hasPrefix ?hd ''Bearer ''" "presentedToken r \<noteq> []" by blast
  then show thesis
  proof cases
    case 4
    with t none s' show thesis by (intro that [OF _ frame]) (simp add: AuthMiddleware_def Let_def presentedToken_def)
  qed (rule that [of _ _ "gs_registry s"], simp_all add: AuthMiddleware_def Let_def presentedToken_def)+
qed

text \<open>C8. A client without a valid token reaches nothing: unless the presented token is the value of an enabled token of the configuration, the
  answer is 401, breakers, health, limiter and counters stay as they were, no upstream event is recorded, and the one log line says 401.\<close>

theorem unauthorised_request_stopped:
  assumes "coherent env cfg s" "w_sent w = None"
    "\<forall>item\<in>set (ac_Tokens (cfg_Auth cfg)). ct_Disabled item \<or> trimSpace (ct_Value item) \<noteq> presentedToken r"
    "chatMiddlewares env h r w s = (panicked, r', w', s')"
  shows "\<not> panicked \<and> responseStatus w' = 401 \<and> gs_up s' = gs_up s \<and> gs_limiter s' = gs_limiter s \<and> gs_requests s' = gs_requests s \<and>
    gs_events s' = gs_events s \<and> (\<exists>e. gs_log s' = gs_log s @ [e] \<and> ae_status_code e = 401)"
proof -
  obtain meta w1 s1 where m: "buildRequestMeta env r s = (meta, s1)" "w_sent w1 = w_sent w"
    "\<forall>h. RequestMetaMiddleware env h r w s = returnTo r (h (putRequestMeta r meta) w1 s1)"
    by (rule RequestMeta_calls)
  let ?r = "putRequestMeta r meta" and ?h = "guardedProxy env h"
  note seed = reseeded_keeps [OF buildRequestMeta_reseeds [OF m(1)]]
  have co: "registry_ok env s1" "globalConfig s1 = Some cfg" "w_sent w1 = None"
    using coherent_reseeded [OF assms(1) buildRequestMeta_reseeds [OF m(1)]] m(2) assms(2) by (simp_all add: coherent_def)
  have "presentedToken ?r = presentedToken r" by (simp add: presentedToken_def)
  with assms(3) obtain reg message code where
    a: "?h ?r w1 s1 = (False, ?r, WriteAuthenticationError w1 401 message code, s1\<lparr>gs_registry := reg\<rparr>)"
      and f: "same_frame env s1 (s1\<lparr>gs_registry := reg\<rparr>)"
    unfolding guardedProxy_def by (metis Auth_rejects [OF co])
  have settled: "settled_result env s1 (?h ?r w1 s1)"
    unfolding a error_writers by (rule same_frame_settled [OF f], rule error_settles) simp
  have g: "globalConfig s1 \<noteq> None" using co by simp
  obtain e s3 where
    line: "AccessLogMiddleware env ?h ?r w1 s1 = (False, ?r, WriteAuthenticationError w1 401 message code, s3)" "gs_log s3 = gs_log s1 @ [e]"
      "ae_status_code e = accessStatus (WriteAuthenticationError w1 401 message code) (GetGatewayContext ?r)"
      "gs_up s3 = gs_up s1" "gs_limiter s3 = gs_limiter s1" "gs_requests s3 = gs_requests s1" "gs_events s3 = gs_events s1"
    by (rule AccessLog_line [where env = env and h = ?h and r = ?r and w = w1 and s = s1, OF _ g a settled]) simp_all
  have st: "responseStatus (WriteAuthenticationError w1 401 message code) = 401"
    using co(3) by (simp add: error_writers WriteOpenAIError_status)
  then have "accessStatus (WriteAuthenticationError w1 401 message code) x = 401" for x
    using WriteOpenAIError_sent [of w1] by (auto simp: accessStatus_def observedStatus_def responseStatus_def error_writers split: option.splits)
  moreover have "panicked = False" "w' = WriteAuthenticationError w1 401 message code" "s' = s3"
    using assms(4) line(1) m(3) by (auto simp: chatMiddlewares_eq returnTo_def)
  ultimately show ?thesis using line seed st by (auto simp: untouched_def same_frame_def)
qed

theorem unauthorised_request_stopped_witness:
  "\<exists>panicked r' w' s'. chatMiddlewares demoEnv (\<lambda>r w s. (True, r, w, s)) forgedRequest newWriter demoState = (panicked, r', w', s') \<and>
     responseStatus w' = 401 \<and> gs_limiter s' = newKeyedLocalLimiter"
proof -
  obtain panicked r' w' s' where run: "chatMiddlewares demoEnv (\<lambda>r w s. (True, r, w, s)) forgedRequest newWriter demoState = (panicked, r', w', s')"
    by (metis prod_cases4)
  have "list_all (\<lambda>item. ct_Disabled item \<or> trimSpace (ct_Value item) \<noteq> presentedToken forgedRequest) (ac_Tokens (cfg_Auth gatewayConfig))"
    by code_simp
  then have "\<forall>item\<in>set (ac_Tokens (cfg_Auth gatewayConfig)). ct_Disabled item \<or> trimSpace (ct_Value item) \<noteq> presentedToken forgedRequest"
    by (simp add: list_all_iff)
  from unauthorised_request_stopped [OF demoState_coherent newWriter_unsent this run] run show ?thesis by (auto simp: demoState_def)
qed

end
