(* ===== verification/Server_Mux.thy ===== *)
theory Server_Mux
  imports Client_Address Go_Quote
begin

text \<open>
  How \<open>internal/router/router.go\<close> assigns requests to its handlers: the patterns it registers, and the part of \<open>http.ServeMux\<close> and
  \<open>net/url\<close> that decides which one a request matches. The patterns have literal segments only, no host and no
  trailing slash, so that the routing tree is a list of patterns here.
\<close>

section \<open>Escaped paths\<close>

text \<open>\<open>URL.EscapedPath\<close>: the raw path if it is a valid spelling of the path, otherwise the default spelling.\<close>

definition shouldEscape :: "char \<Rightarrow> bool" where
  "shouldEscape c \<longleftrightarrow> \<not> (inRange 97 122 c \<or> inRange 65 90 c \<or> inRange 48 57 c \<or> c \<in> set ''-_.~$&+,/:;=@'')"

definition upperHex :: "nat \<Rightarrow> char" where
  "upperHex n = (if n < 10 then char_of (48 + n) else char_of (55 + n))"

definition escapeByte :: "char \<Rightarrow> bytes" where
  "escapeByte c = (if shouldEscape c then [CHR ''%'', upperHex (byte c div 16), upperHex (byte c mod 16)] else [c])"

definition escapePath :: "bytes \<Rightarrow> bytes" where
  "escapePath s = concat (map escapeByte s)"

fun unescapePath :: "bytes \<Rightarrow> bytes option" where
  "unescapePath [] = Some []"
| "unescapePath (c # s) =
     (if c = CHR ''%'' then
        (case s of
           a # b # t \<Rightarrow>
             (case (unhex a, unhex b) of
                (Some x, Some y) \<Rightarrow> map_option (\<lambda>u. char_of (16 * x + y) # u) (unescapePath t)
              | _ \<Rightarrow> None)
         | _ \<Rightarrow> None)
      else map_option (\<lambda>u. c # u) (unescapePath s))"

definition validEncoded :: "bytes \<Rightarrow> bool" where
  "validEncoded s \<longleftrightarrow> list_all (\<lambda>c. c \<in> set ''!$&()*+,;=:@[]%'' \<or> c = CHR 0x27 \<or> \<not> shouldEscape c) s"

definition EscapedPath :: "url \<Rightarrow> bytes" where
  "EscapedPath u =
     (if url_RawPath u \<noteq> [] \<and> validEncoded (url_RawPath u) \<and> unescapePath (url_RawPath u) = Some (url_Path u) then url_RawPath u
      else if url_Path u = ''*'' then ''*''
      else escapePath (url_Path u))"

section \<open>Clean paths\<close>

text \<open>\<open>path.Clean\<close> of a rooted path, then the trailing slash again, as \<open>cleanPath\<close> of \<open>net/http\<close> does.\<close>

definition cleanSegment :: "bytes \<Rightarrow> bytes list \<Rightarrow> bytes list" where
  "cleanSegment seg out =
     (if seg = [] \<or> seg = ''.'' then out
      else if seg = ''..'' then (if out = [] then [] else butlast out)
      else out @ [seg])"

definition cleanRooted :: "bytes \<Rightarrow> bytes" where
  "cleanRooted p = CHR ''/'' # join_with (CHR ''/'') (fold cleanSegment (split_on (CHR ''/'') p) [])"

definition cleanPath :: "bytes \<Rightarrow> bytes" where
  "cleanPath p =
     (if p = [] then ''/''
      else (let p = (if hd p \<noteq> CHR ''/'' then CHR ''/'' # p else p); np = cleanRooted p
            in if last p = CHR ''/'' \<and> np \<noteq> ''/'' then np @ ''/'' else np))"

section \<open>Matching\<close>

definition pathUnescape :: "bytes \<Rightarrow> bytes" where
  "pathUnescape s = (case unescapePath s of Some u \<Rightarrow> u | None \<Rightarrow> s)"

text \<open>The segments that \<open>matchPath\<close> takes from a path one after the other (\<open>firstSegment\<close>).\<close>

function segments :: "bytes \<Rightarrow> bytes list" where
  "segments [] = []"
| "segments (c # p) =
     (if c = CHR ''/'' \<and> p = [] then [''/'']
      else pathUnescape (takeWhile (\<lambda>d. d \<noteq> CHR ''/'') p) # segments (dropWhile (\<lambda>d. d \<noteq> CHR ''/'') p))"
  by pat_completeness auto
termination by (relation "measure length") (auto simp: length_dropWhile_le le_imp_less_Suc)

datatype endpoint =
    ChatCompletions
  | MetricsEndpoint
  | HealthLive
  | HealthReady
  | BadRequest
  | MovedPermanently bytes
  | MethodNotAllowed "bytes list"
  | NotFound

text \<open>The patterns: an optional method, the segments of the path, the handler.\<close>

definition muxPatterns :: "(bytes option \<times> bytes list \<times> endpoint) list" where
  "muxPatterns =
     [(Some ''POST'', [''v1'', ''chat'', ''completions''], ChatCompletions),
      (None, [''metrics''], MetricsEndpoint),
      (Some ''GET'', [''health'', ''live''], HealthLive),
      (Some ''GET'', [''health'', ''ready''], HealthReady),
      (Some ''GET'', [''health''], HealthReady)]"

definition findPattern :: "bytes option \<Rightarrow> bytes list \<Rightarrow> endpoint option" where
  "findPattern method segs = map_option (\<lambda>(_, _, e). e) (find (\<lambda>(m, ss, _). m = method \<and> ss = segs) muxPatterns)"

text \<open>The method of the request, then \<open>GET\<close> for a \<open>HEAD\<close> request, then the patterns without method.\<close>

definition matchMethodAndPath :: "bytes \<Rightarrow> bytes list \<Rightarrow> endpoint option" where
  "matchMethodAndPath method segs =
     (case findPattern (Some method) segs of
        Some e \<Rightarrow> Some e
      | None \<Rightarrow>
          (case (if method = ''HEAD'' then findPattern (Some ''GET'') segs else None) of
             Some e \<Rightarrow> Some e
           | None \<Rightarrow> findPattern None segs))"

text \<open>The methods for the \<open>Allow\<close> field, in alphabetical order; no two patterns differ in the method only.\<close>

definition matchingMethods :: "bytes list \<Rightarrow> bytes list" where
  "matchingMethods segs =
     (let ms = concat (map (\<lambda>(m, ss, _). case m of Some method \<Rightarrow> if ss = segs then [method] else [] | None \<Rightarrow> []) muxPatterns)
      in if ms = [''GET''] then [''GET'', ''HEAD''] else ms)"

definition resolvePath :: "bytes \<Rightarrow> bytes \<Rightarrow> endpoint" where
  "resolvePath method path =
     (case matchMethodAndPath method (segments path) of
        Some e \<Rightarrow> e
      | None \<Rightarrow> (case matchingMethods (segments path) of [] \<Rightarrow> NotFound | methods \<Rightarrow> MethodNotAllowed methods))"

text \<open>The decision. A path \<open>*\<close> stands for the request target \<open>*\<close>; a \<open>CONNECT\<close> request is matched as it is, any other path is cleaned
  first, and a path that is not clean is answered with a redirection.\<close>

definition muxEndpoint :: "http_request \<Rightarrow> endpoint" where
  "muxEndpoint r =
     (let escapedPath = EscapedPath (req_URL r) in
      if url_Path (req_URL r) = ''*'' then BadRequest
      else if req_Method r = ''CONNECT'' then resolvePath (req_Method r) escapedPath
      else (let path = cleanPath escapedPath in
            if path \<noteq> escapedPath then MovedPermanently path else resolvePath (req_Method r) path))"

section \<open>Escaping\<close>

lemma unhex_slash [simp]: "unhex (CHR ''/'') = None"
  by code_simp

lemma unescape_slash:
  "unescapePath (a @ CHR ''/'' # b) =
     (case unescapePath a of None \<Rightarrow> None | Some x \<Rightarrow> map_option (\<lambda>y. x @ CHR ''/'' # y) (unescapePath b))"
proof (induction a rule: unescapePath.induct)
  case 1
  then show ?case by simp
next
  case (2 c s)
  show ?case
  proof (cases "c = CHR ''%''")
    case False
    with 2(2) show ?thesis by (cases "unescapePath s") (simp_all add: option.map_comp comp_def)
  next
    case True
    consider "s = []" | x where "s = [x]" | x y t where "s = x # y # t" by (metis list.exhaust)
    then show ?thesis
    proof cases
      case 1
      with True show ?thesis by (cases b) simp_all
    next
      case (2 x)
      with True show ?thesis by (simp split: option.split)
    next
      case (3 x y t)
      show ?thesis
      proof (cases "unhex x \<noteq> None \<and> unhex y \<noteq> None")
        case False
        with True 3 show ?thesis by (auto split: option.splits)
      next
        case both: True
        then obtain h l where hl: "unhex x = Some h" "unhex y = Some l" by auto
        from 2(1) [OF True 3 refl refl hl] True 3 hl show ?thesis
          by (cases "unescapePath t") (simp_all add: option.map_comp comp_def)
      qed
    qed
  qed
qed

lemma unhex_upperHex: "n < 16 \<Longrightarrow> unhex (upperHex n) = Some n"
proof -
  have "list_all (\<lambda>n. unhex (upperHex n) = Some n) [0..<16]" by code_simp
  then show "n < 16 \<Longrightarrow> unhex (upperHex n) = Some n" by (simp add: list_all_iff)
qed

lemma unescape_escape: "unescapePath (escapePath s) = Some s"
proof (induction s)
  case (Cons c s)
  have "shouldEscape (CHR ''%'')" by code_simp
  moreover have "byte c div 16 < (16 :: nat)" "char_of (16 * (byte c div 16) + byte c mod 16) = c"
    using byte_lt [of c] by (simp_all add: less_mult_imp_div_less)
  ultimately show ?case
    using Cons by (auto simp: escapePath_def escapeByte_def unhex_upperHex)
qed (simp add: escapePath_def)

lemma EscapedPath_decodes: "unescapePath (EscapedPath u) = Some (url_Path u)"
  by (auto simp: EscapedPath_def unescape_escape)

text \<open>The segments of a path determine what it decodes to.\<close>

lemma segments_decode:
  "p \<noteq> [] \<Longrightarrow> hd p = CHR ''/'' \<Longrightarrow> unescapePath p = Some u \<Longrightarrow> \<forall>s\<in>set (segments p). CHR ''/'' \<notin> set s \<Longrightarrow>
     u = concat (map ((#) (CHR ''/'')) (segments p))"
proof (induction p arbitrary: u rule: segments.induct)
  case (2 c q)
  let ?a = "takeWhile (\<lambda>d. d \<noteq> CHR ''/'') q" and ?b = "dropWhile (\<lambda>d. d \<noteq> CHR ''/'') q"
  have c: "c = CHR ''/''" and q: "q \<noteq> []" using 2(3,5) by (auto split: if_splits)
  have ab: "q = ?a @ ?b" by simp
  from 2(4) c obtain v where v: "unescapePath q = Some v" "u = CHR ''/'' # v" by auto
  show ?case
  proof (cases ?b)
    case Nil
    with ab have "?a = q" by simp
    then have "segments (c # q) = [v]" using Nil v(1) q by (simp only: segments.simps pathUnescape_def) simp
    with v(2) show ?thesis by simp
  next
    case (Cons d b)
    then have d: "d = CHR ''/''" by (metis (full_types) hd_dropWhile list.distinct(1) list.sel(1))
    have "unescapePath (?a @ CHR ''/'' # b) = Some v" using v(1) Cons d ab by metis
    then obtain x y where xy: "unescapePath ?a = Some x" "unescapePath b = Some y" "v = x @ CHR ''/'' # y"
      unfolding unescape_slash by (auto split: option.splits)
    from 2(1) [of "CHR ''/'' # y"] Cons d xy(2) 2(5) c q have "CHR ''/'' # y = concat (map ((#) (CHR ''/'')) (segments ?b))" by auto
    with xy v c q show ?thesis by (simp add: pathUnescape_def)
  qed
qed simp

section \<open>The table\<close>

text \<open>What the router means to serve, by method and path.\<close>

definition route_of :: "bytes \<Rightarrow> bytes \<Rightarrow> endpoint" where
  "route_of method path =
     (let get = (\<lambda>e. if method = ''GET'' \<or> method = ''HEAD'' then e else MethodNotAllowed [''GET'', ''HEAD'']) in
      if path = ''/v1/chat/completions'' then (if method = ''POST'' then ChatCompletions else MethodNotAllowed [''POST''])
      else if path = ''/metrics'' then MetricsEndpoint
      else if path = ''/health/live'' then get HealthLive
      else if path = ''/health/ready'' \<or> path = ''/health'' then get HealthReady
      else NotFound)"

lemma resolvePath_eq:
  "resolvePath method p =
     (let segs = segments p in
      if segs \<in> {[''v1'', ''chat'', ''completions''], [''metrics''], [''health'', ''live''], [''health'', ''ready''], [''health'']}
      then route_of method (concat (map ((#) (CHR ''/'')) segs)) else NotFound)"
proof -
  define ss where "ss = segments p"
  note defs = resolvePath_def matchMethodAndPath_def findPattern_def matchingMethods_def muxPatterns_def route_of_def Let_def ss_def [symmetric]
  consider (chat) "ss = [''v1'', ''chat'', ''completions'']" | (metrics) "ss = [''metrics'']" | (live) "ss = [''health'', ''live'']"
    | (ready) "ss = [''health'', ''ready'']" | (health) "ss = [''health'']"
    | (other) "ss \<notin> {[''v1'', ''chat'', ''completions''], [''metrics''], [''health'', ''live''], [''health'', ''ready''], [''health'']}"
    by blast
  then show ?thesis
  proof cases
    case other
    then have "[''v1'', ''chat'', ''completions''] \<noteq> ss" "[''metrics''] \<noteq> ss" "[''health'', ''live''] \<noteq> ss" "[''health'', ''ready''] \<noteq> ss" "[''health''] \<noteq> ss"
      by blast+
    with other show ?thesis by (simp add: defs)
  qed (simp_all add: defs)
qed

lemma cleanPath_rooted: "cleanPath p \<noteq> [] \<and> hd (cleanPath p) = CHR ''/''"
  by (simp add: cleanPath_def cleanRooted_def Let_def)

text \<open>A clean path is served according to the path it stands for, or not found.\<close>

lemma resolvePath_route:
  assumes "p \<noteq> []" "hd p = CHR ''/''" "unescapePath p = Some u"
  shows "resolvePath method p = route_of method u \<or> resolvePath method p = NotFound"
proof (cases "segments p \<in> {[''v1'', ''chat'', ''completions''], [''metrics''], [''health'', ''live''], [''health'', ''ready''], [''health'']}")
  case True
  then have "\<forall>s\<in>set (segments p). CHR ''/'' \<notin> set s" by auto
  from segments_decode [OF assms this] True show ?thesis by (simp add: resolvePath_eq Let_def)
qed (simp add: resolvePath_eq Let_def)

lemma segments_default:
  "segments (escapePath ''/v1/chat/completions'') = [''v1'', ''chat'', ''completions'']" "segments (escapePath ''/metrics'') = [''metrics'']"
  "segments (escapePath ''/health/live'') = [''health'', ''live'']" "segments (escapePath ''/health/ready'') = [''health'', ''ready'']"
  "segments (escapePath ''/health'') = [''health'']"
  by code_simp+

text \<open>In the default spelling nothing that the table serves is missed.\<close>

lemma resolvePath_default:
  assumes "escapePath u \<noteq> []" "hd (escapePath u) = CHR ''/''"
  shows "resolvePath m (escapePath u) = route_of m u"
proof (cases "u \<in> {''/v1/chat/completions'', ''/metrics'', ''/health/live'', ''/health/ready'', ''/health''}")
  case True
  then show ?thesis by (auto simp: resolvePath_eq Let_def segments_default)
next
  case False
  then have "route_of m u = NotFound" by (simp add: route_of_def)
  with resolvePath_route [OF assms unescape_escape, of m] show ?thesis by simp
qed

lemma connect_elsewhere: "resolvePath ''CONNECT'' p \<in> {MetricsEndpoint, NotFound, MethodNotAllowed [''POST''], MethodNotAllowed [''GET'', ''HEAD'']}"
  by (simp add: resolvePath_eq route_of_def Let_def)

section \<open>Properties\<close>

text \<open>C37. Dispatch: whatever spelling of the URL a client chooses, a handler of the gateway serves only the method and the decoded path it
  is registered for; a \<open>CONNECT\<close> request can reach the metrics endpoint at most. In the default spelling the table is served
  exactly: every registered path, 405 with the allowed methods for another method, 404 for other clean paths, and a
  redirection to the clean path otherwise.\<close>

theorem mux_dispatch:
  assumes "url_Path (req_URL r) \<noteq> ''*''"
  shows "(muxEndpoint r \<in> {ChatCompletions, HealthLive, HealthReady} \<or> muxEndpoint r = MetricsEndpoint \<and> req_Method r \<noteq> ''CONNECT'' \<longrightarrow>
       muxEndpoint r = route_of (req_Method r) (url_Path (req_URL r))) \<and>
    (req_Method r = ''CONNECT'' \<longrightarrow> muxEndpoint r \<in> {MetricsEndpoint, NotFound, MethodNotAllowed [''POST''], MethodNotAllowed [''GET'', ''HEAD'']}) \<and>
    (url_RawPath (req_URL r) = [] \<and> req_Method r \<noteq> ''CONNECT'' \<longrightarrow>
       (let p = escapePath (url_Path (req_URL r)) in
        muxEndpoint r = (if cleanPath p = p then route_of (req_Method r) (url_Path (req_URL r)) else MovedPermanently (cleanPath p))))"
proof (cases "req_Method r = ''CONNECT''")
  case True
  then have "muxEndpoint r = resolvePath ''CONNECT'' (EscapedPath (req_URL r))" using assms by (simp add: muxEndpoint_def)
  with connect_elsewhere [of "EscapedPath (req_URL r)"] True show ?thesis by auto
next
  case False
  let ?e = "EscapedPath (req_URL r)"
  have m: "muxEndpoint r = (if cleanPath ?e = ?e then resolvePath (req_Method r) ?e else MovedPermanently (cleanPath ?e))"
    using assms False by (simp add: muxEndpoint_def Let_def)
  have "resolvePath (req_Method r) ?e = route_of (req_Method r) (url_Path (req_URL r)) \<or> resolvePath (req_Method r) ?e = NotFound"
    if "cleanPath ?e = ?e"
    using resolvePath_route [OF _ _ EscapedPath_decodes] cleanPath_rooted [of ?e] that by metis
  moreover have "?e = escapePath (url_Path (req_URL r))" if "url_RawPath (req_URL r) = []" using assms that by (simp add: EscapedPath_def)
  moreover have "resolvePath (req_Method r) (escapePath u) = route_of (req_Method r) u" if "cleanPath (escapePath u) = escapePath u" for u
    using resolvePath_default cleanPath_rooted [of "escapePath u"] that by metis
  ultimately show ?thesis using m False by (auto simp: Let_def)
qed

theorem mux_dispatch_witness:
  "muxEndpoint forgedRequest = MetricsEndpoint \<and>
   muxEndpoint (forgedRequest\<lparr>req_URL := (req_URL forgedRequest)\<lparr>url_Path := ''/health/../v1''\<rparr>\<rparr>) = MovedPermanently ''/v1''"
proof -
  let ?r = "forgedRequest\<lparr>req_URL := (req_URL forgedRequest)\<lparr>url_Path := ''/health/../v1''\<rparr>\<rparr>"
  have c: "cleanPath (escapePath ''/metrics'') = escapePath ''/metrics''" "cleanPath (escapePath ''/health/../v1'') = ''/v1''"
    "escapePath ''/health/../v1'' \<noteq> ''/v1''" by code_simp+
  have "url_Path (req_URL forgedRequest) \<noteq> ''*''" "url_Path (req_URL ?r) \<noteq> ''*''" by (simp_all add: forgedRequest_def)
  from mux_dispatch [OF this(1)] mux_dispatch [OF this(2)] c show ?thesis
    by (simp add: forgedRequest_def route_of_def Let_def)
qed

end
