(* ===== verification/Router.thy ===== *)
theory Router
  imports Gateway Server_Mux
begin

text \<open>
  The router of the gateway: \<open>internal/router/router.go\<close> and \<open>draining.go\<close>. The readiness and liveness answers, the guarded metrics
  endpoint, draining, recovery, and the server as it works through a sequence of requests.
\<close>

section \<open>Readiness\<close>

record healthResponse =
  hr_Status :: bytes
  hr_DegradedFeatures :: "bytes list"

text \<open>The loops range over a map, in any order: the statuses are a list of its values in the order of the iteration.\<close>

fun verificationLoop :: "ProviderDependencyStatus list \<Rightarrow> bool \<Rightarrow> bool" where
  "verificationLoop [] hasUnverifiedProvider = hasUnverifiedProvider"
| "verificationLoop (status # statuses) hasUnverifiedProvider =
     (if ds_Source status \<noteq> ''bootstrap'' \<and> ds_Healthy status then False
      else verificationLoop statuses
             (if ds_Source status = ''bootstrap'' \<and> ds_BreakerState status = [] then True else hasUnverifiedProvider))"

definition providersNeedHealthVerification :: "ProviderDependencyStatus list \<Rightarrow> bool" where
  "providersNeedHealthVerification upstreamStatuses =
     (if length upstreamStatuses = 0 then False else verificationLoop upstreamStatuses False)"

definition buildReadyHealthResponse :: "ProviderDependencyStatus list \<Rightarrow> healthResponse \<times> int" where
  "buildReadyHealthResponse upstreamStatuses =
     (let degraded = (if providersNeedHealthVerification upstreamStatuses then [''provider_health_unverified''] else []);
          resp = (if length degraded > 0 then \<lparr>hr_Status = ''degraded'', hr_DegradedFeatures = degraded\<rparr>
                  else \<lparr>hr_Status = ''ok'', hr_DegradedFeatures = []\<rparr>)
      in if length upstreamStatuses > 0 \<and> \<not> list_ex ds_Healthy upstreamStatuses
         then (resp\<lparr>hr_Status := ''unhealthy'', hr_DegradedFeatures := hr_DegradedFeatures resp @ [''all_providers_down'']\<rparr>, 503)
         else (resp, 200))"

text \<open>The JSON text of a response whose strings need no escapes; an empty feature list is left out.\<close>

definition jsonString :: "bytes \<Rightarrow> bytes" where
  "jsonString s = CHR 0x22 # s @ [CHR 0x22]"

fun commaSeparated :: "bytes list \<Rightarrow> bytes" where
  "commaSeparated [] = []"
| "commaSeparated [x] = x"
| "commaSeparated (x # y # xs) = x @ '','' @ commaSeparated (y # xs)"

definition encodeHealth :: "healthResponse \<Rightarrow> bytes" where
  "encodeHealth v =
     ''{'' @ jsonString ''status'' @ '':'' @ jsonString (hr_Status v) @
     (if hr_DegradedFeatures v = [] then []
      else '','' @ jsonString ''degraded_features'' @ '':['' @ commaSeparated (map jsonString (hr_DegradedFeatures v)) @ '']'') @ ''}'' @ [CHR 0x0A]"

definition writeJSON :: "ResponseWriter \<Rightarrow> int \<Rightarrow> healthResponse \<Rightarrow> ResponseWriter" where
  "writeJSON w status v =
     (let w = setHeader w ''Content-Type'' ''application/json; charset=utf-8'';
          w = setHeader w ''Cache-Control'' ''no-store'';
          w = writeHeader w status
      in writeChunk w (Raw (encodeHealth v)))"

text \<open>The handler of \<open>/health/ready\<close> and \<open>/health\<close>; \<open>order\<close> lists the entries of a map in the order of an iteration.\<close>

definition readyHandler ::
  "'cb gobreaker \<Rightarrow> runtime \<Rightarrow> 'net middleware_env \<Rightarrow> ((bytes \<Rightarrow> ProviderDependencyStatus option) \<Rightarrow> ProviderDependencyStatus list) \<Rightarrow> ('net, 'cb) handler" where
  "readyHandler gb rt env order r w s =
     (let (upstreamStatuses, up) = GetEffectiveUpstreamStatuses gb rt (t_wall (mw_Now env (gs_net s))) (globalConfig s) (gs_up s);
          (resp, httpStatus) = buildReadyHealthResponse (order upstreamStatuses)
      in (False, r, writeJSON w httpStatus resp, s\<lparr>gs_up := up\<rparr>))"

definition liveHandler :: "('net, 'cb) handler" where
  "liveHandler r w s = (False, r, writeJSON w 200 \<lparr>hr_Status = ''alive'', hr_DegradedFeatures = []\<rparr>, s)"

section \<open>Draining and the router\<close>

definition SetDraining :: "bool \<Rightarrow> ('net, 'cb) gateway_state \<Rightarrow> ('net, 'cb) gateway_state" where
  "SetDraining v s = s\<lparr>gs_draining := v\<rparr>"

definition IsDraining :: "('net, 'cb) gateway_state \<Rightarrow> bool" where
  "IsDraining s = gs_draining s"

definition drainingMiddleware :: "('net, 'cb) handler \<Rightarrow> ('net, 'cb) handler" where
  "drainingMiddleware next' r w s =
     (if IsDraining s then
        (False, r, WriteServiceUnavailable (setHeader w ''Connection'' ''close'') ''Server is shutting down.'' ''server_shutting_down'', s)
      else next' r w s)"

text \<open>What the router is built from. The Prometheus handler and the answer of \<open>http.RedirectHandler\<close> (to the given path) only write to the
  response.\<close>

record ('net, 'cb) router_env =
  rv_env :: "'net middleware_env"
  rv_proxy :: "'net proxy_env"
  rv_gobreaker :: "'cb gobreaker"
  rv_runtime :: runtime
  rv_order :: "(bytes \<Rightarrow> ProviderDependencyStatus option) \<Rightarrow> ProviderDependencyStatus list"
  rv_promhttp :: "http_request \<Rightarrow> ResponseWriter \<Rightarrow> ResponseWriter"
  rv_redirect :: "bytes \<Rightarrow> http_request \<Rightarrow> ResponseWriter \<Rightarrow> ResponseWriter"

text \<open>The metrics handler behind its guard; without a configuration the guard panics.\<close>

definition protectedMetricsHandler :: "('net, 'cb) router_env \<Rightarrow> ('net, 'cb) handler" where
  "protectedMetricsHandler rv r w s =
     (case globalConfig s of
        None \<Rightarrow> (True, r, w, s)
      | Some cfg \<Rightarrow>
          (case MetricsEndpointMiddleware (mw_net (rv_env rv)) (mw_rnd (rv_env rv)) (mw_Now (rv_env rv) (gs_net s)) cfg r w (gs_metricsEndpoint s) of
             (passed, w, ms) \<Rightarrow> (False, r, if passed then rv_promhttp rv r w else w, s\<lparr>gs_metricsEndpoint := ms\<rparr>)))"

fun join_comma :: "bytes list \<Rightarrow> bytes" where
  "join_comma [] = []"
| "join_comma [m] = m"
| "join_comma (m # m' # ms) = m @ '', '' @ join_comma (m' # ms)"

text \<open>The handler of an endpoint; the last four are answers of the mux itself.\<close>

fun serveEndpoint :: "('net, 'cb) router_env \<Rightarrow> ('net, 'cb) handler \<Rightarrow> endpoint \<Rightarrow> ('net, 'cb) handler" where
  "serveEndpoint rv chat ChatCompletions r w s = chat r w s"
| "serveEndpoint rv chat MetricsEndpoint r w s = protectedMetricsHandler rv r w s"
| "serveEndpoint rv chat HealthLive r w s = liveHandler r w s"
| "serveEndpoint rv chat HealthReady r w s = readyHandler (rv_gobreaker rv) (rv_runtime rv) (rv_env rv) (rv_order rv) r w s"
| "serveEndpoint rv chat BadRequest r w s = (False, r, writeHeader (setHeader w ''Connection'' ''close'') 400, s)"
| "serveEndpoint rv chat (MovedPermanently path) r w s = (False, r, rv_redirect rv path r w, s)"
| "serveEndpoint rv chat (MethodNotAllowed methods) r w s =
     (False, r, httpError (setHeader w ''Allow'' (join_comma methods)) ''Method Not Allowed'' 405, s)"
| "serveEndpoint rv chat NotFound r w s = (False, r, httpError w ''404 page not found'' 404, s)"

text \<open>The router around a handler for the chat endpoint, and with the handler of the gateway.\<close>

definition routerWith :: "('net, 'cb) router_env \<Rightarrow> ('net, 'cb) handler \<Rightarrow> ('net, 'cb) handler" where
  "routerWith rv chat = RecoveryMiddleware (drainingMiddleware (\<lambda>r w s. serveEndpoint rv chat (muxEndpoint r) r w s))"

definition NewRouter :: "('net, 'cb) router_env \<Rightarrow> ('net, 'cb) handler" where
  "NewRouter rv = routerWith rv (buildChatHandler (rv_env rv) (rv_proxy rv))"

section \<open>The server\<close>

datatype server_event = Serve http_request | Drain bool

fun serverRun :: "('net, 'cb) router_env \<Rightarrow> server_event list \<Rightarrow> ('net, 'cb) gateway_state \<Rightarrow> ResponseWriter list \<times> ('net, 'cb) gateway_state" where
  "serverRun rv [] s = ([], s)"
| "serverRun rv (Drain v # events) s = serverRun rv events (SetDraining v s)"
| "serverRun rv (Serve r # events) s =
     (case NewRouter rv r newWriter s of
        (_, _, w, s') \<Rightarrow> (case serverRun rv events s' of (ws, s'') \<Rightarrow> (w # ws, s'')))"

text \<open>The requests of a run, each with whether the server was draining when it came, and whether it drains in the end.\<close>

fun arrivals :: "bool \<Rightarrow> server_event list \<Rightarrow> (bool \<times> http_request) list" where
  "arrivals d [] = []"
| "arrivals d (Drain v # events) = arrivals v events"
| "arrivals d (Serve r # events) = (d, r) # arrivals d events"

fun drainsAfter :: "bool \<Rightarrow> server_event list \<Rightarrow> bool" where
  "drainsAfter d [] = d"
| "drainsAfter d (Drain v # events) = drainsAfter v events"
| "drainsAfter d (Serve r # events) = drainsAfter d events"

text \<open>The statuses that are fixed by the request alone.\<close>

definition answer_fits :: "bool \<times> http_request \<Rightarrow> ResponseWriter \<Rightarrow> bool" where
  "answer_fits arrival w = (case arrival of (draining, r) \<Rightarrow>
     if draining then responseStatus w = 503
     else (case muxEndpoint r of
             HealthLive \<Rightarrow> responseStatus w = 200
           | HealthReady \<Rightarrow> responseStatus w \<in> {200, 503}
           | BadRequest \<Rightarrow> responseStatus w = 400
           | MethodNotAllowed _ \<Rightarrow> responseStatus w = 405
           | NotFound \<Rightarrow> responseStatus w = 404
           | _ \<Rightarrow> True))"

section \<open>Lemmas\<close>

lemma Recovery_total: "\<not> fst (RecoveryMiddleware h r w s)"
  by (simp add: RecoveryMiddleware_def Let_def split: prod.split bool.split)

lemma Recovery_panic:
  assumes "h r w s = (True, r', w', s')" "w_sent w' = None"
  shows "\<exists>w''. RecoveryMiddleware h r w s = (False, r', w'', s') \<and> responseStatus w'' = 500"
  using assms by (auto simp: RecoveryMiddleware_def Let_def error_writers WriteOpenAIError_status split: option.split)

lemma drained:
  assumes "w_sent w = None" "IsDraining s"
  shows "\<exists>w'. drainingMiddleware h r w s = (False, r, w', s) \<and> responseStatus w' = 503 \<and> headerGet (w_header w') ''Connection'' = ''close''"
proof -
  have "canonicalHeaderKey ''Connection'' = ''Connection''" by code_simp
  then have "headerGet (w_header (WriteOpenAIError (setHeader w ''Connection'' ''close'') status m t p c)) ''Connection'' = ''close''" for status m t p c
    by (simp add: WriteOpenAIError_def Let_def headerGet_def headerSet_def)
  with assms show ?thesis by (simp add: drainingMiddleware_def error_writers WriteOpenAIError_status)
qed

definition unverified :: "ProviderDependencyStatus list \<Rightarrow> bool" where
  "unverified sts \<longleftrightarrow> (\<exists>st\<in>set sts. ds_Source st = ''bootstrap'' \<and> ds_BreakerState st = []) \<and>
     (\<forall>st\<in>set sts. ds_Healthy st \<longrightarrow> ds_Source st = ''bootstrap'')"

definition all_down :: "ProviderDependencyStatus list \<Rightarrow> bool" where
  "all_down sts \<longleftrightarrow> sts \<noteq> [] \<and> (\<forall>st\<in>set sts. \<not> ds_Healthy st)"

lemma verificationLoop_eq:
  "verificationLoop sts u \<longleftrightarrow> (u \<or> (\<exists>st\<in>set sts. ds_Source st = ''bootstrap'' \<and> ds_BreakerState st = [])) \<and>
     (\<forall>st\<in>set sts. ds_Healthy st \<longrightarrow> ds_Source st = ''bootstrap'')"
  by (induction sts arbitrary: u) auto

lemma providersNeedHealthVerification_eq: "providersNeedHealthVerification sts \<longleftrightarrow> unverified sts"
  by (auto simp: providersNeedHealthVerification_def verificationLoop_eq unverified_def)

lemma all_down_eq: "length sts > 0 \<and> \<not> list_ex ds_Healthy sts \<longleftrightarrow> all_down sts"
  by (auto simp: all_down_def list_ex_iff)

lemma buildReadyHealthResponse_eq:
  "buildReadyHealthResponse sts =
     (\<lparr>hr_Status = if all_down sts then ''unhealthy'' else if unverified sts then ''degraded'' else ''ok'',
       hr_DegradedFeatures = (if unverified sts then [''provider_health_unverified''] else []) @ (if all_down sts then [''all_providers_down''] else [])\<rparr>,
      if all_down sts then 503 else 200)"
  unfolding buildReadyHealthResponse_def providersNeedHealthVerification_eq all_down_eq
  by (cases "unverified sts"; cases "all_down sts") simp_all

lemma ready_order:
  assumes "mset sts = mset sts'"
  shows "unverified sts = unverified sts'" "all_down sts = all_down sts'"
  using mset_eq_setD [OF assms] assms by (auto simp: unverified_def all_down_def)

lemma responseStatus_writers:
  "w_sent w = None \<Longrightarrow> responseStatus (httpError w m status) = status"
  "w_sent w = None \<Longrightarrow> responseStatus (writeJSON w status v) = status"
  "w_sent w = None \<Longrightarrow> responseStatus (writeHeader w status) = status"
  by (simp_all add: httpError_def writeJSON_def responseStatus_def w_sent_writeChunk w_sent_writeHeader Let_def)

text \<open>What serving one request keeps.\<close>

lemma endpoint_keeps:
  assumes "coherent (rv_env rv) cfg s" "w_sent w = None" "e \<noteq> ChatCompletions" "serveEndpoint rv chat e r w s = (p, r', w', s')"
  shows "\<not> p \<and> coherent (rv_env rv) cfg s' \<and> gs_inFlight s' = gs_inFlight s \<and> gs_activeRequests s' = gs_activeRequests s \<and>
    gs_draining s' = gs_draining s \<and> gs_log s' = gs_log s"
  using assms
  by (cases e) (auto simp: protectedMetricsHandler_def liveHandler_def readyHandler_def coherent_def registry_ok_def globalConfig_def
      split: prod.splits option.splits)

lemma endpoint_status:
  assumes "w_sent w = None" "serveEndpoint rv chat e r w s = (p, r', w', s')" "muxEndpoint r = e"
  shows "answer_fits (False, r) w'"
proof -
  have ready: "status = 200 \<or> status = 503" if "buildReadyHealthResponse sts = (resp, status)" for sts resp status
    using that by (simp add: buildReadyHealthResponse_eq split: if_splits)
  show ?thesis
    using assms by (cases e) (auto simp: answer_fits_def liveHandler_def readyHandler_def responseStatus_writers dest!: ready split: prod.splits)
qed

lemma router_eq:
  assumes "serveEndpoint rv chat (muxEndpoint r) r w s = (False, r', w', s')" "\<not> IsDraining s"
  shows "routerWith rv chat r w s = (False, r', w', s')"
  using assms by (simp add: routerWith_def RecoveryMiddleware_def drainingMiddleware_def)

lemma router_drained:
  assumes "w_sent w = None" "IsDraining s"
  shows "\<exists>w'. routerWith rv chat r w s = (False, r, w', s) \<and> responseStatus w' = 503 \<and> headerGet (w_header w') ''Connection'' = ''close''"
proof -
  from drained [OF assms] obtain w' where
    "drainingMiddleware (\<lambda>r w s. serveEndpoint rv chat (muxEndpoint r) r w s) r w s = (False, r, w', s)"
    "responseStatus w' = 503" "headerGet (w_header w') ''Connection'' = ''close''" by blast
  then show ?thesis by (simp add: routerWith_def RecoveryMiddleware_def)
qed

lemma server_step:
  assumes "coherent (rv_env rv) cfg s" "w_sent w = None" "px_GetProvider (rv_proxy rv) = GetProvider world" "whole_bodies world"
    "NewRouter rv r w s = (p, r', w', s')"
  shows "coherent (rv_env rv) cfg s' \<and> gs_inFlight s' = gs_inFlight s \<and> gs_activeRequests s' = gs_activeRequests s \<and>
    gs_draining s' = gs_draining s \<and> answer_fits (gs_draining s, r) w' \<and>
    length (gs_log s') = length (gs_log s) + (if \<not> gs_draining s \<and> muxEndpoint r = ChatCompletions then 1 else 0)"
proof (cases "IsDraining s")
  case True
  with router_drained [OF assms(2) True, of rv "buildChatHandler (rv_env rv) (rv_proxy rv)" r] assms(1,5) show ?thesis by (auto simp: NewRouter_def answer_fits_def IsDraining_def)
next
  case False
  let ?chat = "buildChatHandler (rv_env rv) (rv_proxy rv)"
  obtain q r1 w1 s1 where e: "serveEndpoint rv ?chat (muxEndpoint r) r w s = (q, r1, w1, s1)" by (metis prod_cases4)
  have out: "p = False \<and> r' = r1 \<and> w' = w1 \<and> s' = s1" if "\<not> q"
    using router_eq [of rv ?chat r w s r1 w1 s1] e that False assms(5) by (simp add: NewRouter_def)
  show ?thesis
  proof (cases "muxEndpoint r = ChatCompletions")
    case True
    with e have chat: "?chat r w s = (q, r1, w1, s1)" by simp
    obtain en where "\<not> q" "gs_log s1 = gs_log s @ [en]" "same_frame (rv_env rv) s (s1\<lparr>gs_log := gs_log s\<rparr>)"
      by (rule chat_endpoint_settled [OF assms(1-4) chat])
    with out True False assms(1) show ?thesis
      by (auto simp: same_frame_def coherent_def intact_def registry_ok_def globalConfig_def answer_fits_def IsDraining_def)
  next
    case other: False
    with endpoint_keeps [OF assms(1,2) other e] endpoint_status [OF assms(2) e refl] out False show ?thesis by (auto simp: IsDraining_def)
  qed
qed

section \<open>Properties\<close>

text \<open>C25. Shutting down and panics: while the server drains every request, to whatever endpoint, is answered 503 with \<open>Connection: close\<close> and nothing else
  happens; otherwise the router never lets a panic through, a panic of the chat handler before anything was sent becomes an
  answer 500, and the chat handler is not called for a request of another endpoint.\<close>

theorem router_drains_and_recovers:
  assumes "w_sent w = None"
  shows "let route = routerWith rv chat in
    (IsDraining s \<longrightarrow> (\<exists>w'. route r w s = (False, r, w', s) \<and> responseStatus w' = 503 \<and> headerGet (w_header w') ''Connection'' = ''close'')) \<and>
    \<not> fst (route r w s) \<and>
    (\<not> IsDraining s \<longrightarrow> (\<forall>r' w' s'. muxEndpoint r = ChatCompletions \<and> chat r w s = (True, r', w', s') \<and> w_sent w' = None \<longrightarrow>
         responseStatus (fst (snd (snd (route r w s)))) = 500 \<and> snd (snd (snd (route r w s))) = s')) \<and>
    (muxEndpoint r \<noteq> ChatCompletions \<longrightarrow> (\<forall>chat'. routerWith rv chat' r w s = route r w s))"
proof -
  have total: "\<not> fst (routerWith rv chat r w s)" by (simp add: routerWith_def Recovery_total)
  have panic: "responseStatus (fst (snd (snd (routerWith rv chat r w s)))) = 500 \<and> snd (snd (snd (routerWith rv chat r w s))) = s'"
    if "\<not> IsDraining s" "muxEndpoint r = ChatCompletions" "chat r w s = (True, r', w', s')" "w_sent w' = None" for r' w' s'
    using Recovery_panic [of "drainingMiddleware (\<lambda>r w s. serveEndpoint rv chat (muxEndpoint r) r w s)" r w s r' w' s'] that
    by (auto simp: routerWith_def drainingMiddleware_def)
  have same: "serveEndpoint rv chat' e r w s = serveEndpoint rv chat e r w s" if "e \<noteq> ChatCompletions" for chat' e
    using that by (cases e) simp_all
  have other: "routerWith rv chat' r w s = routerWith rv chat r w s" if "muxEndpoint r \<noteq> ChatCompletions" for chat'
    unfolding routerWith_def RecoveryMiddleware_def drainingMiddleware_def same [OF that, of chat'] ..
  show ?thesis
    unfolding Let_def
  proof (intro conjI)
    show "IsDraining s \<longrightarrow> (\<exists>w'. routerWith rv chat r w s = (False, r, w', s) \<and> responseStatus w' = 503 \<and>
        headerGet (w_header w') ''Connection'' = ''close'')"
      using router_drained [OF assms] by blast
    show "\<not> IsDraining s \<longrightarrow> (\<forall>r' w' s'. muxEndpoint r = ChatCompletions \<and> chat r w s = (True, r', w', s') \<and> w_sent w' = None \<longrightarrow>
        responseStatus (fst (snd (snd (routerWith rv chat r w s)))) = 500 \<and> snd (snd (snd (routerWith rv chat r w s))) = s')"
      by (intro impI allI) (elim conjE, rule panic)
    show "muxEndpoint r \<noteq> ChatCompletions \<longrightarrow> (\<forall>chat'. routerWith rv chat' r w s = routerWith rv chat r w s)"
      by (intro impI allI other)
  qed (rule total)
qed

text \<open>A router for examples.\<close>

definition demoRouter :: "(nat, nat) router_env" where
  "demoRouter = \<lparr>rv_env = demoEnv, rv_proxy = (scriptEnv [])\<lparr>px_GetProvider := GetProvider demoWorld\<rparr>,
     rv_gobreaker = \<lparr>gb_New = (\<lambda>_. 0), gb_State = (\<lambda>_ c. (StateClosed, c, [])), gb_Before = (\<lambda>_ c. (Inr 0, c, [])), gb_After = (\<lambda>_ _ _ c. (c, []))\<rparr>,
     rv_runtime = demoRuntime, rv_order = (\<lambda>_. []), rv_promhttp = (\<lambda>_ w. writeHeader w 200), rv_redirect = (\<lambda>path _ w. writeHeader (setHeader w ''Location'' path) 301)\<rparr>"

definition chatPost :: http_request where
  "chatPost = forgedRequest\<lparr>req_Method := ''POST'', req_URL := \<lparr>url_Scheme = [], url_Host = [], url_Path = ''/v1/chat/completions'', url_RawPath = [], url_RawQuery = []\<rparr>\<rparr>"

lemma muxEndpoint_chatPost: "muxEndpoint chatPost = ChatCompletions"
  by code_simp

theorem router_drains_and_recovers_witness:
  "\<exists>w'. routerWith demoRouter liveHandler forgedRequest newWriter (SetDraining True demoState) = (False, forgedRequest, w', SetDraining True demoState) \<and>
     responseStatus w' = 503"
  using router_drains_and_recovers [OF newWriter_unsent, of demoRouter liveHandler "SetDraining True demoState" forgedRequest]
  by (auto simp: Let_def IsDraining_def SetDraining_def)



text \<open>C26. Readiness tells the truth about the providers, in whatever order the statuses are visited: it is refused with 503 exactly when there are
  providers and none is healthy, and \<open>provider_health_unverified\<close> is reported exactly when some provider has only its start-up
  status, with no breaker verdict, and no provider is known to be healthy.\<close>

theorem readiness_spec:
  assumes "buildReadyHealthResponse statuses = (resp, status)"
  shows "status = (if statuses \<noteq> [] \<and> (\<forall>st\<in>set statuses. \<not> ds_Healthy st) then 503 else 200) \<and>
    (''all_providers_down'' \<in> set (hr_DegradedFeatures resp) \<longleftrightarrow> status = 503) \<and> (hr_Status resp = ''unhealthy'' \<longleftrightarrow> status = 503) \<and>
    (''provider_health_unverified'' \<in> set (hr_DegradedFeatures resp) \<longleftrightarrow> unverified statuses) \<and>
    (mset statuses = mset statuses' \<longrightarrow> buildReadyHealthResponse statuses' = (resp, status))"
  using assms ready_order [of statuses statuses'] unfolding buildReadyHealthResponse_eq all_down_def [symmetric]
  by (cases "unverified statuses"; cases "all_down statuses") auto

theorem readiness_spec_witness:
  "(case buildReadyHealthResponse [\<lparr>ds_Name = ''a'', ds_BaseURL = [], ds_Healthy = False, ds_BreakerState = ''open'', ds_StatusCode = 0,
      ds_LastError = [], ds_Source = ''probe'', ds_UpdatedAt = 0\<rparr>] of (resp, status) \<Rightarrow> status = 503)"
proof -
  let ?sts = "[\<lparr>ds_Name = ''a'', ds_BaseURL = [], ds_Healthy = False, ds_BreakerState = ''open'', ds_StatusCode = 0,
      ds_LastError = [], ds_Source = ''probe'', ds_UpdatedAt = 0\<rparr>]"
  obtain resp status where e: "buildReadyHealthResponse ?sts = (resp, status)" by fastforce
  from readiness_spec [OF e] e show ?thesis by simp
qed

end
