(* ===== verification/Metric_Registry.thy ===== *)
theory Metric_Registry
  imports Proxy_Trace
begin

text \<open>
  \<open>internal/metrics/prometheus.go\<close>: the collectors the gateway declares, with their labels and buckets, and the samples that the proxy
  and the metrics middleware record in them. The Prometheus client is not part of the repository; what it demands of a
  declaration and of label values, by its documentation, is stated as predicates: it panics when they do not hold.
\<close>

section \<open>The collectors\<close>

datatype collector_kind = CounterVec | GaugeVec | HistogramVec "rat list"

record collector =
  col_Kind :: collector_kind
  col_Name :: bytes
  col_Labels :: "bytes list"

definition latencyBuckets :: "rat list" where
  "latencyBuckets = [1/100, 25/1000, 5/100, 1/10, 25/100, 5/10, 1, 25/10, 5, 10, 30, 60, 120, 300]"

definition RequestTotal :: collector where
  "RequestTotal = \<lparr>col_Kind = CounterVec, col_Name = ''gateway_requests_total'', col_Labels = [''provider'', ''model'', ''status_code'', ''cache_status'']\<rparr>"

definition RequestDuration :: collector where
  "RequestDuration = \<lparr>col_Kind = HistogramVec latencyBuckets, col_Name = ''gateway_request_duration_seconds'',
     col_Labels = [''provider'', ''model'', ''status_code'', ''cache_status'']\<rparr>"

definition RequestsInFlight :: collector where
  "RequestsInFlight = \<lparr>col_Kind = GaugeVec, col_Name = ''gateway_requests_in_flight'', col_Labels = [''route'']\<rparr>"

definition CacheRequestsTotal :: collector where
  "CacheRequestsTotal = \<lparr>col_Kind = CounterVec, col_Name = ''gateway_cache_requests_total'', col_Labels = [''provider'', ''model'', ''result'']\<rparr>"

definition UpstreamRequestsTotal :: collector where
  "UpstreamRequestsTotal = \<lparr>col_Kind = CounterVec, col_Name = ''gateway_upstream_requests_total'',
     col_Labels = [''provider'', ''model'', ''status_code'', ''result'']\<rparr>"

definition UpstreamRequestDuration :: collector where
  "UpstreamRequestDuration = \<lparr>col_Kind = HistogramVec latencyBuckets, col_Name = ''gateway_upstream_request_duration_seconds'',
     col_Labels = [''provider'', ''model'', ''status_code'']\<rparr>"

definition UpstreamRetriesTotal :: collector where
  "UpstreamRetriesTotal = \<lparr>col_Kind = CounterVec, col_Name = ''gateway_upstream_retries_total'', col_Labels = [''provider'', ''model'', ''reason'']\<rparr>"

definition UpstreamFailoversTotal :: collector where
  "UpstreamFailoversTotal = \<lparr>col_Kind = CounterVec, col_Name = ''gateway_upstream_failovers_total'',
     col_Labels = [''from_provider'', ''to_provider'', ''model'', ''reason'']\<rparr>"

definition UpstreamProviderHealth :: collector where
  "UpstreamProviderHealth = \<lparr>col_Kind = GaugeVec, col_Name = ''gateway_upstream_provider_health'', col_Labels = [''provider'']\<rparr>"

definition CircuitBreakerState :: collector where
  "CircuitBreakerState = \<lparr>col_Kind = GaugeVec, col_Name = ''gateway_circuit_breaker_state'', col_Labels = [''breaker'']\<rparr>"

definition StreamTTFT :: collector where
  "StreamTTFT = \<lparr>col_Kind = HistogramVec [5/100, 1/10, 25/100, 5/10, 1, 2, 5, 10, 30], col_Name = ''gateway_stream_ttft_seconds'',
     col_Labels = [''provider'', ''model'']\<rparr>"

definition StreamDuration :: collector where
  "StreamDuration = \<lparr>col_Kind = HistogramVec [5/10, 1, 25/10, 5, 10, 30, 60, 120, 300], col_Name = ''gateway_stream_duration_seconds'',
     col_Labels = [''provider'', ''model'']\<rparr>"

definition StreamTerminationsTotal :: collector where
  "StreamTerminationsTotal = \<lparr>col_Kind = CounterVec, col_Name = ''gateway_stream_terminations_total'', col_Labels = [''provider'', ''model'', ''outcome'']\<rparr>"

definition IPRateLimitRejectedTotal :: collector where
  "IPRateLimitRejectedTotal = \<lparr>col_Kind = CounterVec, col_Name = ''gateway_ip_rate_limit_rejected_total'', col_Labels = []\<rparr>"

definition collectors :: "collector list" where
  "collectors = [RequestTotal, RequestDuration, RequestsInFlight, CacheRequestsTotal, UpstreamRequestsTotal, UpstreamRequestDuration,
     UpstreamRetriesTotal, UpstreamFailoversTotal, UpstreamProviderHealth, CircuitBreakerState, StreamTTFT, StreamDuration,
     StreamTerminationsTotal, IPRateLimitRejectedTotal]"

lemmas collector_defs = RequestTotal_def RequestDuration_def RequestsInFlight_def CacheRequestsTotal_def UpstreamRequestsTotal_def
  UpstreamRequestDuration_def UpstreamRetriesTotal_def UpstreamFailoversTotal_def UpstreamProviderHealth_def CircuitBreakerState_def
  StreamTTFT_def StreamDuration_def StreamTerminationsTotal_def IPRateLimitRejectedTotal_def

section \<open>Samples\<close>

text \<open>The label values of the samples, in the order of the code. \<open>recordMetrics\<close> is \<open>RecordMetrics\<close> of the stream writer; the observed
  durations are not modelled.\<close>

type_synonym sample = "collector \<times> bytes list"

definition recordMetrics :: "bytes \<Rightarrow> bytes \<Rightarrow> bytes \<Rightarrow> bool \<Rightarrow> sample list" where
  "recordMetrics provider model outcome firstChunkSeen =
     (if firstChunkSeen then [(StreamTTFT, [provider, model])] else []) @
     [(StreamDuration, [provider, model]), (StreamTerminationsTotal, [provider, model, outcome])]"

fun eventSamples :: "metric_event \<Rightarrow> sample list" where
  "eventSamples (UpstreamRequest provider model status result positive) =
     (UpstreamRequestsTotal, [provider, model, status, result]) #
     (if positive then [(UpstreamRequestDuration, [provider, model, status])] else [])"
| "eventSamples (UpstreamRetry provider model reason) = [(UpstreamRetriesTotal, [provider, model, reason])]"
| "eventSamples (UpstreamFailover provider nextProvider model reason) = [(UpstreamFailoversTotal, [provider, nextProvider, model, reason])]"
| "eventSamples (StreamEnd provider model outcome firstChunkSeen) = recordMetrics provider model outcome firstChunkSeen"

definition requestSamples :: "bytes \<times> bytes \<times> bytes \<Rightarrow> sample list" where
  "requestSamples req = (case req of (provider, model, status) \<Rightarrow>
     [(RequestTotal, [provider, model, status, ''none'']), (RequestDuration, [provider, model, status, ''none''])])"

section \<open>What the client library demands\<close>

text \<open>Label values are valid UTF-8 (\<open>utf8.ValidString\<close>), one for each label.\<close>

lemma decodeRune_shrinks: "s \<noteq> [] \<Longrightarrow> (r, width) = decodeRune s \<Longrightarrow> length (drop width s) < length s"
  using decodeRune_width [of s] by (cases s) (auto dest!: arg_cong [of _ _ snd] simp del: decodeRune.simps)

function validString :: "bytes \<Rightarrow> bool" where
  "validString [] = True"
| "validString (c # t) = (case decodeRune (c # t) of (r, width) \<Rightarrow> \<not> (r = runeError \<and> width = 1) \<and> validString (drop width (c # t)))"
  by pat_completeness auto
termination by (relation "measure length") (simp, metis decodeRune_shrinks in_measure list.distinct(1))

definition acceptsLabels :: "sample \<Rightarrow> bool" where
  "acceptsLabels smp = (case smp of (c, values) \<Rightarrow> length values = length (col_Labels c) \<and> list_all validString values)"

text \<open>A declaration: names of the right form and different from each other, label names likewise and none reserved, increasing buckets.\<close>

definition nameByte :: "char \<Rightarrow> bool" where
  "nameByte c \<longleftrightarrow> inRange 97 122 c \<or> inRange 65 90 c \<or> c = CHR ''_''"

definition validName :: "bytes \<Rightarrow> bool" where
  "validName s = (case s of [] \<Rightarrow> False | c # t \<Rightarrow> nameByte c \<and> list_all (\<lambda>d. nameByte d \<or> inRange 48 57 d) t)"

fun increasingBuckets :: "rat list \<Rightarrow> bool" where
  "increasingBuckets (a # b # bs) \<longleftrightarrow> a < b \<and> increasingBuckets (b # bs)"
| "increasingBuckets _ = True"

definition validCollector :: "collector \<Rightarrow> bool" where
  "validCollector c \<longleftrightarrow> validName (col_Name c) \<and> list_all validName (col_Labels c) \<and> distinct (col_Labels c) \<and>
     list_all (\<lambda>l. take 2 l \<noteq> ''__'') (col_Labels c) \<and>
     (case col_Kind c of HistogramVec bs \<Rightarrow> ''le'' \<notin> set (col_Labels c) \<and> bs \<noteq> [] \<and> increasingBuckets bs | _ \<Rightarrow> True)"

section \<open>The labels the proxy writes\<close>

definition ascii :: "bytes \<Rightarrow> bool" where
  "ascii s \<longleftrightarrow> list_all (\<lambda>c. byte c < (128 :: nat)) s"

lemma ascii_valid: "ascii s \<Longrightarrow> validString s"
  by (induction s) (simp_all add: ascii_def runeError_def)

lemma itoa_ascii [simp]: "ascii (itoa n)"
proof -
  have "\<forall>c\<in>set (nat_digits m). byte c < (128 :: nat)" for m
    by (induction m rule: nat_digits.induct) (subst nat_digits.simps, auto)
  then show ?thesis by (simp add: itoa_def ascii_def list_all_iff)
qed

lemma ascii_Cons [simp]: "ascii []" "ascii (c # s) \<longleftrightarrow> byte c < (128 :: nat) \<and> ascii s"
  by (simp_all add: ascii_def)

lemma ascii_append [simp]: "ascii (s @ t) \<longleftrightarrow> ascii s \<and> ascii t"
  by (simp add: ascii_def)

text \<open>An event whose labels are names of candidates, the model of the request, and plain text.\<close>

fun event_ok :: "bytes set \<Rightarrow> bytes \<Rightarrow> metric_event \<Rightarrow> bool" where
  "event_ok names m (UpstreamRequest p m' status result positive) \<longleftrightarrow> p \<in> names \<and> m' = m \<and> ascii status \<and> ascii result"
| "event_ok names m (UpstreamRetry p m' reason) \<longleftrightarrow> p \<in> names \<and> m' = m \<and> ascii reason"
| "event_ok names m (UpstreamFailover p q m' reason) \<longleftrightarrow> p \<in> names \<and> (q \<in> names \<or> ascii q) \<and> m' = m \<and> ascii reason"
| "event_ok names m (StreamEnd p m' outcome seen) \<longleftrightarrow> p \<in> names \<and> m' = m \<and> ascii outcome"

definition labels_ok :: "bytes set \<Rightarrow> bytes \<Rightarrow> ('net, 'cb) proxy_state \<Rightarrow> bool" where
  "labels_ok names m st \<longleftrightarrow> list_all (event_ok names m) (ps_events st) \<and> gc_TargetModel (ps_ctx st) = m \<and> ascii (ps_lastRetryReason st)"

lemma reasons_ascii:
  "ascii (upstreamFailureReason ul ctx resp err)" "ascii (upstreamStatusLabel resp err)" "ascii (classifyStreamOutcome ul ctx e seen)"
  unfolding upstreamFailureReason_def upstreamStatusLabel_def classifyStreamOutcome_def proxy_constants
  by (auto split: option.split)

lemma targetModel_simps [simp]:
  "gc_TargetModel (recordUpstreamAttempt g p i b k resp rs d result) = gc_TargetModel g"
  "gc_TargetModel (clientCanceledError g) = gc_TargetModel g" "gc_TargetModel (SetActiveProvider g route) = gc_TargetModel g"
  "gc_TargetModel (RecordFailover g t) = gc_TargetModel g" "gc_TargetModel (SetTerminalError g st ty c rs) = gc_TargetModel g"
  by (simp_all add: recordUpstreamAttempt_def clientCanceledError_def SetActiveProvider_def noteProviderAttempt_def RecordFailover_def
      SetTerminalError_def RecordUpstreamAttempt_def)

text \<open>Every step of the loops keeps the labels.\<close>

lemma labels_step:
  "labels_ok names m st \<Longrightarrow> event_ok names m ev \<Longrightarrow> labels_ok names m (st\<lparr>ps_events := ps_events st @ [ev]\<rparr>)"
  by (simp add: labels_ok_def)

lemma sendAttempt_labels:
  assumes "labels_ok names m st" "pr_Name p \<in> names" "sendAttempt env tp isStream p compiled st = (res, st')"
  shows "labels_ok names m st'" "ascii (ar_reason res)"
proof -
  show "labels_ok names m st'"
    using assms by (auto simp: sendAttempt_def labels_ok_def observeUpstreamAttempt_def Let_def reasons_ascii split: prod.splits)
  show "ascii (ar_reason res)"
    using assms(3) reasons_ascii(1)
    by (auto simp: sendAttempt_def Let_def classifyUpstreamAttempt_def split: prod.splits if_splits option.splits)
qed

lemma returnResponse_labels:
  assumes "labels_ok names m st" "pr_Name p \<in> names"
  shows "labels_ok names m (returnResponse env p ad resp st)"
  using assms
  by (auto simp: returnResponse_def labels_ok_def observeUpstreamAttempt_def finishStreamingRequest_def Let_def reasons_ascii split: prod.split)

lemma noteAttempt_labels: "labels_ok names m st \<Longrightarrow> labels_ok names m (noteAttempt p i b k res rs result st)"
  by (simp add: noteAttempt_def labels_ok_def)

lemma attemptLoop_labels:
  "pr_Name p \<in> names \<Longrightarrow> attemptLoop env tp isStream backoff p idx ad compiled budget n st = (fin, st') \<Longrightarrow> labels_ok names m st \<Longrightarrow> labels_ok names m st'"
proof (induction n arbitrary: st)
  case (Suc n)
  obtain res st1 where s: "sendAttempt env tp isStream p compiled st = (res, st1)" by fastforce
  note ok = sendAttempt_labels [OF Suc.prems(3,1) s]
  have retry: "labels_ok names m (afterRetry p idx budget k res st1)" for k
    using ok Suc.prems(1) by (simp add: afterRetry_def noteAttempt_def labels_ok_def Let_def)
  from Suc.prems(2) s show ?case
  proof (cases rule: attemptLoop_cases)
    case (again net)
    show ?thesis by (rule Suc.IH [OF Suc.prems(1) again(3)]) (use retry in \<open>simp add: labels_ok_def\<close>)
  next
    case (wait_canceled net)
    with retry show ?thesis by (simp add: afterCanceledWait_def labels_ok_def proxy_constants)
  next
    case (answered r)
    with ok(1) Suc.prems(1) show ?thesis by (simp add: afterReturn_def returnResponse_labels noteAttempt_labels)
  qed (use ok retry in \<open>simp_all add: afterFailover_def afterTerminate_def noteAttempt_def labels_ok_def Let_def\<close>)
qed simp

lemma noteFailover_labels:
  assumes "labels_ok names m st" "pr_Name p \<in> names" "pr_Name ` set cands \<subseteq> names"
  shows "labels_ok names m (noteFailover cands i p st)"
proof -
  have "nextProviderName cands (int i + 1) \<in> names \<or> ascii (nextProviderName cands (int i + 1))"
    using assms(3) by (auto simp: nextProviderName_def)
  with assms show ?thesis by (auto simp: noteFailover_def labels_ok_def Let_def)
qed

lemma providerLoop_labels:
  "pr_Name ` set cands \<subseteq> names \<Longrightarrow> pr_Name ` set ps \<subseteq> names \<Longrightarrow>
   providerLoop env tp isStream backoff cands idx ps st = (fin, st') \<Longrightarrow> labels_ok names m st \<Longrightarrow> labels_ok names m st'"
proof (induction ps arbitrary: idx st)
  case (Cons p ps)
  let ?ad = "px_GetProvider env (pr_Name p)" and ?b = "effectiveRetryCount (px_config env) p + 1"
  let ?g = "st\<lparr>ps_ctx := SetActiveProvider (ps_ctx st) p\<rparr>"
  obtain c up where c: "compile (px_runtime env) tp p ?ad (ps_up ?g) = (c, up)" by fastforce
  have g: "labels_ok names m (?g\<lparr>ps_up := up\<rparr>)" using Cons.prems(4) by (simp add: labels_ok_def)
  show ?case
  proof (cases c)
    case (Inl e)
    with Cons.prems(3) c g show ?thesis by (auto simp: Let_def labels_ok_def)
  next
    case (Inr req)
    obtain fin1 st2 where l: "attemptLoop env tp isStream backoff p (int idx) ?ad req ?b (nat ?b) (?g\<lparr>ps_up := up\<rparr>) = (fin1, st2)" by fastforce
    have a: "labels_ok names m st2" by (rule attemptLoop_labels [OF _ l g]) (use Cons.prems(2) in simp)
    show ?thesis
    proof (cases fin1)
      case True
      with Cons.prems(3) c Inr l a show ?thesis by (auto simp: Let_def)
    next
      case False
      with Cons.prems(3) c Inr l
      have "providerLoop env tp isStream backoff cands (idx + 1) ps (noteFailover cands idx p st2) = (fin, st')" by (auto simp: Let_def)
      from Cons.IH [OF Cons.prems(1) _ this noteFailover_labels [OF a]] Cons.prems(1,2) show ?thesis by simp
    qed
  qed
qed simp

lemma ServeHTTP_labels:
  assumes "ServeHTTP env r w up net = (r', w', up', net', events)" "GetGatewayContext r = Some g"
  shows "list_all (event_ok (pr_Name ` set (gc_CandidateProviders g)) (gc_TargetModel g)) events"
proof (cases "GetRequestBodyContext r = None \<or> gc_CandidateProviders g = []")
  case True
  with assms show ?thesis by (auto simp: ServeHTTP_def split: option.splits)
next
  case False
  then obtain b where b: "GetRequestBodyContext r = Some b" "gc_CandidateProviders g \<noteq> []" by auto
  let ?st = "\<lparr>ps_net = net, ps_up = up, ps_ctx = g, ps_w = w, ps_finalErr = None, ps_totalRetries = 0, ps_lastRetryReason = ''unknown'', ps_events = []\<rparr>"
  obtain fin st where l: "providerLoop env (newRequestTemplate r (bc_UpstreamBody b)) (bc_IsStream b) (retryBackoff (px_runtime env) (px_config env))
    (gc_CandidateProviders g) 0 (gc_CandidateProviders g) ?st = (fin, st)" by fastforce
  have "labels_ok (pr_Name ` set (gc_CandidateProviders g)) (gc_TargetModel g) st"
    by (rule providerLoop_labels [OF _ _ l]) (simp_all add: labels_ok_def)
  moreover have "events = ps_events st" using assms b l by (auto simp: ServeHTTP_def Let_def finishFailure_def split: if_splits)
  ultimately show ?thesis by (simp add: labels_ok_def)
qed

lemma event_samples_accepted:
  assumes "event_ok names m ev" "\<forall>n\<in>names. validString n" "validString m" "smp \<in> set (eventSamples ev)"
  shows "acceptsLabels smp \<and> fst smp \<in> set collectors"
  using assms by (cases ev) (auto simp: acceptsLabels_def recordMetrics_def collector_defs collectors_def ascii_valid split: if_splits)

text \<open>The samples of the metrics middleware.\<close>

lemma request_samples_accepted:
  assumes "validString provider" "validString model" "smp \<in> set (requestSamples (provider, model, itoa status))"
  shows "acceptsLabels smp \<and> fst smp \<in> set collectors"
  using assms ascii_valid [OF itoa_ascii [of status]] ascii_valid [of "''none''"]
  by (auto simp: requestSamples_def acceptsLabels_def collector_defs collectors_def)

section \<open>Properties\<close>



end
