(* ===== verification/Spec2Isabelle.thy ===== *)
theory Spec2Isabelle
  imports Body_Context Limiter Routing Monitor Router Metric_Registry
begin

text \<open>
  A verification library for the gateway \<open>strait\<close>, an HTTP proxy that accepts OpenAI chat completion
  requests, authenticates and limits the client, and forwards the request to one of several
  providers, with retries and failover.

  \<^bold>\<open>The program.\<close> A request to \<open>POST /v1/chat/completions\<close> runs through the middlewares of \<open>internal/middleware\<close> in the
  order that \<open>internal/router/router.go\<close> fixes: request metadata, access log, authentication, rate limit, body context
  (size limit, one scan of the JSON text, injection of \<open>stream_options.include_usage\<close>), model allow list, model
  router, metrics. It then reaches \<open>internal/proxy/proxy.go\<close>, which tries the candidate providers in order, each up to
  its attempt budget, through the HTTP transport with one circuit breaker per provider (\<open>transport.go\<close>). Health probes
  (\<open>health.go\<close>) and breakers feed a health map, which orders the candidates and answers the readiness endpoint.
  \<open>internal/config/config.go\<close> loads and validates the configuration all of them read. Each provider has an adapter
  (\<open>internal/adapter\<close>) that prepares the outgoing request and rewrites the answer: the OpenAI-compatible one passes both
  through, the Anthropic one translates the body, the answer and the event stream between the two wire formats.

  \<^bold>\<open>The theories\<close>, from the bottom up; every theory names the files it models in its first block.

  \<^item> \<open>Go_Prelude\<close>, \<open>Go_Strings\<close>, \<open>Go_Quote\<close>: results, slices, byte strings, white space, UTF-8, \<open>strconv.Unquote\<close> and
    \<open>strconv.Quote\<close> as far as the gateway uses them. Strings are lists of bytes.
  \<^item> \<open>Body_Scan\<close> (\<open>body_scan.go\<close>): the scanner, function by function, errors as values; the loops are recursive functions over
    the position in the body with termination proofs. \<open>Body_Grammar\<close> gives the accepted language as inductive
    predicates, independent of positions, and \<open>Body_Inspection\<close> lifts the equivalence to requests; the locale there
    states what the loops share. \<open>Body_Context\<close> (\<open>body.go\<close>) is the injection.
  \<^item> \<open>Http_Model\<close> (\<open>response/error.go\<close> and the part of \<open>net/http\<close> in use), \<open>Gateway_Model\<close> (\<open>model/gateway.go\<close>), \<open>Request_State\<close>
    (\<open>request_state.go\<close> and the accessors of the middlewares).
  \<^item> \<open>Config_Model\<close> (\<open>config.go\<close>), \<open>Limiter\<close> (\<open>local_limiter.go\<close>), \<open>Routing\<close> (\<open>middleware/router.go\<close>), \<open>Health\<close> (\<open>health.go\<close>, \<open>transport.go\<close>).
    \<open>Routing\<close> states what it needs of the health component as the locale \<open>health_resolver\<close>, which \<open>Health\<close> interprets with
    the resolver that the gateway installs. \<open>Monitor\<close> (the rest of \<open>health.go\<close>) is the start of the monitor and a step relation for the
    interleavings of probes, requests, look-ups and readiness checks.
  \<^item> \<open>Proxy\<close> (\<open>proxy.go\<close>, \<open>timeout.go\<close>, \<open>stream_metrics.go\<close>): one attempt, the attempt loop, the provider loop, the handler.
    \<open>Adapter_OpenAI\<close> (\<open>openai_provider.go\<close>) interprets the locale \<open>answering_adapter\<close>, the promise the proxy relies on.
  \<^item> \<open>Adapter_Stream\<close> (\<open>stream_translator.go\<close>): the translation of the Anthropic event stream, line by line, into the
    chunks of a chat completion, its state as a record.
  \<^item> \<open>Adapter_Scan\<close> (the scanner of \<open>anthropic_response_fast.go\<close>): the locales \<open>scan_loop\<close>, \<open>object_loop\<close> and \<open>array_loop\<close> state what
    the member and element loops have in common; every such loop of the adapter is an interpretation. \<open>Adapter_Quote\<close>: what
    the scanner reads back of the spellings of strings, numbers and documents. \<open>Adapter_Text\<close>: the parser of text
    answers (the rest of that file).
  \<^item> \<open>Chat_Model\<close> (the message types), \<open>Adapter_Response\<close> (\<open>anthropic_response_tool_fast.go\<close> and the response half of
    \<open>anthropic_provider.go\<close>), \<open>Adapter_Request\<close> (\<open>anthropic_request_fast.go\<close> and the request half). \<open>Adapter_Registry\<close>: the provider
    methods and \<open>GetProvider\<close>, with the second interpretation of \<open>answering_adapter\<close>.
  \<^item> \<open>Proxy_Trace\<close> describes a request as runs of two step relations, one for the attempts at a provider and one for the
    failovers between providers, and proves that the loops follow them.
  \<^item> \<open>Client_Address\<close> (\<open>ip_cidr.go\<close>, part of \<open>ratelimit.go\<close>, \<open>metrics_endpoint.go\<close>), \<open>Observer\<close> (\<open>response_observer.go\<close>),
    \<open>Middleware\<close> (the other middlewares, as functions from handlers to handlers over the state of the gateway).
  \<^item> \<open>Chat_Chain\<close>: the locale \<open>guard\<close>, the contract of a middleware, its closure under composition, and its interpretation for
    each middleware. \<open>Gateway\<close> (\<open>buildChatHandler\<close> of \<open>router/router.go\<close>): the chat endpoint.
  \<^item> \<open>Server_Mux\<close>: the patterns of \<open>router.go\<close> and the part of \<open>http.ServeMux\<close> and \<open>net/url\<close> that matches them. \<open>Router\<close> (the rest of
    \<open>router.go\<close>, \<open>draining.go\<close>): readiness, metrics endpoint, draining, recovery, and the server over sequences of requests.
  \<^item> \<open>Metric_Registry\<close> (\<open>metrics/prometheus.go\<close>): the collectors and the samples recorded in them.

  \<^bold>\<open>What is proved.\<close>

  \<^item> Body: the scanner accepts exactly the texts of the grammar with exactly the metadata it assigns; an
    injected body is read back with the same model and \<open>include_usage\<close>; no slice is out of range.
  \<^item> Configuration: what loads is in range, unique and complete, and secrets come from the environment only.
  \<^item> Limits: buckets stay between zero and burst, admit at most burst plus rate times time, recover after a second; the periodic
    sweep is invisible; a refused request gets 429 and goes no further.
  \<^item> Routing and health: the table is what the configuration says and never stale; health only reorders, healthy
    candidates first; readiness and routing agree; probes commute; the breaker transport is transparent;
    along every interleaving the gauges equal the records and the records cover the configured providers.
  \<^item> Proxy: upstream calls are bounded by the attempt budgets and are all in the trace; failovers follow the candidates;
    exhaustion means that all candidates were tried; every request is answered unless the client left, for every adapter of
    the registry, as long as the body of a complete answer can be read.
  \<^item> Anthropic adapter: the scanner terminates on every input and never leaves it; a text answer is translated correctly
    however it is spelled; the three response paths agree with one another, and the direct request translation with the
    general one; a translated request has the last system message as its prompt, the other messages in order and a default
    token limit; the client's own credentials never go out; the status of the provider is relayed; a translated stream is a sequence of well-formed frames that carries
    the events in order.
  \<^item> Whole endpoint: only vetted requests reach the proxy; a client without a valid token reaches nothing; every request is
    settled with one truthful access log line and balanced gauges; draining and panics are answered.
  \<^item> Server: dispatch follows the table of patterns in whatever spelling the URL comes; over every sequence of requests and
    draining commands the state stays coherent, gauges and log balance, and each request gets the status that
    its endpoint prescribes; no metric sample can make the metrics library panic.

  Some properties describe behaviour that differs from what the code means to do: a second comma after a trailing one,
  JSON escapes that are rejected, a fractional rate limit that never refills, an upstream reset that is taken for a client
  disconnect, a stale timeout, a client token that is forwarded to a provider without API key, an answer that breaks off and
  reaches the client as an empty success, escapes of Go that are no JSON in translated answers, user messages
  with \<open>null\<close> content that the two request paths treat differently.

  \<^bold>\<open>Parameters.\<close> Code outside the repository is an argument: the YAML decoder, environment and parsers of durations and URLs
  (record \<open>runtime\<close>), the circuit breaker library (record \<open>gobreaker\<close>), the network, clock and timers (record
  \<open>proxy_env\<close>), the package \<open>net\<close> (record \<open>net_lib\<close>), hashing, randomness and case mapping beyond ASCII (record
  \<open>middleware_env\<close>), floating-point rounding, the Prometheus handler and the text of redirections (record \<open>router_env\<close>), \<open>encoding/json\<close> (records \<open>request_codec\<close>, \<open>json_codec\<close> and \<open>event_decoder\<close>, gathered
  for the registry in \<open>adapter_world\<close>). What a property uses of them is a named hypothesis, discharged by a concrete
  instance in its witness. No function needs fuel: all recursions are structural or have a measure.

  \<^bold>\<open>Not modelled.\<close> Concurrency within one process is modelled where the order of events matters (probe sweeps, the health
  monitor), as interleavings of critical sections; mutexes, goroutines and buffer pools themselves are not. Log lines other
  than the access log, observed durations of the histograms, the construction of the logger (\<open>pkg/logger\<close>) and the connection
  settings of the transport are output or set-up without logic of their own. Code that nothing calls is left out:
  \<open>adapter/io_error.go\<close>, the copies of \<open>joinURLPath\<close> and \<open>copyResponseHeaders\<close> in \<open>proxy.go\<close>, unused types of \<open>model/gateway.go\<close>; and so
  are the size estimates that pre-allocate buffers, which change nothing that is sent.
\<close>

end
